(* ===== verification/Prelude.thy ===== *)
theory Prelude
  imports Main "HOL-Library.AList" "HOL-Library.Word"
begin

text \<open>
  Shared base of the development: the exceptions the Python code raises, dictionaries
  (association lists that keep insertion order, updated in place as \<^verbatim>\<open>d[k] = v\<close> does),
  the contract those dictionaries meet, and generic lemmas on lists and sums.
\<close>

unbundle bit_operations_syntax

named_theorems dict_simps \<open>rewrite rules for dictionary lookups after updates\<close>
named_theorems inv_intros \<open>introduction rules for component invariants\<close>

section \<open>Exceptions as values\<close>

datatype py_error =
    ProtocolError string
  | ValueError string
  | TypeError string
  | KeyError string
  | OverflowError string
  | UnicodeDecodeError
  | JSONDecodeError string
  | RecursionError
  | AttributeError string
  | TextOutsideModel
  | RuntimeError string
  | CandidateRejected string

text \<open>
  \<open>TextOutsideModel\<close> is no Python exception: it marks a text with a code point above 255, which
  the strings of this development cannot hold.
\<close>

type_synonym 'a res = "py_error + 'a"

fun res_bind :: "'a res \<Rightarrow> ('a \<Rightarrow> 'b res) \<Rightarrow> 'b res" where
  "res_bind (Inl e) f = Inl e"
| "res_bind (Inr a) f = f a"

lemma res_bind_Inr_iff: "res_bind r f = Inr b \<longleftrightarrow> (\<exists>a. r = Inr a \<and> f a = Inr b)"
  by (cases r) auto

lemma res_bind_Inl_iff: "res_bind m f = Inl e \<longleftrightarrow> m = Inl e \<or> (\<exists>a. m = Inr a \<and> f a = Inl e)"
  by (cases m) auto

text \<open>A loop that runs a check on each element and lets the first exception escape.\<close>

fun check_all :: "('a \<Rightarrow> unit res) \<Rightarrow> 'a list \<Rightarrow> unit res" where
  "check_all f [] = Inr ()"
| "check_all f (x # xs) = res_bind (f x) (\<lambda>_. check_all f xs)"

lemma check_all_Inr: "check_all f xs = Inr u \<longleftrightarrow> (\<forall>x \<in> set xs. f x = Inr ())"
  by (induction xs) (auto simp: res_bind_Inr_iff)

text \<open>A loop that collects the results of a body and lets the first exception escape.\<close>

fun collect_all :: "('a \<Rightarrow> 'b res) \<Rightarrow> 'a list \<Rightarrow> 'b list res" where
  "collect_all f [] = Inr []"
| "collect_all f (x # xs) = res_bind (f x) (\<lambda>y. res_bind (collect_all f xs) (\<lambda>ys. Inr (y # ys)))"

lemma collect_all_Inr: "collect_all f xs = Inr ys \<longleftrightarrow> map f xs = map Inr ys"
  by (induction xs arbitrary: ys) (auto simp: res_bind_Inr_iff)

lemma collect_all_length: "collect_all f xs = Inr ys \<Longrightarrow> length ys = length xs"
  by (metis collect_all_Inr length_map)

lemma collect_all_nth: "collect_all f xs = Inr ys \<Longrightarrow> i < length xs \<Longrightarrow> f (xs ! i) = Inr (ys ! i)"
  by (metis collect_all_Inr collect_all_length nth_map)

text \<open>A method of an IDA object: missing, or called with the given outcome.\<close>

type_synonym 'a call = "'a res option"

section \<open>Dictionaries\<close>

type_synonym ('k, 'v) dict = "('k \<times> 'v) list"

abbreviation dget :: "('k, 'v) dict \<Rightarrow> 'k \<Rightarrow> 'v option" where
  "dget d k \<equiv> map_of d k"

abbreviation dset :: "'k \<Rightarrow> 'v \<Rightarrow> ('k, 'v) dict \<Rightarrow> ('k, 'v) dict" where
  "dset k v d \<equiv> AList.update k v d"

abbreviation ddel :: "'k \<Rightarrow> ('k, 'v) dict \<Rightarrow> ('k, 'v) dict" where
  "ddel k d \<equiv> AList.delete k d"

abbreviation dkeys :: "('k, 'v) dict \<Rightarrow> 'k list" where
  "dkeys d \<equiv> map fst d"

abbreviation dvals :: "('k, 'v) dict \<Rightarrow> 'v list" where
  "dvals d \<equiv> map snd d"

abbreviation dwf :: "('k, 'v) dict \<Rightarrow> bool" where
  "dwf d \<equiv> distinct (map fst d)"

text \<open>
  The contract a dictionary meets: what a lookup returns after an assignment or a
  deletion, and that both keep the keys distinct. The client lemmas are proved once here.
\<close>

locale py_dict =
  fixes get :: "'d \<Rightarrow> 'k \<Rightarrow> 'v option"
    and put :: "'k \<Rightarrow> 'v \<Rightarrow> 'd \<Rightarrow> 'd"
    and del :: "'k \<Rightarrow> 'd \<Rightarrow> 'd"
    and emp :: "'d"
    and wf :: "'d \<Rightarrow> bool"
  assumes get_emp: "get emp k = None"
    and get_put: "get (put k v d) k' = (if k' = k then Some v else get d k')"
    and get_del: "get (del k d) k' = (if k' = k then None else get d k')"
    and wf_emp: "wf emp"
    and wf_put: "wf d \<Longrightarrow> wf (put k v d)"
    and wf_del: "wf d \<Longrightarrow> wf (del k d)"
begin

lemma get_put_all:
  "get (fold (\<lambda>(k, v). put k v) kvs d) k' =
     (case map_of (rev kvs) k' of Some v \<Rightarrow> Some v | None \<Rightarrow> get d k')"
  by (induction kvs arbitrary: d) (auto simp: get_put map_add_def split: option.splits)

lemma wf_put_all: "wf d \<Longrightarrow> wf (fold (\<lambda>(k, v). put k v) kvs d)"
  by (induction kvs arbitrary: d) (auto intro: wf_put)

lemma forall_put: "(\<forall>k' v'. get d k' = Some v' \<longrightarrow> P k' v') \<Longrightarrow> P k v \<Longrightarrow>
    get (put k v d) k' = Some v' \<Longrightarrow> P k' v'"
  by (auto simp: get_put split: if_splits)

lemma forall_del: "(\<forall>k' v'. get d k' = Some v' \<longrightarrow> P k' v') \<Longrightarrow>
    get (del k d) k' = Some v' \<Longrightarrow> P k' v'"
  by (auto simp: get_del split: if_splits)

end

interpretation ad: py_dict "\<lambda>d. map_of d" AList.update AList.delete "[]" "\<lambda>d. distinct (map fst d)"
  by unfold_locales (auto simp: update_conv' delete_conv' distinct_update distinct_delete)

lemmas [dict_simps, simp] = ad.get_put ad.get_del
lemmas [inv_intros] = ad.wf_emp ad.wf_put ad.wf_del

lemma set_dset: "x \<in> set (dset k v d) \<Longrightarrow> x = (k, v) \<or> x \<in> set d"
  by (induction d) (auto split: if_splits)

lemma length_dset: "length (dset k v d) = (if k \<in> fst ` set d then length d else Suc (length d))"
  by (induction d) auto

lemma dget_None_iff: "dget d k = None \<longleftrightarrow> k \<notin> fst ` set d"
  by (simp add: map_of_eq_None_iff)

section \<open>Lists used as Python sets\<close>

lemma finite_measure_less:
  fixes xs :: "'a list"
  shows "distinct xs \<Longrightarrow> set xs \<subseteq> A \<Longrightarrow> finite A \<Longrightarrow> length xs \<le> card A"
  by (metis card_mono distinct_card)

lemma set_map_filter_iff: "y \<in> set (List.map_filter f xs) \<longleftrightarrow> (\<exists>x \<in> set xs. f x = Some y)"
  by (induction xs) (auto simp: List.map_filter_simps split: option.splits)

text \<open>A loop keeps an invariant, and relates its first state to its last.\<close>

lemma fold_keeps:
  assumes "\<And>i x. P x \<Longrightarrow> P (f i x) \<and> R x (f i x)" "\<And>x. R x x" "\<And>x y z. R x y \<Longrightarrow> R y z \<Longrightarrow> R x z" "P x"
  shows "P (fold f xs x) \<and> R x (fold f xs x)"
  using assms(4)
proof (induction xs arbitrary: x)
  case (Cons i xs)
  from assms(1) [OF Cons.prems, of i] Cons.IH [of "f i x"] assms(3) show ?case by auto
qed (use assms(2) in simp)

lemma fold_or: "fold (\<lambda>x b. b \<or> P x) xs b \<longleftrightarrow> b \<or> (\<exists>x \<in> set xs. P x)"
  by (induction xs arbitrary: b) auto

section \<open>Step relations\<close>

text \<open>
  A component that moves by steps and keeps an invariant; what holds after one step holds after any
  number of them.
\<close>

locale step_system =
  fixes step :: "'s \<Rightarrow> 's \<Rightarrow> bool" and inv :: "'s \<Rightarrow> bool"
  assumes inv_step: "inv s \<Longrightarrow> step s s' \<Longrightarrow> inv s'"
begin

lemma run_inv: "step\<^sup>*\<^sup>* s s' \<Longrightarrow> inv s \<Longrightarrow> inv s'"
  by (induction rule: rtranclp_induct) (auto intro: inv_step)

text \<open>A property that steps keep as long as the invariant holds.\<close>

lemma run_keeps:
  assumes "step\<^sup>*\<^sup>* s s'" "inv s" "P s" "\<And>s s'. inv s \<Longrightarrow> step s s' \<Longrightarrow> P s \<Longrightarrow> P s'"
  shows "P s'"
proof -
  have "inv s' \<and> P s'" using assms(1-3) by (induction rule: rtranclp_induct) (auto intro: inv_step assms(4))
  then show ?thesis ..
qed

end

end
