(* ===== verification/Py_Text.thy ===== *)
theory Py_Text
  imports Prelude
begin

text \<open>
  The Python text operations the sources use, on strings of code points below 256:
  \<^verbatim>\<open>strip\<close>, \<^verbatim>\<open>lower\<close>, \<^verbatim>\<open>isdigit\<close>, \<^verbatim>\<open>startswith\<close>, \<^verbatim>\<open>in\<close>, decimal and hexadecimal formatting
  of integers, \<^verbatim>\<open>int(text, 0)\<close> and \<^verbatim>\<open>int(text, 10)\<close>, \<^verbatim>\<open>bytes.fromhex\<close> and
  \<^verbatim>\<open>int.from_bytes(.., "little")\<close>; and the round trips between formatting and parsing.
\<close>

section \<open>Characters and substrings\<close>

abbreviation code :: "char \<Rightarrow> nat" where
  "code c \<equiv> of_char c"

definition py_isspace :: "char \<Rightarrow> bool" where
  "py_isspace c \<longleftrightarrow> code c \<in> {9, 10, 11, 12, 13, 28, 29, 30, 31, 32, 133, 160}"

definition py_strip :: "string \<Rightarrow> string" where
  "py_strip s = rev (dropWhile py_isspace (rev (dropWhile py_isspace s)))"

definition py_lower_char :: "char \<Rightarrow> char" where
  "py_lower_char c =
     (if 65 \<le> code c \<and> code c \<le> 90 \<or> 192 \<le> code c \<and> code c \<le> 222 \<and> code c \<noteq> 215
      then char_of (code c + 32) else c)"

definition py_lower :: "string \<Rightarrow> string" where
  "py_lower s = map py_lower_char s"

text \<open>\<open>str.isdigit\<close> also holds for the superscripts two, three and one.\<close>

definition py_isdigit :: "string \<Rightarrow> bool" where
  "py_isdigit s \<longleftrightarrow>
     s \<noteq> [] \<and> list_all (\<lambda>c. 48 \<le> code c \<and> code c \<le> 57 \<or> code c \<in> {178, 179, 185}) s"

fun py_startswith :: "string \<Rightarrow> string \<Rightarrow> bool" where
  "py_startswith s [] = True"
| "py_startswith [] (p # ps) = False"
| "py_startswith (c # s) (p # ps) = (c = p \<and> py_startswith s ps)"

fun py_contains :: "string \<Rightarrow> string \<Rightarrow> bool" where
  "py_contains [] p = (p = [])"
| "py_contains (c # s) p = (py_startswith (c # s) p \<or> py_contains s p)"

definition py_remove_char :: "char \<Rightarrow> string \<Rightarrow> string" where
  "py_remove_char c s = filter (\<lambda>x. x \<noteq> c) s"

lemma py_startswith_iff: "py_startswith s p \<longleftrightarrow> (\<exists>t. s = p @ t)"
  by (induction s p rule: py_startswith.induct) auto

lemma py_startswith_take: "py_startswith s p \<longleftrightarrow> take (length p) s = p"
  by (metis py_startswith_iff append_eq_conv_conj append_take_drop_id)

section \<open>Formatting integers\<close>

definition digit_char :: "nat \<Rightarrow> char" where
  "digit_char d = char_of (if d < 10 then 48 + d else 87 + d)"

text \<open>Digits of a natural number in a base, most significant first.\<close>

function nat_digits :: "nat \<Rightarrow> nat \<Rightarrow> nat list" where
  "nat_digits b n = (if b < 2 \<or> n < b then [n] else nat_digits b (n div b) @ [n mod b])"
  by pat_completeness auto
termination
  by (relation "measure snd") (auto intro: div_less_dividend)

declare nat_digits.simps [simp del]

definition str_nat_base :: "nat \<Rightarrow> nat \<Rightarrow> string" where
  "str_nat_base b n = map digit_char (nat_digits b n)"

definition str_int_base :: "nat \<Rightarrow> int \<Rightarrow> string" where
  "str_int_base b v = (if v < 0 then CHR ''-'' # str_nat_base b (nat (- v)) else str_nat_base b (nat v))"

text \<open>\<open>str(v)\<close> and the format \<open>f"0x{v:x}"\<close>, which writes the sign after the prefix.\<close>

definition str_int :: "int \<Rightarrow> string" where
  "str_int v = str_int_base 10 v"

definition hex0x :: "int \<Rightarrow> string" where
  "hex0x v = ''0x'' @ str_int_base 16 v"

section \<open>Parsing integers\<close>

definition digit_val :: "char \<Rightarrow> nat option" where
  "digit_val c =
     (if 48 \<le> code c \<and> code c \<le> 57 then Some (code c - 48)
      else if 97 \<le> code c \<and> code c \<le> 122 then Some (code c - 87)
      else if 65 \<le> code c \<and> code c \<le> 90 then Some (code c - 55)
      else None)"

text \<open>
  Digits with single underscores between them; \<open>us\<close> says that the previous character does
  not allow an underscore or the end of the text.
\<close>

fun parse_digits :: "nat \<Rightarrow> nat \<Rightarrow> bool \<Rightarrow> string \<Rightarrow> nat option" where
  "parse_digits b acc us [] = (if us then None else Some acc)"
| "parse_digits b acc us (c # cs) =
     (if c = CHR ''_'' then (if us then None else parse_digits b acc True cs)
      else case digit_val c of
             None \<Rightarrow> None
           | Some d \<Rightarrow> if d < b then parse_digits b (acc * b + d) False cs else None)"

definition parse_prefixed :: "nat \<Rightarrow> string \<Rightarrow> nat option" where
  "parse_prefixed b s = (if s = [] then None else parse_digits b 0 False s)"

definition has_prefix_letter :: "char \<Rightarrow> string \<Rightarrow> bool" where
  "has_prefix_letter x s \<longleftrightarrow>
     (case s of CHR ''0'' # c # _ \<Rightarrow> py_lower_char c = x | _ \<Rightarrow> False)"

definition parse_base0 :: "string \<Rightarrow> nat option" where
  "parse_base0 s =
     (if has_prefix_letter (CHR ''x'') s then parse_prefixed 16 (drop 2 s)
      else if has_prefix_letter (CHR ''o'') s then parse_prefixed 8 (drop 2 s)
      else if has_prefix_letter (CHR ''b'') s then parse_prefixed 2 (drop 2 s)
      else case parse_digits 10 0 True s of
             None \<Rightarrow> None
           | Some n \<Rightarrow> if take 1 s = ''0'' \<and> n \<noteq> 0 then None else Some n)"

definition with_sign :: "(string \<Rightarrow> nat option) \<Rightarrow> string \<Rightarrow> int option" where
  "with_sign p s =
     (case s of
        CHR ''-'' # t \<Rightarrow> map_option (\<lambda>n. - int n) (p t)
      | CHR ''+'' # t \<Rightarrow> map_option int (p t)
      | _ \<Rightarrow> map_option int (p s))"

definition py_int0 :: "string \<Rightarrow> int option" where
  "py_int0 s = with_sign parse_base0 (py_strip s)"

definition py_int10 :: "string \<Rightarrow> int option" where
  "py_int10 s = with_sign (parse_digits 10 0 True) (py_strip s)"

section \<open>Bytes\<close>

definition is_ascii_space :: "char \<Rightarrow> bool" where
  "is_ascii_space c \<longleftrightarrow> code c \<in> {9, 10, 11, 12, 13, 32}"

definition hex_val :: "char \<Rightarrow> nat option" where
  "hex_val c = (case digit_val c of Some d \<Rightarrow> if d < 16 then Some d else None | None \<Rightarrow> None)"

text \<open>\<open>bytes.fromhex\<close>: pairs of hexadecimal digits, with spaces allowed between pairs.\<close>

fun bytes_fromhex :: "string \<Rightarrow> nat list option" where
  "bytes_fromhex [] = Some []"
| "bytes_fromhex [c] = (if is_ascii_space c then Some [] else None)"
| "bytes_fromhex (c # d # s) =
     (if is_ascii_space c then bytes_fromhex (d # s)
      else case (hex_val c, hex_val d) of
             (Some h, Some l) \<Rightarrow> map_option (\<lambda>bs. (16 * h + l) # bs) (bytes_fromhex s)
           | _ \<Rightarrow> None)"

fun from_bytes_little :: "nat list \<Rightarrow> nat" where
  "from_bytes_little [] = 0"
| "from_bytes_little (b # bs) = b + 256 * from_bytes_little bs"

section \<open>Round trips\<close>

lemma nat_digits_bound: "2 \<le> b \<Longrightarrow> d \<in> set (nat_digits b n) \<Longrightarrow> d < b"
proof (induction b n rule: nat_digits.induct)
  case (1 b n)
  then show ?case
    by (subst (asm) (2) nat_digits.simps) (auto split: if_splits)
qed

lemma nat_digits_nonempty: "nat_digits b n \<noteq> []"
  by (subst nat_digits.simps) simp

definition digits_value :: "nat \<Rightarrow> nat \<Rightarrow> nat list \<Rightarrow> nat" where
  "digits_value b acc ds = foldl (\<lambda>a d. a * b + d) acc ds"

lemma digits_value_nat_digits: "digits_value b 0 (nat_digits b n) = n"
proof (induction b n rule: nat_digits.induct)
  case (1 b n)
  then show ?case
    by (subst nat_digits.simps) (auto simp: digits_value_def)
qed

lemma of_char_of_lt: "n < 256 \<Longrightarrow> of_char (char_of n) = (n::nat)"
  by simp

lemma digit_val_char: "d < 16 \<Longrightarrow> digit_val (digit_char d) = Some d"
  by (auto simp: digit_val_def digit_char_def)

lemma digit_char_not_us: "d < 16 \<Longrightarrow> digit_char d \<noteq> CHR ''_''"
  using digit_val_char [of d] by (auto simp: digit_val_def)

lemma parse_digits_map:
  assumes "b \<le> 16" "\<forall>d \<in> set ds. d < b"
  shows "parse_digits b acc us (map digit_char ds) =
    (if ds = [] \<and> us then None else Some (digits_value b acc ds))"
  using assms(2)
proof (induction ds arbitrary: acc us)
  case (Cons d ds)
  then have "d < 16" using assms(1) by auto
  with Cons show ?case by (simp add: digit_val_char digit_char_not_us digits_value_def)
qed (simp add: digits_value_def)

lemma parse_str_nat_base: "2 \<le> b \<Longrightarrow> b \<le> 16 \<Longrightarrow> parse_digits b 0 us (str_nat_base b n) = Some n"
  using nat_digits_bound [of b _ n]
  by (simp add: str_nat_base_def parse_digits_map nat_digits_nonempty digits_value_nat_digits)

lemma str_nat_base_inj:
  assumes "str_nat_base 10 m = str_nat_base 10 n"
  shows "m = n"
proof -
  have "parse_digits 10 0 True (str_nat_base 10 k) = Some k" for k by (rule parse_str_nat_base) auto
  from this [of m] this [of n] show ?thesis unfolding assms by (simp only: option.inject)
qed

lemma minus_not_digits: "CHR ''-'' \<notin> set (str_nat_base 10 n)"
proof
  assume "CHR ''-'' \<in> set (str_nat_base 10 n)"
  then obtain d where d: "CHR ''-'' = digit_char d" "d \<in> set (nat_digits 10 n)"
    unfolding str_nat_base_def by auto
  then have "d < 10" using nat_digits_bound [of 10 d n] by simp
  then have "digit_val (CHR ''-'') = Some d" using digit_val_char [of d] d(1) by simp
  then show False by (simp add: digit_val_def)
qed

lemma str_int_inj: "str_int a = str_int b \<Longrightarrow> a = b"
  using str_nat_base_inj [of "nat a" "nat b"] str_nat_base_inj [of "nat (- a)" "nat (- b)"]
    minus_not_digits [of "nat a"] minus_not_digits [of "nat b"]
  by (auto simp: str_int_def str_int_base_def split: if_splits) (metis list.set_intros(1))+

lemma not_space_digit: "d < 16 \<Longrightarrow> \<not> py_isspace (digit_char d)"
  by (auto simp: py_isspace_def digit_char_def)

lemma py_strip_id: "(\<forall>c \<in> set s. \<not> py_isspace c) \<Longrightarrow> py_strip s = s"
proof -
  assume a: "\<forall>c \<in> set s. \<not> py_isspace c"
  then have "dropWhile py_isspace s = s" "dropWhile py_isspace (rev s) = rev s"
    by (auto simp: dropWhile_eq_self_iff hd_rev)
  then show ?thesis by (simp add: py_strip_def)
qed

lemma str_nat_base_no_space: "2 \<le> b \<Longrightarrow> b \<le> 16 \<Longrightarrow> c \<in> set (str_nat_base b n) \<Longrightarrow> \<not> py_isspace c"
  by (auto simp: str_nat_base_def intro!: not_space_digit order_less_le_trans [OF nat_digits_bound])

lemma parse_hex0x: "0 \<le> v \<Longrightarrow> py_int0 (hex0x v) = Some v"
proof -
  assume v: "0 \<le> v"
  let ?s = "str_nat_base 16 (nat v)"
  have "py_strip (hex0x v) = ''0x'' @ ?s"
    using v str_nat_base_no_space [of 16 _ "nat v"]
    by (subst py_strip_id) (auto simp: hex0x_def str_int_base_def py_isspace_def)
  moreover have "?s \<noteq> []" by (simp add: str_nat_base_def nat_digits_nonempty)
  moreover have "parse_digits 16 0 False ?s = Some (nat v)" by (rule parse_str_nat_base) auto
  ultimately show ?thesis using v
    by (simp add: py_int0_def with_sign_def parse_base0_def has_prefix_letter_def
        py_lower_char_def parse_prefixed_def)
qed

lemma from_bytes_little_bound: "\<forall>b \<in> set bs. b < 256 \<Longrightarrow> from_bytes_little bs < 256 ^ length bs"
  by (induction bs) (auto simp: Suc_le_eq)

lemma bytes_fromhex_bound: "bytes_fromhex s = Some bs \<Longrightarrow> b \<in> set bs \<Longrightarrow> b < 256"
proof (induction s arbitrary: bs rule: bytes_fromhex.induct)
  case (3 c d s)
  show ?case
  proof (cases "is_ascii_space c")
    case True
    with 3 show ?thesis by simp
  next
    case False
    with "3.prems" obtain h l bs' where hl: "hex_val c = Some h" "hex_val d = Some l"
      and bs: "bytes_fromhex s = Some bs'" "bs = (16 * h + l) # bs'"
      by (auto split: option.splits)
    from hl have "h < 16" "l < 16" by (auto simp: hex_val_def split: option.splits if_splits)
    with "3.IH"(2) [OF False] "3.prems" bs hl show ?thesis by auto
  qed
qed (auto split: if_splits)

end
