(* ===== verification/Json.thy ===== *)
theory Json
  imports Complex_Main Py_Text
begin

text \<open>
  The values \<^verbatim>\<open>json.loads\<close> produces, as the Python code sees them: \<^verbatim>\<open>True\<close> is an integer,
  \<^verbatim>\<open>1 == 1.0 == True\<close>, every value has a truth value, a \<^verbatim>\<open>str\<close> and a \<^verbatim>\<open>repr\<close>. Strings are
  lists of code points below 256; floats are binary64 values.
\<close>

section \<open>Floats\<close>

datatype py_float = Fin rat | NegZero | PosInf | NegInf | NaN

definition powr_int :: "rat \<Rightarrow> int \<Rightarrow> rat" where
  "powr_int b e = (if 0 \<le> e then b ^ nat e else 1 / b ^ nat (- e))"

text \<open>\<open>\<lfloor>log\<^sub>b q\<rfloor>\<close> for positive \<open>q\<close>, from the digit counts of numerator and denominator.\<close>

definition floor_log :: "nat \<Rightarrow> rat \<Rightarrow> int" where
  "floor_log b q =
     (case quotient_of q of (n, d) \<Rightarrow>
        let e = int (length (nat_digits b (nat n))) - int (length (nat_digits b (nat d)))
        in if powr_int (of_nat b) e \<le> q then e else e - 1)"

definition round_half_even :: "rat \<Rightarrow> int" where
  "round_half_even q =
     (let f = \<lfloor>q\<rfloor>; r = q - of_int f
      in if r < 1 / 2 then f else if r > 1 / 2 then f + 1 else if even f then f else f + 1)"

text \<open>The nearest binary64 value of a non-negative rational, ties to even.\<close>

definition round64 :: "rat \<Rightarrow> rat option" where
  "round64 q =
     (if q = 0 then Some 0
      else let e = max (floor_log 2 q - 52) (- 1074);
               v = of_int (round_half_even (q / powr_int 2 e)) * powr_int 2 e
           in if v < 2 ^ 1024 then Some v else None)"

definition float_of_decimal :: "bool \<Rightarrow> nat \<Rightarrow> int \<Rightarrow> py_float" where
  "float_of_decimal neg digits e =
     (case round64 (of_nat digits * powr_int 10 e) of
        None \<Rightarrow> if neg then NegInf else PosInf
      | Some q \<Rightarrow> if q = 0 then (if neg then NegZero else Fin 0) else Fin (if neg then - q else q))"

text \<open>The shortest decimal digits that round to \<open>q\<close>, and the position of the point.\<close>

fun shortest_digits :: "nat \<Rightarrow> nat \<Rightarrow> rat \<Rightarrow> string \<times> int" where
  "shortest_digits tries n q =
     (let d = floor_log 10 q;
          scaled = round_half_even (q * powr_int 10 (int n - 1 - d));
          digits = str_int scaled;
          res = (rev (dropWhile (\<lambda>c. c = CHR ''0'') (rev digits)),
                 d + 1 + (int (length digits) - int n))
      in case tries of
           0 \<Rightarrow> res
         | Suc t \<Rightarrow>
             if round64 (of_int scaled / powr_int 10 (int n - 1 - d)) = Some q then res
             else shortest_digits t (Suc n) q)"

definition repr_pos :: "rat \<Rightarrow> string" where
  "repr_pos q =
     (case shortest_digits 16 1 q of (ds, decpt) \<Rightarrow>
        if - 4 < decpt \<and> decpt \<le> 16
        then if decpt \<le> 0 then ''0.'' @ replicate (nat (- decpt)) (CHR ''0'') @ ds
             else if int (length ds) \<le> decpt
                  then ds @ replicate (nat decpt - length ds) (CHR ''0'') @ ''.0''
             else take (nat decpt) ds @ ''.'' @ drop (nat decpt) ds
        else let e = decpt - 1; ae = str_int \<bar>e\<bar>
             in take 1 ds @ (if length ds = 1 then [] else ''.'' @ drop 1 ds) @ ''e'' @
                (if e < 0 then ''-'' else ''+'') @ (if length ae < 2 then ''0'' else []) @ ae)"

fun repr_float :: "py_float \<Rightarrow> string" where
  "repr_float (Fin q) = (if q = 0 then ''0.0'' else if q < 0 then ''-'' @ repr_pos (- q) else repr_pos q)"
| "repr_float NegZero = ''-0.0''"
| "repr_float PosInf = ''inf''"
| "repr_float NegInf = ''-inf''"
| "repr_float NaN = ''nan''"

section \<open>Values\<close>

datatype json =
    JNull
  | JBool bool
  | JInt int
  | JFloat py_float
  | JStr string
  | JList "json list"
  | JObj "(string \<times> json) list"

type_synonym payload = "(string, json) dict"

text \<open>\<open>d.get(key)\<close> and \<open>d.get(key, default)\<close>.\<close>

definition jget :: "payload \<Rightarrow> string \<Rightarrow> json" where
  "jget d k = (case dget d k of Some v \<Rightarrow> v | None \<Rightarrow> JNull)"

definition jget_or :: "payload \<Rightarrow> string \<Rightarrow> json \<Rightarrow> json" where
  "jget_or d k dflt = (case dget d k of Some v \<Rightarrow> v | None \<Rightarrow> dflt)"

text \<open>\<open>value == n\<close> for an integer and \<open>value == s\<close> for a string.\<close>

fun json_eq_int :: "json \<Rightarrow> int \<Rightarrow> bool" where
  "json_eq_int (JInt i) n = (i = n)"
| "json_eq_int (JBool b) n = (n = (if b then 1 else 0))"
| "json_eq_int (JFloat (Fin q)) n = (q = of_int n)"
| "json_eq_int (JFloat NegZero) n = (n = 0)"
| "json_eq_int _ n = False"

fun json_eq_str :: "json \<Rightarrow> string \<Rightarrow> bool" where
  "json_eq_str (JStr t) s = (t = s)"
| "json_eq_str _ s = False"

fun json_truthy :: "json \<Rightarrow> bool" where
  "json_truthy JNull = False"
| "json_truthy (JBool b) = b"
| "json_truthy (JInt i) = (i \<noteq> 0)"
| "json_truthy (JFloat f) = (f \<noteq> Fin 0 \<and> f \<noteq> NegZero)"
| "json_truthy (JStr s) = (s \<noteq> [])"
| "json_truthy (JList xs) = (xs \<noteq> [])"
| "json_truthy (JObj d) = (d \<noteq> [])"

text \<open>\<open>isinstance(v, int)\<close> holds for booleans; \<open>json_int\<close> is the integer such a value is.\<close>

fun json_int :: "json \<Rightarrow> int option" where
  "json_int (JInt i) = Some i"
| "json_int (JBool b) = Some (if b then 1 else 0)"
| "json_int _ = None"

fun json_obj :: "json \<Rightarrow> payload option" where
  "json_obj (JObj d) = Some d"
| "json_obj _ = None"

fun json_str :: "json \<Rightarrow> string option" where
  "json_str (JStr s) = Some s"
| "json_str _ = None"

text \<open>Lists and dictionaries cannot be members of a set.\<close>

fun json_hashable :: "json \<Rightarrow> bool" where
  "json_hashable (JList xs) = False"
| "json_hashable (JObj d) = False"
| "json_hashable _ = True"

section \<open>Text of a value\<close>

definition py_printable :: "char \<Rightarrow> bool" where
  "py_printable c \<longleftrightarrow> 32 \<le> code c \<and> code c < 127 \<or> 160 < code c \<and> code c \<noteq> 173"

definition hex2 :: "nat \<Rightarrow> string" where
  "hex2 n = [digit_char (n div 16), digit_char (n mod 16)]"

definition repr_char :: "char \<Rightarrow> char \<Rightarrow> string" where
  "repr_char q c =
     (if c = q \<or> code c = 92 then [char_of (92::nat), c]
      else if code c = 10 then [char_of (92::nat), CHR ''n'']
      else if code c = 13 then [char_of (92::nat), CHR ''r'']
      else if code c = 9 then [char_of (92::nat), CHR ''t'']
      else if py_printable c then [c]
      else [char_of (92::nat), CHR ''x''] @ hex2 (code c))"

definition repr_str :: "string \<Rightarrow> string" where
  "repr_str s =
     (let sq = char_of (39::nat); dq = char_of (34::nat);
          q = (if sq \<in> set s \<and> dq \<notin> set s then dq else sq)
      in [q] @ concat (map (repr_char q) s) @ [q])"

fun join :: "string \<Rightarrow> string list \<Rightarrow> string" where
  "join sep [] = []"
| "join sep [x] = x"
| "join sep (x # y # ys) = x @ sep @ join sep (y # ys)"

fun py_repr :: "json \<Rightarrow> string" where
  "py_repr JNull = ''None''"
| "py_repr (JBool b) = (if b then ''True'' else ''False'')"
| "py_repr (JInt i) = str_int i"
| "py_repr (JFloat f) = repr_float f"
| "py_repr (JStr s) = repr_str s"
| "py_repr (JList xs) = ''['' @ join '', '' (map py_repr xs) @ '']''"
| "py_repr (JObj d) = ''{'' @ join '', '' (map (\<lambda>(k, v). repr_str k @ '': '' @ py_repr v) d) @ ''}''"

fun py_str :: "json \<Rightarrow> string" where
  "py_str (JStr s) = s"
| "py_str j = py_repr j"

text \<open>\<open>int(text, 0)\<close> with the exception of a text that is no integer.\<close>

definition int_base0 :: "string \<Rightarrow> int res" where
  "int_base0 s =
     (case py_int0 s of
        Some v \<Rightarrow> Inr v
      | None \<Rightarrow> Inl (ValueError (''invalid literal for int() with base 0: '' @ repr_str s)))"

lemma int_base0_hex0x: "0 \<le> v \<Longrightarrow> int_base0 (hex0x v) = Inr v"
  by (simp add: int_base0_def parse_hex0x)

lemma json_int_eq: "json_int j = Some i \<Longrightarrow> json_eq_int j n \<longleftrightarrow> i = n"
  by (cases j) auto

lemma jget_simps: "jget [] k = JNull" "jget ((k', v) # d) k = (if k = k' then v else jget d k)"
  by (auto simp: jget_def)

lemma jget_dset [simp]: "jget (dset k v d) k' = (if k' = k then v else jget d k')"
  by (simp add: jget_def)

end
