(* ===== verification/Json_Text.thy ===== *)
theory Json_Text
  imports Json
begin

text \<open>
  The JSON text codec the protocol modules use: \<^verbatim>\<open>json.dumps(m, separators=(",", ":"))\<close> with
  its ASCII-only escapes, \<^verbatim>\<open>json.loads\<close>, and UTF-8 decoding of received bytes. The main result
  is that loading a dumped value gives the value back.
\<close>

abbreviation (input) bslash :: char where
  "bslash \<equiv> char_of (92::nat)"
abbreviation (input) dquote :: char where
  "dquote \<equiv> char_of (34::nat)"

section \<open>Dumping\<close>

definition hex4 :: "nat \<Rightarrow> string" where
  "hex4 n = ''00'' @ hex2 n"

definition dump_char :: "char \<Rightarrow> string" where
  "dump_char c =
     (if code c = 34 \<or> code c = 92 then [bslash, c]
      else if code c = 10 then [bslash, CHR ''n'']
      else if code c = 13 then [bslash, CHR ''r'']
      else if code c = 9 then [bslash, CHR ''t'']
      else if code c = 12 then [bslash, CHR ''f'']
      else if code c = 8 then [bslash, CHR ''b'']
      else if 32 \<le> code c \<and> code c < 127 then [c]
      else [bslash, CHR ''u''] @ hex4 (code c))"

definition dump_str :: "string \<Rightarrow> string" where
  "dump_str s = [dquote] @ concat (map dump_char s) @ [dquote]"

fun dump_float :: "py_float \<Rightarrow> string" where
  "dump_float PosInf = ''Infinity''"
| "dump_float NegInf = ''-Infinity''"
| "dump_float NaN = ''NaN''"
| "dump_float f = repr_float f"

fun json_dumps :: "json \<Rightarrow> string" where
  "json_dumps JNull = ''null''"
| "json_dumps (JBool b) = (if b then ''true'' else ''false'')"
| "json_dumps (JInt i) = str_int i"
| "json_dumps (JFloat f) = dump_float f"
| "json_dumps (JStr s) = dump_str s"
| "json_dumps (JList xs) = ''['' @ join '','' (map json_dumps xs) @ '']''"
| "json_dumps (JObj d) = ''{'' @ join '','' (map (\<lambda>(k, v). dump_str k @ '':'' @ json_dumps v) d) @ ''}''"

section \<open>Loading\<close>

definition is_json_ws :: "char \<Rightarrow> bool" where
  "is_json_ws c \<longleftrightarrow> code c \<in> {32, 9, 10, 13}"

abbreviation skip_ws :: "string \<Rightarrow> string" where
  "skip_ws s \<equiv> dropWhile is_json_ws s"

text \<open>The character a one-letter escape stands for.\<close>

definition unescape :: "char \<Rightarrow> char option" where
  "unescape c =
     (if code c \<in> {34, 92, 47} then Some c
      else if c = CHR ''b'' then Some (char_of (8::nat))
      else if c = CHR ''f'' then Some (char_of (12::nat))
      else if c = CHR ''n'' then Some (char_of (10::nat))
      else if c = CHR ''r'' then Some (char_of (13::nat))
      else if c = CHR ''t'' then Some (char_of (9::nat))
      else None)"

definition parse_hex4 :: "string \<Rightarrow> nat option" where
  "parse_hex4 s =
     (case s of
        a # b # c # d # _ \<Rightarrow>
          (case (hex_val a, hex_val b, hex_val c, hex_val d) of
             (Some x, Some y, Some z, Some w) \<Rightarrow> Some (((x * 16 + y) * 16 + z) * 16 + w)
           | _ \<Rightarrow> None)
      | _ \<Rightarrow> None)"

text \<open>The rest of a string literal after its opening quote.\<close>

function parse_str :: "string \<Rightarrow> string \<Rightarrow> (string \<times> string) res" where
  "parse_str acc s =
     (case s of
        [] \<Rightarrow> Inl (JSONDecodeError ''Unterminated string starting at'')
      | c # r \<Rightarrow>
          if code c = 34 then Inr (rev acc, r)
          else if code c < 32 then Inl (JSONDecodeError ''Invalid control character at'')
          else if code c \<noteq> 92 then parse_str (c # acc) r
          else case r of
                 [] \<Rightarrow> Inl (JSONDecodeError ''Unterminated string starting at'')
               | e # r' \<Rightarrow>
                   if e = CHR ''u''
                   then case parse_hex4 r' of
                          None \<Rightarrow> Inl (JSONDecodeError (''Invalid '' @ [bslash] @ ''uXXXX escape''))
                        | Some n \<Rightarrow>
                            if n < 256 then parse_str (char_of n # acc) (drop 4 r')
                            else Inl TextOutsideModel
                   else case unescape e of
                          None \<Rightarrow> Inl (JSONDecodeError (''Invalid '' @ [bslash] @ ''escape''))
                        | Some ch \<Rightarrow> parse_str (ch # acc) r')"
  by pat_completeness auto
termination by (relation "measure (length \<circ> snd)") auto

declare parse_str.simps [simp del]

definition is_digit :: "char \<Rightarrow> bool" where
  "is_digit c \<longleftrightarrow> 48 \<le> code c \<and> code c \<le> 57"

definition digits_nat :: "string \<Rightarrow> nat" where
  "digits_nat ds = foldl (\<lambda>a c. a * 10 + (code c - 48)) 0 ds"

text \<open>
  \<open>-?(0|[1-9][0-9]*)\<close>, then \<open>(\.[0-9]+)?\<close> and \<open>([eE][-+]?[0-9]+)?\<close>; a number without the last two
  is an integer.
\<close>

definition take_int :: "string \<Rightarrow> (string \<times> string) option" where
  "take_int s =
     (case s of
        [] \<Rightarrow> None
      | c # r \<Rightarrow> if c = CHR ''0'' then Some ([c], r)
               else if is_digit c then Some (takeWhile is_digit s, dropWhile is_digit s)
               else None)"

definition take_frac :: "string \<Rightarrow> string \<times> string" where
  "take_frac s =
     (let ds = takeWhile is_digit (tl s)
      in if take 1 s = ''.'' \<and> ds \<noteq> [] then (ds, dropWhile is_digit (tl s)) else ([], s))"

definition take_exp :: "string \<Rightarrow> int option \<times> string" where
  "take_exp s =
     (if take 1 s = ''e'' \<or> take 1 s = ''E''
      then let r = tl s;
               neg = (take 1 r = ''-'');
               r' = (if neg \<or> take 1 r = ''+'' then tl r else r);
               ds = takeWhile is_digit r'
           in if ds = [] then (None, s)
              else (Some (if neg then - int (digits_nat ds) else int (digits_nat ds)),
                    dropWhile is_digit r')
      else (None, s))"

definition parse_number :: "string \<Rightarrow> (json \<times> string) option" where
  "parse_number s =
     (let neg = (take 1 s = ''-'');
          body = (if neg then tl s else s)
      in case take_int body of
           None \<Rightarrow> None
         | Some (ip, r) \<Rightarrow>
             (case take_frac r of (fp, r') \<Rightarrow>
              case take_exp r' of (ex, r'') \<Rightarrow>
                if fp = [] \<and> ex = None
                then Some (JInt (if neg then - int (digits_nat ip) else int (digits_nat ip)), r'')
                else Some (JFloat (float_of_decimal neg (digits_nat (ip @ fp))
                             ((case ex of Some e \<Rightarrow> e | None \<Rightarrow> 0) - int (length fp))), r'')))"

definition expecting_value :: "'a res" where
  "expecting_value = Inl (JSONDecodeError ''Expecting value'')"

definition parse_word :: "string \<Rightarrow> (json \<times> string) res" where
  "parse_word s =
     (if py_startswith s ''null'' then Inr (JNull, drop 4 s)
      else if py_startswith s ''true'' then Inr (JBool True, drop 4 s)
      else if py_startswith s ''false'' then Inr (JBool False, drop 5 s)
      else if py_startswith s ''NaN'' then Inr (JFloat NaN, drop 3 s)
      else if py_startswith s ''Infinity'' then Inr (JFloat PosInf, drop 8 s)
      else if py_startswith s ''-Infinity'' then Inr (JFloat NegInf, drop 9 s)
      else case parse_number s of None \<Rightarrow> expecting_value | Some r \<Rightarrow> Inr r)"

definition expecting_delim :: "char \<Rightarrow> 'a res" where
  "expecting_delim c =
     Inl (JSONDecodeError (''Expecting '' @ [char_of (39::nat), c, char_of (39::nat)] @ '' delimiter''))"

definition expecting_name :: "'a res" where
  "expecting_name = Inl (JSONDecodeError ''Expecting property name enclosed in double quotes'')"

text \<open>
  \<open>scan_once\<close> with the loops of the array and object parsers. \<open>pv\<close> parses a nested value; the
  loop count and the nesting depth are bounded by fuel that the length of the text always covers.
\<close>

type_synonym 'a parse = "('a \<times> string) res"

fun parse_elems :: "nat \<Rightarrow> (string \<Rightarrow> json parse) \<Rightarrow> json list \<Rightarrow> string \<Rightarrow> json parse" where
  "parse_elems 0 pv acc s = Inl RecursionError"
| "parse_elems (Suc f) pv acc s =
     res_bind (pv s) (\<lambda>(v, r).
       case skip_ws r of
         [] \<Rightarrow> expecting_delim (CHR '','')
       | d # r' \<Rightarrow>
           if d = CHR '']'' then Inr (JList (rev (v # acc)), r')
           else if d = CHR '','' then parse_elems f pv (v # acc) (skip_ws r')
           else expecting_delim (CHR '',''))"

definition parse_member :: "(string \<Rightarrow> json parse) \<Rightarrow> string \<Rightarrow> (string \<times> json) parse" where
  "parse_member pv s =
     (case s of
        [] \<Rightarrow> expecting_name
      | c # r0 \<Rightarrow>
          if code c \<noteq> 34 then expecting_name
          else res_bind (parse_str [] r0) (\<lambda>(k, r).
                 case skip_ws r of
                   [] \<Rightarrow> expecting_delim (CHR '':'')
                 | d # r1 \<Rightarrow>
                     if d = CHR '':'' then res_bind (pv (skip_ws r1)) (\<lambda>(v, r2). Inr ((k, v), r2))
                     else expecting_delim (CHR '':'')))"

fun parse_members :: "nat \<Rightarrow> (string \<Rightarrow> json parse) \<Rightarrow> payload \<Rightarrow> string \<Rightarrow> json parse" where
  "parse_members 0 pv acc s = Inl RecursionError"
| "parse_members (Suc f) pv acc s =
     res_bind (parse_member pv s) (\<lambda>((k, v), r).
       case skip_ws r of
         [] \<Rightarrow> expecting_delim (CHR '','')
       | d # r' \<Rightarrow>
           if d = CHR ''}'' then Inr (JObj (dset k v acc), r')
           else if d = CHR '','' then parse_members f pv (dset k v acc) (skip_ws r')
           else expecting_delim (CHR '',''))"

definition scan_once :: "(string \<Rightarrow> json parse) \<Rightarrow> string \<Rightarrow> json parse" where
  "scan_once pv s =
     (case s of
        [] \<Rightarrow> expecting_value
      | c # r \<Rightarrow>
          if code c = 34 then res_bind (parse_str [] r) (\<lambda>(t, r'). Inr (JStr t, r'))
          else if c = CHR ''{''
               then (let r' = skip_ws r
                     in if take 1 r' = ''}'' then Inr (JObj [], tl r')
                        else parse_members (Suc (length r')) pv [] r')
          else if c = CHR ''[''
               then (let r' = skip_ws r
                     in if take 1 r' = '']'' then Inr (JList [], tl r')
                        else parse_elems (Suc (length r')) pv [] r')
          else parse_word s)"

primrec parse_value :: "nat \<Rightarrow> string \<Rightarrow> json parse" where
  "parse_value 0 = (\<lambda>s. Inl RecursionError)"
| "parse_value (Suc f) = scan_once (parse_value f)"

definition json_loads :: "string \<Rightarrow> json res" where
  "json_loads s =
     res_bind (parse_value (Suc (length s)) (skip_ws s))
       (\<lambda>(v, r). if skip_ws r = [] then Inr v else Inl (JSONDecodeError ''Extra data''))"

section \<open>UTF-8\<close>

text \<open>
  Decoding with the code points above 255 marked: a lead byte from \<open>0xC4\<close> on starts one
  (its continuation bytes are not examined).
\<close>

fun utf8_decode :: "string \<Rightarrow> string res" where
  "utf8_decode [] = Inr []"
| "utf8_decode (c # r) =
     (if code c < 128 then res_bind (utf8_decode r) (\<lambda>t. Inr (c # t))
      else if code c = 194 \<or> code c = 195
           then case r of
                  d # r' \<Rightarrow>
                    if 128 \<le> code d \<and> code d < 192
                    then res_bind (utf8_decode r')
                           (\<lambda>t. Inr (char_of ((code c - 192) * 64 + (code d - 128)) # t))
                    else Inl UnicodeDecodeError
                | [] \<Rightarrow> Inl UnicodeDecodeError
      else if 196 \<le> code c \<and> code c < 245 then Inl TextOutsideModel
      else Inl UnicodeDecodeError)"

section \<open>Loading what was dumped\<close>

lemma hex_digit_bounds: "(n::nat) < 256 \<Longrightarrow> n div 16 < 16" "n mod 16 < (16::nat)"
  by auto

lemma parse_hex4_hex4: "n < 256 \<Longrightarrow> parse_hex4 (hex4 n @ s) = Some n"
proof -
  assume n: "n < 256"
  have "hex_val (CHR ''0'') = Some 0" by (simp add: hex_val_def digit_val_def)
  with n hex_digit_bounds [of n] show ?thesis
    by (simp add: parse_hex4_def hex4_def hex2_def hex_val_def digit_val_char)
qed

lemma parse_str_escape:
  "unescape e = Some ch \<Longrightarrow> e \<noteq> CHR ''u'' \<Longrightarrow> parse_str acc (bslash # e # s) = parse_str (ch # acc) s"
  by (subst parse_str.simps) simp

lemma parse_str_dump_char: "parse_str acc (dump_char c @ s) = parse_str (c # acc) s"
proof -
  consider "code c \<in> {34, 92}" | "code c \<in> {10, 13, 9, 12, 8}"
    | "32 \<le> code c" "code c < 127" "code c \<notin> {34, 92}"
    | "code c < 32 \<or> 127 \<le> code c" "code c \<notin> {10, 13, 9, 12, 8}"
    by linarith
  then show ?thesis
  proof cases
    case 1
    then have "dump_char c = [bslash, c]" "unescape c = Some c" "c \<noteq> CHR ''u''"
      by (auto simp: dump_char_def unescape_def)
    then show ?thesis by (simp add: parse_str_escape)
  next
    case 2
    then obtain e where "dump_char c = [bslash, e]" "unescape e = Some (char_of (code c))" "e \<noteq> CHR ''u''"
      by (auto simp: dump_char_def unescape_def simp del: char_of_char)
    then show ?thesis by (simp add: parse_str_escape)
  next
    case 3
    then show ?thesis by (subst parse_str.simps) (auto simp: dump_char_def)
  next
    case 4
    then have "dump_char c = [bslash, CHR ''u''] @ hex4 (code c)" by (auto simp: dump_char_def)
    moreover have "length (hex4 (code c)) = 4" by (simp add: hex4_def hex2_def)
    ultimately show ?thesis
      by (subst parse_str.simps) (simp add: parse_hex4_hex4)
  qed
qed

lemma parse_str_dump: "parse_str acc (concat (map dump_char t) @ dquote # r) = Inr (rev acc @ t, r)"
proof (induction t arbitrary: acc)
  case Nil
  show ?case by (subst parse_str.simps) simp
next
  case (Cons c t)
  then show ?case by (simp add: parse_str_dump_char)
qed

text \<open>A rest of text after which a number is complete.\<close>

definition delim_start :: "string \<Rightarrow> bool" where
  "delim_start r \<longleftrightarrow> r = [] \<or> hd r \<in> {CHR '','', CHR '']'', CHR ''}''}"

lemma is_digit_char: "d < 10 \<Longrightarrow> is_digit (digit_char d)"
  by (simp add: is_digit_def digit_char_def)

lemma delim_not_digit: "delim_start r \<Longrightarrow> takeWhile is_digit r = [] \<and> dropWhile is_digit r = r"
  by (cases r) (auto simp: delim_start_def is_digit_def)

lemma delim_no_tail: "delim_start r \<Longrightarrow> take_frac r = ([], r) \<and> take_exp r = (None, r)"
  by (cases r) (auto simp: delim_start_def take_frac_def take_exp_def)

lemma digits_nat_map: "\<forall>d \<in> set ds. d < 10 \<Longrightarrow>
    foldl (\<lambda>a c. a * 10 + (code c - 48)) acc (map digit_char ds) = digits_value 10 acc ds"
  by (induction ds arbitrary: acc) (auto simp: digits_value_def digit_char_def)

lemma nat_digits_hd: "2 \<le> b \<Longrightarrow> 0 < n \<Longrightarrow> hd (nat_digits b n) \<noteq> 0"
proof (induction b n rule: nat_digits.induct)
  case (1 b n)
  then show ?case
    by (subst nat_digits.simps) (auto simp: hd_append nat_digits_nonempty div_greater_zero_iff)
qed

lemma digits_nat_str: "digits_nat (str_nat_base 10 n) = n"
  using nat_digits_bound [of 10 _ n]
  by (simp add: digits_nat_def str_nat_base_def digits_nat_map digits_value_nat_digits)

lemma str_nat_all_digits: "c \<in> set (str_nat_base 10 n) \<Longrightarrow> is_digit c"
  using nat_digits_bound [of 10 _ n] by (auto simp: str_nat_base_def is_digit_char)

lemma digit_char_0: "digit_char 0 = CHR ''0''"
  by code_simp

lemma take_int_str:
  assumes "delim_start r"
  shows "take_int (str_nat_base 10 n @ r) = Some (str_nat_base 10 n, r)"
proof (cases "n = 0")
  case True
  then have "str_nat_base 10 n = ''0''"
    by (subst str_nat_base_def, subst nat_digits.simps) (simp add: digit_char_0)
  then show ?thesis by (simp add: take_int_def)
next
  case False
  obtain d ds where d: "nat_digits 10 n = d # ds" by (metis nat_digits_nonempty neq_Nil_conv)
  have "d \<noteq> 0" "d < 10" using nat_digits_hd [of 10 n] nat_digits_bound [of 10 d n] d False by auto
  then have c: "digit_char d \<noteq> CHR ''0''" "is_digit (digit_char d)"
    using is_digit_char [of d] by (auto simp: digit_char_def dest!: arg_cong [where f = code])
  have "takeWhile is_digit (str_nat_base 10 n @ r) = str_nat_base 10 n"
    "dropWhile is_digit (str_nat_base 10 n @ r) = r"
    using str_nat_all_digits delim_not_digit [OF assms] by (auto simp: takeWhile_append2 dropWhile_append2)
  with c d show ?thesis by (simp add: take_int_def str_nat_base_def)
qed

lemma str_nat_head: "\<exists>c t. str_nat_base 10 n = c # t \<and> is_digit c"
  by (metis list.exhaust list.set_intros(1) nat_digits_nonempty str_nat_all_digits str_nat_base_def
      map_is_Nil_conv)

lemma parse_number_str:
  assumes r: "delim_start r"
  shows "parse_number (str_int i @ r) = Some (JInt i, r)"
proof (cases "i < 0")
  case True
  then have "str_int i = CHR ''-'' # str_nat_base 10 (nat (- i))"
    by (simp add: str_int_def str_int_base_def)
  with True show ?thesis
    by (simp add: parse_number_def take_int_str [OF r] delim_no_tail [OF r] digits_nat_str)
next
  case False
  then have eq: "str_int i = str_nat_base 10 (nat i)" by (simp add: str_int_def str_int_base_def)
  obtain c t where c: "str_nat_base 10 (nat i) = c # t" "is_digit c" using str_nat_head by blast
  then have "take 1 (str_nat_base 10 (nat i) @ r) \<noteq> ''-''" by (auto simp: is_digit_def)
  with False show ?thesis
    by (simp add: eq parse_number_def take_int_str [OF r] delim_no_tail [OF r] digits_nat_str
        del: take_Suc_Cons)
qed

text \<open>
  The values that a dump determines: dictionaries have distinct keys, and there are no floats
  (the messages of the program contain none).
\<close>

fun json_plain :: "json \<Rightarrow> bool" where
  "json_plain (JFloat f) = False"
| "json_plain (JList xs) = list_all json_plain xs"
| "json_plain (JObj d) = (dwf d \<and> list_all (\<lambda>(k, v). json_plain v) d)"
| "json_plain _ = True"

fun json_depth :: "json \<Rightarrow> nat" where
  "json_depth (JList xs) = Suc (foldr max (map json_depth xs) 0)"
| "json_depth (JObj d) = Suc (foldr max (map (\<lambda>(k, v). json_depth v) d) 0)"
| "json_depth _ = 1"

lemma foldr_max_ge: "x \<in> set xs \<Longrightarrow> f x \<le> foldr max (map f xs) (0::nat)"
  by (induction xs) auto

lemma foldr_max_le: "(\<And>x. x \<in> set xs \<Longrightarrow> f x \<le> m) \<Longrightarrow> foldr max (map f xs) (0::nat) \<le> m"
  by (induction xs) auto

lemma length_join_mem: "x \<in> set xs \<Longrightarrow> length x \<le> length (join sep xs)"
  by (induction sep xs rule: join.induct) auto

lemma json_depth_le: "json_plain j \<Longrightarrow> json_depth j \<le> length (json_dumps j)"
proof (induction j)
  case (JInt i)
  then show ?case by (simp add: str_int_def str_int_base_def str_nat_base_def Suc_le_eq nat_digits_nonempty)
next
  case (JList xs)
  then have "x \<in> set xs \<Longrightarrow> json_depth x \<le> length (join '','' (map json_dumps xs))" for x
    by (metis (no_types, lifting) image_eqI json_plain.simps(2) le_trans length_join_mem list.pred_set list.set_map)
  then show ?case using foldr_max_le [of xs json_depth] by (simp add: le_SucI)
next
  case (JObj d)
  let ?m = "\<lambda>(k, v). dump_str k @ '':'' @ json_dumps v"
  have "json_depth v \<le> length (join '','' (map ?m d))" if "(k, v) \<in> set d" for k v
  proof -
    have "json_depth v \<le> length (json_dumps v)"
      using JObj.IH [OF that, of v] JObj.prems that by (auto simp: snds.simps list_all_iff)
    also have "\<dots> \<le> length (?m (k, v))" by simp
    also have "\<dots> \<le> length (join '','' (map ?m d))" using that by (intro length_join_mem) force
    finally show ?thesis .
  qed
  then have "foldr max (map (\<lambda>(k, v). json_depth v) d) 0 \<le> length (join '','' (map ?m d))"
    by (intro foldr_max_le) auto
  then show ?case by (simp add: le_SucI)
qed (auto simp: dump_str_def)

text \<open>How the text of a value may begin.\<close>

definition head_ok :: "string \<Rightarrow> bool" where
  "head_ok s \<longleftrightarrow> s \<noteq> [] \<and> \<not> is_json_ws (hd s) \<and> hd s \<noteq> CHR '']'' \<and> hd s \<noteq> CHR ''}''"

lemma head_ok_append: "head_ok s \<Longrightarrow> skip_ws (s @ t) = s @ t \<and> take 1 (s @ t) \<noteq> '']'' \<and> take 1 (s @ t) \<noteq> ''}''"
  by (cases s) (auto simp: head_ok_def)

lemma str_int_head: "\<exists>c t. str_int i = c # t \<and> (is_digit c \<or> c = CHR ''-'')"
  using str_nat_head [of "nat i"] by (auto simp: str_int_def str_int_base_def)

lemma head_ok_str_int: "head_ok (str_int i)"
proof -
  obtain c t where "str_int i = c # t" "is_digit c \<or> c = CHR ''-''" using str_int_head by blast
  then show ?thesis by (auto simp: head_ok_def is_json_ws_def is_digit_def)
qed

lemma head_ok_dump_str: "head_ok (dump_str t @ u)"
  by (auto simp: head_ok_def dump_str_def is_json_ws_def dest: arg_cong [where f = code])

lemma head_ok_dumps: "json_plain j \<Longrightarrow> head_ok (json_dumps j)"
  using head_ok_str_int head_ok_dump_str [of _ "[]"]
  by (cases j) (auto simp: head_ok_def is_json_ws_def)

lemma delim_startI: "c \<in> {CHR '','', CHR '']'', CHR ''}''} \<Longrightarrow> delim_start (c # r)"
  by (simp add: delim_start_def)

lemma skip_delim: "\<not> is_json_ws (CHR '','')" "\<not> is_json_ws (CHR '']'')" "\<not> is_json_ws (CHR ''}'')"
    "\<not> is_json_ws (CHR '':'')"
  by (auto simp: is_json_ws_def)

lemma head_ok_join: "xs \<noteq> [] \<Longrightarrow> (\<And>x. x \<in> set xs \<Longrightarrow> head_ok x) \<Longrightarrow> head_ok (join sep xs)"
  by (induction sep xs rule: join.induct) (auto simp: head_ok_def)

lemma parse_elems_dumps:
  assumes "xs \<noteq> []" "length xs \<le> n"
    and "\<And>x r. x \<in> set xs \<Longrightarrow> delim_start r \<Longrightarrow> pv (json_dumps x @ r) = Inr (x, r)"
    and "\<And>x. x \<in> set xs \<Longrightarrow> head_ok (json_dumps x)"
  shows "parse_elems n pv acc (join '','' (map json_dumps xs) @ CHR '']'' # r) = Inr (JList (rev acc @ xs), r)"
  using assms
proof (induction xs arbitrary: n acc)
  case (Cons x xs)
  then obtain m where n: "n = Suc m" "length xs \<le> m" by (cases n) auto
  show ?case
  proof (cases xs)
    case Nil
    with Cons.prems(3) [of x] n show ?thesis by (simp add: delim_startI skip_delim)
  next
    case (Cons y ys)
    let ?rest = "join '','' (map json_dumps xs) @ CHR '']'' # r"
    have "head_ok (join '','' (map json_dumps xs))"
      using Cons.prems(4) Cons by (intro head_ok_join) auto
    then have "skip_ws ?rest = ?rest" using head_ok_append by blast
    moreover have "parse_elems m pv (x # acc) ?rest = Inr (JList (rev (x # acc) @ xs), r)"
      using Cons n Cons.prems(3,4) by (intro Cons.IH) auto
    moreover have "pv (json_dumps x @ CHR '','' # ?rest) = Inr (x, CHR '','' # ?rest)"
      using Cons.prems(3) [of x] by (simp add: delim_startI)
    ultimately show ?thesis using n Cons by (simp add: skip_delim)
  qed
qed simp

lemma parse_member_dumps:
  assumes "pv (json_dumps v @ r) = Inr (v, r)" "head_ok (json_dumps v)"
  shows "parse_member pv (dump_str k @ '':'' @ json_dumps v @ r) = Inr ((k, v), r)"
proof -
  have "skip_ws (json_dumps v @ r) = json_dumps v @ r" using head_ok_append [OF assms(2)] by blast
  with assms(1) show ?thesis
    using parse_str_dump [of "[]" k]
    by (simp add: parse_member_def dump_str_def skip_delim)
qed

lemma dset_fresh: "k \<notin> fst ` set d \<Longrightarrow> dset k v d = d @ [(k, v)]"
  by (induction d) auto

lemma parse_members_dumps:
  assumes "d \<noteq> []" "length d \<le> n" "dwf (acc @ d)"
    and "\<And>k v r. (k, v) \<in> set d \<Longrightarrow> delim_start r \<Longrightarrow> pv (json_dumps v @ r) = Inr (v, r)"
    and "\<And>k v. (k, v) \<in> set d \<Longrightarrow> head_ok (json_dumps v)"
  shows "parse_members n pv acc
      (join '','' (map (\<lambda>(k, v). dump_str k @ '':'' @ json_dumps v) d) @ CHR ''}'' # r) = Inr (JObj (acc @ d), r)"
  using assms
proof (induction d arbitrary: n acc)
  case (Cons kv d)
  obtain k v where kv: "kv = (k, v)" by (cases kv)
  from Cons.prems obtain m where n: "n = Suc m" "length d \<le> m" by (cases n) auto
  have fresh: "dset k v acc = acc @ [(k, v)]" using Cons.prems(3) kv by (intro dset_fresh) auto
  have mem: "delim_start r' \<Longrightarrow> parse_member pv (dump_str k @ '':'' @ json_dumps v @ r') = Inr ((k, v), r')" for r'
    using Cons.prems(4) [of k v] Cons.prems(5) [of k v] kv by (intro parse_member_dumps) auto
  let ?m = "\<lambda>(k, v). dump_str k @ '':'' @ json_dumps v"
  show ?case
  proof (cases d)
    case Nil
    with mem [of "CHR ''}'' # r"] n kv fresh show ?thesis by (simp add: delim_startI skip_delim)
  next
    case (Cons y ys)
    let ?rest = "join '','' (map ?m d) @ CHR ''}'' # r"
    have "head_ok (join '','' (map ?m d))"
      using Cons head_ok_dump_str by (intro head_ok_join) (auto split: prod.splits)
    then have "skip_ws ?rest = ?rest" using head_ok_append by blast
    moreover have "parse_members m pv (acc @ [kv]) ?rest = Inr (JObj ((acc @ [kv]) @ d), r)"
    proof (rule Cons.IH)
      show "pv (json_dumps v @ r) = Inr (v, r)" if "(k, v) \<in> set d" "delim_start r" for k v r
        using Cons.prems(4) [of k v] that by simp
      show "head_ok (json_dumps v)" if "(k, v) \<in> set d" for k v
        using Cons.prems(5) [of k v] that by simp
    qed (use Cons n Cons.prems(3) in auto)
    ultimately show ?thesis using mem [of "CHR '','' # ?rest"] n Cons kv fresh
      by (simp add: delim_startI skip_delim)
  qed
qed simp

lemma length_join_ge: "\<forall>x \<in> set xs. x \<noteq> [] \<Longrightarrow> length xs \<le> length (join sep xs)"
proof (induction sep xs rule: join.induct)
  case (3 sep x y ys)
  then have "1 \<le> length x" "length (y # ys) \<le> length (join sep (y # ys))" by (auto simp: Suc_le_eq)
  then show ?case by simp
qed (auto simp: Suc_le_eq)

lemma scan_once_word:
  "head_ok s \<Longrightarrow> code (hd s) \<noteq> 34 \<Longrightarrow> hd s \<noteq> CHR ''{'' \<Longrightarrow> hd s \<noteq> CHR ''['' \<Longrightarrow>
   scan_once pv (s @ r) = parse_word (s @ r)"
  by (cases s) (auto simp: scan_once_def head_ok_def)

lemma parse_word_number:
  assumes "s = c # t" "is_digit c \<or> c = CHR ''-''" "take 1 t \<noteq> ''I''"
  shows "parse_word s = (case parse_number s of None \<Rightarrow> expecting_value | Some r \<Rightarrow> Inr r)"
proof -
  have "c \<notin> {CHR ''n'', CHR ''t'', CHR ''f'', CHR ''N'', CHR ''I''}" using assms(2) by (auto simp: is_digit_def)
  with assms show ?thesis by (cases t) (simp_all add: parse_word_def)
qed

lemma parse_word_int:
  assumes r: "delim_start r"
  shows "parse_word (str_int i @ r) = Inr (JInt i, r)"
proof -
  obtain c t where c: "str_int i = c # t" "is_digit c \<or> c = CHR ''-''" using str_int_head by blast
  have "t = [] \<or> is_digit (hd t)"
    using c(1) str_nat_all_digits
    by (cases t) (auto simp: str_int_def str_int_base_def split: if_splits, (metis list.set_intros)+)
  then have "take 1 (t @ r) \<noteq> ''I''"
    using r by (cases t; cases r) (auto simp: delim_start_def is_digit_def)
  with c have "parse_word (str_int i @ r) =
      (case parse_number (str_int i @ r) of None \<Rightarrow> expecting_value | Some r \<Rightarrow> Inr r)"
    by (intro parse_word_number) auto
  with parse_number_str [OF r, of i] show ?thesis by simp
qed

lemma scan_once_list:
  assumes pv: "\<And>x r. x \<in> set xs \<Longrightarrow> delim_start r \<Longrightarrow> pv (json_dumps x @ r) = Inr (x, r)"
    and ok: "\<And>x. x \<in> set xs \<Longrightarrow> head_ok (json_dumps x)"
  shows "scan_once pv (json_dumps (JList xs) @ r) = Inr (JList xs, r)"
proof (cases "xs = []")
  case False
  let ?s = "join '','' (map json_dumps xs) @ CHR '']'' # r"
  have "head_ok (join '','' (map json_dumps xs))" using False ok by (intro head_ok_join) auto
  then have "skip_ws ?s = ?s" "take 1 ?s \<noteq> '']''" using head_ok_append by blast+
  moreover have "length xs \<le> length (join '','' (map json_dumps xs))"
    using ok length_join_ge [of "map json_dumps xs" "'',''"] by (auto simp: head_ok_def)
  then have "parse_elems (Suc (length ?s)) pv [] ?s = Inr (JList (rev [] @ xs), r)"
    using False ok pv by (intro parse_elems_dumps) auto
  ultimately show ?thesis by (simp add: scan_once_def Let_def)
qed (simp add: scan_once_def skip_delim)

lemma scan_once_object:
  assumes pv: "\<And>k v r. (k, v) \<in> set d \<Longrightarrow> delim_start r \<Longrightarrow> pv (json_dumps v @ r) = Inr (v, r)"
    and ok: "\<And>k v. (k, v) \<in> set d \<Longrightarrow> head_ok (json_dumps v)" and wf: "dwf d"
  shows "scan_once pv (json_dumps (JObj d) @ r) = Inr (JObj d, r)"
proof (cases "d = []")
  case False
  let ?m = "\<lambda>(k, v). dump_str k @ '':'' @ json_dumps v"
  let ?s = "join '','' (map ?m d) @ CHR ''}'' # r"
  have "head_ok (join '','' (map ?m d))" using False head_ok_dump_str by (intro head_ok_join) auto
  then have "skip_ws ?s = ?s" "take 1 ?s \<noteq> ''}''" using head_ok_append by blast+
  moreover have "\<forall>x \<in> set (map ?m d). x \<noteq> []" by (auto simp: dump_str_def)
  then have "length d \<le> length (join '','' (map ?m d))"
    using length_join_ge [of "map ?m d" "'',''"] by simp
  then have "parse_members (Suc (length ?s)) pv [] ?s = Inr (JObj ([] @ d), r)"
    using False ok pv wf by (intro parse_members_dumps) auto
  ultimately show ?thesis by (simp add: scan_once_def Let_def)
qed (simp add: scan_once_def skip_delim)

lemma parse_value_dumps:
  "json_plain j \<Longrightarrow> json_depth j \<le> f \<Longrightarrow> delim_start r \<Longrightarrow> parse_value f (json_dumps j @ r) = Inr (j, r)"
proof (induction j arbitrary: f r)
  case (JInt i)
  then obtain g where f: "f = Suc g" by (cases f) auto
  obtain c t where c: "str_int i = c # t" "is_digit c \<or> c = CHR ''-''" using str_int_head by blast
  then have "scan_once (parse_value g) (str_int i @ r) = parse_word (str_int i @ r)"
    using head_ok_str_int [of i] by (intro scan_once_word) (auto simp: is_digit_def)
  with f JInt show ?case by (simp add: parse_word_int)
next
  case (JStr t)
  then obtain g where "f = Suc g" by (cases f) auto
  with parse_str_dump [of "[]" t r] show ?case by (simp add: scan_once_def dump_str_def)
next
  case (JList xs)
  then obtain g where f: "f = Suc g" "\<And>x. x \<in> set xs \<Longrightarrow> json_depth x \<le> g"
    by (cases f) (auto intro: order_trans [OF foldr_max_ge])
  have "scan_once (parse_value g) (json_dumps (JList xs) @ r) = Inr (JList xs, r)"
    using JList f head_ok_dumps by (intro scan_once_list) (auto simp: list_all_iff)
  with f show ?case by simp
next
  case (JObj d)
  then obtain g where f: "f = Suc g" "\<And>k v. (k, v) \<in> set d \<Longrightarrow> json_depth v \<le> g"
    by (cases f) (auto intro!: order_trans [OF foldr_max_ge [of "(_, _)" d "\<lambda>(k, v). json_depth v", simplified]])
  have ok: "(k, v) \<in> set d \<Longrightarrow> json_plain v \<and> head_ok (json_dumps v)" for k v
    using JObj.prems(1) head_ok_dumps by (auto simp: list_all_iff)
  have "scan_once (parse_value g) (json_dumps (JObj d) @ r) = Inr (JObj d, r)"
    using ok f JObj by (intro scan_once_object) (auto simp: snds.simps)
  with f show ?case by simp
next
  case JNull
  then obtain g where "f = Suc g" by (cases f) auto
  then show ?case by (simp add: scan_once_def parse_word_def)
next
  case (JBool b)
  then obtain g where "f = Suc g" by (cases f) auto
  then show ?case by (cases b) (simp_all add: scan_once_def parse_word_def)
qed simp

text \<open>Loading a dumped value gives the value back.\<close>

lemma json_loads_dumps:
  assumes "json_plain j"
  shows "json_loads (json_dumps j) = Inr j"
proof -
  have "skip_ws (json_dumps j) = json_dumps j"
    using head_ok_append [OF head_ok_dumps [OF assms], of "[]"] by simp
  moreover have "parse_value (Suc (length (json_dumps j))) (json_dumps j) = Inr (j, [])"
    using parse_value_dumps [OF assms, of "Suc (length (json_dumps j))" "[]"] json_depth_le [OF assms]
    by (simp add: delim_start_def del: parse_value.simps)
  ultimately show ?thesis by (simp add: json_loads_def del: parse_value.simps)
qed

section \<open>The fuel is always enough\<close>

text \<open>
  A parser result on a text of length \<open>n\<close>: it consumes something, and under the condition \<open>q\<close>
  it did not run out of fuel, so that an error is one of the text.
\<close>

definition text_error :: "py_error \<Rightarrow> bool" where
  "text_error e \<longleftrightarrow> e = TextOutsideModel \<or> (\<exists>t. e = JSONDecodeError t)"

definition good :: "bool \<Rightarrow> 'a parse \<Rightarrow> nat \<Rightarrow> bool" where
  "good q m n \<longleftrightarrow>
     (\<forall>e. m = Inl e \<longrightarrow> text_error e \<or> \<not> q \<and> e = RecursionError) \<and>
     (\<forall>v r. m = Inr (v, r) \<longrightarrow> length r < n)"

lemma good_bind:
  assumes "good q m n" "\<And>a r. m = Inr (a, r) \<Longrightarrow> length r < n \<Longrightarrow> good q (g (a, r)) n"
  shows "good q (res_bind m g) n"
  using assms by (cases m) (auto simp: good_def)

lemma good_Inl: "good q (Inl (JSONDecodeError t)) n" "good q (Inl TextOutsideModel) n"
  by (simp_all add: good_def text_error_def)

lemma good_Inr: "length r < n \<Longrightarrow> good q (Inr (v, r)) n"
  by (simp add: good_def)

lemma good_mono: "good q m k \<Longrightarrow> (p \<Longrightarrow> q) \<Longrightarrow> k \<le> n \<Longrightarrow> good p m n"
  by (auto simp: good_def)

lemma good_errors: "good q (expecting_delim c) n" "good q expecting_name n" "good q expecting_value n"
  by (simp_all add: expecting_delim_def expecting_name_def expecting_value_def good_Inl)

lemmas good_rules = good_bind good_Inl good_Inr good_errors

lemma skip_ws_length: "skip_ws s = c # t \<Longrightarrow> length t < length s"
  using length_dropWhile_le [of is_json_ws s] by simp

lemma parse_str_good: "good q (parse_str acc s) (length s)"
proof (induction acc s rule: parse_str.induct)
  case (1 acc s)
  show ?case
  proof (cases s)
    case (Cons c u)
    note eq = parse_str.simps [of acc "c # u"]
    consider "code c = 34" | "code c < 32" | "code c \<noteq> 34" "\<not> code c < 32" "code c \<noteq> 92"
      | "code c = 92" by blast
    then show ?thesis
    proof cases
      case 3
      with "1.IH"(1) [OF Cons] Cons show ?thesis by (auto simp: eq intro: good_mono)
    next
      case 4
      show ?thesis
      proof (cases u)
        case u: (Cons e w)
        show ?thesis
          using "1.IH"(2,3) [OF Cons _ _ _ u] 4 Cons u
          by (auto simp: parse_str.simps [of acc "c # e # w"] good_Inl split: option.splits intro: good_mono)
      qed (simp add: Cons 4 parse_str.simps [of acc "[c]"] good_Inl)
    qed (simp_all add: Cons eq good_rules)
  qed (simp add: parse_str.simps good_Inl)
qed

lemma parse_word_good: "good q (parse_word s) (length s)"
proof -
  have ti: "length r < length s" if "take_int s = Some (ip, r)" for s ip r
    using that length_dropWhile_le [of is_digit "tl s"]
    by (cases s) (auto simp: take_int_def split: if_splits)
  have tf: "length r \<le> length s" if "take_frac s = (ip, r)" for s ip r
    using that length_dropWhile_le [of is_digit "tl s"]
    by (cases s) (auto simp: take_frac_def Let_def split: if_splits)
  have te: "length r \<le> length s" if "take_exp s = (ip, r)" for s ip r
    using that length_dropWhile_le [of is_digit "tl s"] length_dropWhile_le [of is_digit "tl (tl s)"]
    by (cases s) (auto simp: take_exp_def Let_def split: if_splits)
  have "length r < length s" if "parse_number s = Some (v, r)" for v r
  proof -
    let ?b = "if take 1 s = ''-'' then tl s else s"
    from that obtain ip r1 fp r2 ex where *: "take_int ?b = Some (ip, r1)" "take_frac r1 = (fp, r2)"
      "take_exp r2 = (ex, r)"
      by (auto simp: parse_number_def Let_def split: option.splits prod.splits if_splits)
    have "length ?b \<le> length s" by simp
    with ti [OF *(1)] tf [OF *(2)] te [OF *(3)] show ?thesis by linarith
  qed
  then show ?thesis
    by (auto simp: parse_word_def good_rules py_startswith_iff split: option.splits)
qed

lemma parse_elems_good:
  assumes pv: "\<And>s. good (length s < b) (pv s) (length s)"
  shows "good (length s < n \<and> length s < b) (parse_elems n pv acc s) (length s)"
proof (induction n arbitrary: acc s)
  case (Suc n)
  have "good (length s < Suc n \<and> length s < b) (parse_elems n pv acc' (skip_ws t)) (length s)"
    if "length r < length s" "skip_ws r = d # t" for r d t acc'
    using that skip_ws_length [OF that(2)] length_dropWhile_le [of is_json_ws t]
    by (intro good_mono [OF Suc.IH]) auto
  then show ?case
    unfolding parse_elems.simps
    by (intro good_bind good_mono [OF pv])
       (auto simp: good_rules dest: skip_ws_length split: list.splits)
qed (simp add: good_def)

lemma parse_member_good:
  assumes pv: "\<And>s. good (length s < b) (pv s) (length s)"
  shows "good (length s < b) (parse_member pv s) (length s)"
proof (cases s)
  case (Cons c u)
  have "good (length s < b) (pv (skip_ws t)) (length s)" if "length r < length s" "skip_ws r = d # t" for r d t
    using that skip_ws_length [OF that(2)] length_dropWhile_le [of is_json_ws t]
    by (intro good_mono [OF pv]) auto
  then show ?thesis
    unfolding parse_member_def Cons
    by (auto intro!: good_bind good_mono [OF parse_str_good] good_Inr simp: good_errors split: list.splits)
qed (simp add: parse_member_def good_errors)

lemma parse_members_good:
  assumes pv: "\<And>s. good (length s < b) (pv s) (length s)"
  shows "good (length s < n \<and> length s < b) (parse_members n pv acc s) (length s)"
proof (induction n arbitrary: acc s)
  case (Suc n)
  have "good (length s < Suc n \<and> length s < b) (parse_members n pv acc' (skip_ws t)) (length s)"
    if "length r < length s" "skip_ws r = d # t" for r d t acc'
    using that skip_ws_length [OF that(2)] length_dropWhile_le [of is_json_ws t]
    by (intro good_mono [OF Suc.IH]) auto
  then show ?case
    unfolding parse_members.simps
    by (intro good_bind good_mono [OF parse_member_good [OF pv]])
       (auto simp: good_errors intro!: good_Inr split: list.splits, meson less_trans skip_ws_length)
qed (simp add: good_def)

lemma scan_once_good:
  assumes pv: "\<And>s. good (length s < b) (pv s) (length s)"
  shows "good (length s < Suc b) (scan_once pv s) (length s)"
proof (cases s)
  case (Cons c u)
  have w: "length (skip_ws u) < length s" using Cons length_dropWhile_le [of is_json_ws u] by simp
  have "good (length s < Suc b) (parse_members (Suc (length (skip_ws u))) pv [] (skip_ws u)) (length s)"
    and "good (length s < Suc b) (parse_elems (Suc (length (skip_ws u))) pv [] (skip_ws u)) (length s)"
    using w by (auto intro!: good_mono [OF parse_members_good [OF pv]] good_mono [OF parse_elems_good [OF pv]]
        simp del: parse_members.simps parse_elems.simps)
  moreover have "good (length s < Suc b) (parse_str [] u) (length s)"
    using Cons by (intro good_mono [OF parse_str_good]) auto
  ultimately show ?thesis
    using w Cons parse_word_good [of "length s < Suc b" s]
    by (auto simp: scan_once_def Let_def intro!: good_bind good_Inr
        simp del: parse_members.simps parse_elems.simps)
qed (simp add: scan_once_def good_errors)

lemma parse_value_good: "good (length s < f) (parse_value f s) (length s)"
  by (induction f arbitrary: s) (auto simp: good_def [of _ "Inl _"] intro: scan_once_good)

text \<open>
  Loading ends with a value or an error of the text: the fuel of the parser never runs out.
\<close>

lemma json_loads_total:
  assumes "json_loads s = Inl e"
  shows "text_error e"
proof -
  have "good (length (skip_ws s) < Suc (length s)) (parse_value (Suc (length s)) (skip_ws s)) (length (skip_ws s))"
    by (rule parse_value_good)
  then have g: "parse_value (Suc (length s)) (skip_ws s) = Inl e \<Longrightarrow> text_error e" for e
    using length_dropWhile_le [of is_json_ws s]
    by (auto simp: good_def le_imp_less_Suc simp del: parse_value.simps)
  show ?thesis
    using assms g
    by (cases "parse_value (Suc (length s)) (skip_ws s)")
       (auto simp: json_loads_def text_error_def simp del: parse_value.simps split: if_splits)
qed

end
