(* ===== verification/Protocol.thy ===== *)
theory Protocol
  imports Json_Text
begin

text \<open>
  \<^verbatim>\<open>broker/protocol.py\<close>: JSONL encoding and decoding, validation of the message envelope and
  the broker's own messages.
\<close>

section \<open>Constants\<close>

definition PROTOCOL_VERSION :: int where "PROTOCOL_VERSION = 1"
definition ROLE_IDA :: string where "ROLE_IDA = ''ida''"
definition ROLE_WINDBG :: string where "ROLE_WINDBG = ''windbg''"
definition ROLE_BROKER :: string where "ROLE_BROKER = ''broker''"
definition TYPE_HELLO :: string where "TYPE_HELLO = ''hello''"
definition TYPE_HELLO_ACK :: string where "TYPE_HELLO_ACK = ''hello_ack''"
definition TYPE_PC_UPDATE :: string where "TYPE_PC_UPDATE = ''pc_update''"
definition TYPE_IDA_PC_MAPPED :: string where "TYPE_IDA_PC_MAPPED = ''ida_pc_mapped''"
definition TYPE_REG_REQUEST :: string where "TYPE_REG_REQUEST = ''reg_request''"
definition TYPE_REG_RESPONSE :: string where "TYPE_REG_RESPONSE = ''reg_response''"
definition TYPE_MEM_REQUEST :: string where "TYPE_MEM_REQUEST = ''mem_request''"
definition TYPE_MEM_RESPONSE :: string where "TYPE_MEM_RESPONSE = ''mem_response''"
definition TYPE_ERROR :: string where "TYPE_ERROR = ''error''"

lemmas role_defs = ROLE_IDA_def ROLE_WINDBG_def ROLE_BROKER_def
lemmas type_defs = TYPE_HELLO_def TYPE_HELLO_ACK_def TYPE_PC_UPDATE_def TYPE_IDA_PC_MAPPED_def
  TYPE_REG_REQUEST_def TYPE_REG_RESPONSE_def TYPE_MEM_REQUEST_def TYPE_MEM_RESPONSE_def TYPE_ERROR_def

definition SUPPORTED_ROLES :: "string list" where
  "SUPPORTED_ROLES = [ROLE_IDA, ROLE_WINDBG, ROLE_BROKER]"

definition SUPPORTED_MESSAGE_TYPES :: "string list" where
  "SUPPORTED_MESSAGE_TYPES =
     [TYPE_HELLO, TYPE_HELLO_ACK, TYPE_PC_UPDATE, TYPE_IDA_PC_MAPPED, TYPE_REG_REQUEST,
      TYPE_REG_RESPONSE, TYPE_MEM_REQUEST, TYPE_MEM_RESPONSE, TYPE_ERROR]"

type_synonym message = payload

abbreviation newline :: char where
  "newline \<equiv> char_of (10::nat)"

section \<open>Encoding and decoding\<close>

text \<open>The dumped text is ASCII, so its UTF-8 encoding is the text itself.\<close>

definition encode_jsonl :: "message \<Rightarrow> string" where
  "encode_jsonl message = json_dumps (JObj message) @ [newline]"

definition decode_jsonl_line :: "string \<Rightarrow> message res" where
  "decode_jsonl_line line =
     res_bind (utf8_decode line) (\<lambda>decoded.
       let text = py_strip decoded
       in if text = [] then Inl (ProtocolError ''empty JSONL line'')
          else case json_loads text of
                 Inl (JSONDecodeError msg) \<Rightarrow> Inl (ProtocolError (''invalid JSON: '' @ msg))
               | Inl e \<Rightarrow> Inl e
               | Inr v \<Rightarrow>
                   (case v of
                      JObj d \<Rightarrow> Inr d
                    | _ \<Rightarrow> Inl (ProtocolError ''message must be a JSON object'')))"

section \<open>The envelope\<close>

definition check_protocol_version :: "message \<Rightarrow> bool" where
  "check_protocol_version message = json_eq_int (jget message ''protocol'') PROTOCOL_VERSION"

text \<open>\<open>value in {..}\<close> for a set of strings: an unhashable value raises.\<close>

definition json_in_set :: "json \<Rightarrow> string list \<Rightarrow> bool res" where
  "json_in_set j names =
     (case j of
        JList xs \<Rightarrow> Inl (TypeError ''unhashable type: list'')
      | JObj d \<Rightarrow> Inl (TypeError ''unhashable type: dict'')
      | JStr s \<Rightarrow> Inr (s \<in> set names)
      | _ \<Rightarrow> Inr False)"

definition validate_message_shape :: "message \<Rightarrow> unit res" where
  "validate_message_shape message =
     (if \<not> check_protocol_version message
      then Inl (ProtocolError (''unsupported protocol version: '' @ py_repr (jget message ''protocol'')))
      else if json_int (jget message ''id'') = None
      then Inl (ProtocolError ''message id must be an integer'')
      else
        res_bind (json_in_set (jget message ''type'') SUPPORTED_MESSAGE_TYPES) (\<lambda>known_type.
          if \<not> known_type
          then Inl (ProtocolError (''unsupported message type: '' @ py_repr (jget message ''type'')))
          else res_bind (json_in_set (jget message ''role'') SUPPORTED_ROLES) (\<lambda>known_role.
            if \<not> known_role
            then Inl (ProtocolError (''unsupported role: '' @ py_repr (jget message ''role'')))
            else if json_obj (jget message ''payload'') = None
            then Inl (ProtocolError ''payload must be an object'')
            else Inr ())))"

definition make_envelope :: "string \<Rightarrow> string \<Rightarrow> payload \<Rightarrow> json \<Rightarrow> message" where
  "make_envelope message_type role payload message_id =
     [(''protocol'', JInt PROTOCOL_VERSION), (''id'', message_id), (''type'', JStr message_type),
      (''role'', JStr role), (''payload'', JObj payload)]"

definition create_hello_ack :: "json \<Rightarrow> message" where
  "create_hello_ack message_id =
     make_envelope TYPE_HELLO_ACK ROLE_BROKER
       [(''ok'', JBool True), (''broker_version'', JStr ''0.1'')] message_id"

definition create_error ::
    "string \<Rightarrow> string \<Rightarrow> json \<Rightarrow> int option \<Rightarrow> string option \<Rightarrow> payload option \<Rightarrow> message" where
  "create_error err_code message message_id pc_seq request_id details =
     make_envelope TYPE_ERROR ROLE_BROKER
       ([(''ok'', JBool False), (''code'', JStr err_code), (''message'', JStr message)] @
        (case pc_seq of None \<Rightarrow> [] | Some n \<Rightarrow> [(''pc_seq'', JInt n)]) @
        (case request_id of None \<Rightarrow> [] | Some r \<Rightarrow> [(''request_id'', JStr r)]) @
        (case details of None \<Rightarrow> [] | Some d \<Rightarrow> [(''details'', JObj d)])) message_id"

section \<open>Properties of the envelope\<close>

lemma json_in_set_True: "json_in_set j names = Inr True \<longleftrightarrow> (\<exists>s. j = JStr s \<and> s \<in> set names)"
  by (cases j) (auto simp: json_in_set_def)

definition valid_envelope :: "message \<Rightarrow> bool" where
  "valid_envelope m \<longleftrightarrow>
     json_eq_int (jget m ''protocol'') 1 \<and> json_int (jget m ''id'') \<noteq> None \<and>
     (\<exists>t. jget m ''type'' = JStr t \<and> t \<in> set SUPPORTED_MESSAGE_TYPES) \<and>
     (\<exists>r. jget m ''role'' = JStr r \<and> r \<in> set SUPPORTED_ROLES) \<and>
     (\<exists>p. jget m ''payload'' = JObj p)"

lemma json_obj_None: "json_obj j = None \<longleftrightarrow> (\<nexists>d. j = JObj d)"
  by (cases j) auto

lemma validate_shape_iff: "validate_message_shape m = Inr () \<longleftrightarrow> valid_envelope m"
proof -
  have "(\<exists>b. r = Inr b \<and> f b = Inr ()) \<longleftrightarrow> r = Inr True \<and> f True = Inr ()"
    if "f False \<noteq> Inr ()" for r :: "bool res" and f :: "bool \<Rightarrow> unit res"
    using that by (metis (full_types))
  then show ?thesis
    by (auto simp: validate_message_shape_def valid_envelope_def check_protocol_version_def
        PROTOCOL_VERSION_def res_bind_Inr_iff json_obj_None json_in_set_True)
qed


lemma make_envelope_valid:
  "message_type \<in> set SUPPORTED_MESSAGE_TYPES \<Longrightarrow> role \<in> set SUPPORTED_ROLES \<Longrightarrow> json_int i \<noteq> None \<Longrightarrow>
   valid_envelope (make_envelope message_type role p i)"
  by (simp add: valid_envelope_def make_envelope_def jget_def PROTOCOL_VERSION_def)

text \<open>
  A message whose type is a JSON array or object is not reported as a malformed message: the
  membership test itself raises \<^verbatim>\<open>TypeError\<close>.
\<close>

lemma unhashable_type_escapes:
  "json_eq_int (jget m ''protocol'') 1 \<Longrightarrow> json_int (jget m ''id'') \<noteq> None \<Longrightarrow>
   \<not> json_hashable (jget m ''type'') \<Longrightarrow>
   \<exists>text. validate_message_shape m = Inl (TypeError text)"
  by (cases "jget m ''type''")
     (auto simp: validate_message_shape_def check_protocol_version_def PROTOCOL_VERSION_def json_in_set_def)

section \<open>Framing\<close>

definition printable_ascii :: "char \<Rightarrow> bool" where
  "printable_ascii c \<longleftrightarrow> 32 \<le> code c \<and> code c < 127"

lemma ascii_digit: "d < 16 \<Longrightarrow> printable_ascii (digit_char d)"
  by (auto simp: printable_ascii_def digit_char_def)

lemma ascii_punctuation [simp]:
  "printable_ascii (CHR ''['')" "printable_ascii (CHR '']'')" "printable_ascii (CHR ''{'')"
  "printable_ascii (CHR ''}'')" "printable_ascii (CHR '','')" "printable_ascii (CHR '':'')"
  by (simp_all add: printable_ascii_def)

lemma code_less: "code c < (256::nat)"
  by (metis mod_less_divisor of_char_mod_256 zero_less_numeral)

lemma dump_char_ascii: "list_all printable_ascii (dump_char c)"
proof -
  have "(code c :: nat) div 16 < 16" using hex_digit_bounds(1) [OF code_less] .
  then have "list_all printable_ascii (hex4 (code c))"
    using ascii_digit [of "code c div 16"] ascii_digit [of "code c mod 16"] digit_char_0 ascii_digit [of 0]
    by (simp add: hex4_def hex2_def)
  then show ?thesis by (auto simp: dump_char_def printable_ascii_def)
qed

lemma dump_str_ascii: "list_all printable_ascii (dump_str t)"
  using dump_char_ascii by (auto simp: dump_str_def list_all_iff printable_ascii_def)

lemma join_ascii: "list_all printable_ascii sep \<Longrightarrow> (\<And>x. x \<in> set xs \<Longrightarrow> list_all printable_ascii x) \<Longrightarrow>
    list_all printable_ascii (join sep xs)"
  by (induction sep xs rule: join.induct) auto

lemma str_int_ascii: "list_all printable_ascii (str_int i)"
  using nat_digits_bound [of 10 _ "nat i"] nat_digits_bound [of 10 _ "nat (- i)"]
  by (fastforce simp: str_int_def str_int_base_def str_nat_base_def list_all_iff printable_ascii_def digit_char_def)

lemma json_dumps_ascii: "json_plain j \<Longrightarrow> list_all printable_ascii (json_dumps j)"
proof (induction j)
  case (JList xs)
  then have "list_all printable_ascii (join '','' (map json_dumps xs))"
    by (intro join_ascii) (auto simp: list_all_iff)
  then show ?case by simp
next
  case (JObj d)
  have "list_all printable_ascii (json_dumps v)" if "(k, v) \<in> set d" for k v
    using JObj.IH [OF that, of v] JObj.prems that by (auto simp: snds.simps list_all_iff)
  then have "list_all printable_ascii (join '','' (map (\<lambda>(k, v). dump_str k @ '':'' @ json_dumps v) d))"
    using dump_str_ascii by (intro join_ascii) auto
  then show ?case by simp
qed (auto simp: str_int_ascii dump_str_ascii, auto simp: printable_ascii_def)

lemma utf8_decode_ascii: "list_all printable_ascii s \<Longrightarrow> utf8_decode s = Inr s"
  by (induction s) (auto simp: printable_ascii_def)

lemma dumped_line:
  assumes "json_plain (JObj message)"
  shows "newline \<notin> set (json_dumps (JObj message))"
    and "decode_jsonl_line (json_dumps (JObj message)) = Inr message"
    and "\<not> list_all is_ascii_space (json_dumps (JObj message))"
proof -
  let ?line = "json_dumps (JObj message)"
  have asc: "list_all printable_ascii ?line" using json_dumps_ascii [OF assms] .
  have "\<not> printable_ascii newline" by (simp add: printable_ascii_def)
  with asc show "newline \<notin> set ?line" unfolding list_all_iff by blast
  have "py_strip ?line = ?line" by (simp add: py_strip_def py_isspace_def)
  then show "decode_jsonl_line ?line = Inr message"
    using utf8_decode_ascii [OF asc] json_loads_dumps [OF assms] by (simp add: decode_jsonl_line_def)
  show "\<not> list_all is_ascii_space ?line" by (simp add: is_ascii_space_def)
qed

text \<open>
  C31. JSONL round trip: a message is encoded as one line, whose only newline is the last
  character, and decoding that line gives the message back.
\<close>

theorem jsonl_roundtrip:
  assumes "json_plain (JObj message)"
  shows "\<exists>line. encode_jsonl message = line @ [newline] \<and> newline \<notin> set line \<and>
    decode_jsonl_line line = Inr message"
  using dumped_line [OF assms] by (auto simp: encode_jsonl_def simp del: json_dumps.simps)

lemma jsonl_roundtrip_witness:
  "\<exists>line. encode_jsonl (create_hello_ack (JInt 1)) = line @ [newline] \<and> newline \<notin> set line \<and>
    decode_jsonl_line line = Inr (create_hello_ack (JInt 1))"
  by (rule jsonl_roundtrip) (simp add: create_hello_ack_def make_envelope_def)

end
