(* ===== verification/Sessions.thy ===== *)
theory Sessions
  imports Protocol
begin

text \<open>
  \<^verbatim>\<open>broker/sessions.py\<close>: the sessions and the registry with one active client per role. A
  session is an object with identity: it is its index in the list of all sessions created.
  Sockets are numbers; closing one (which never raises) adds it to the closed sockets. The
  clock and the peers that no longer accept data belong to the environment.
\<close>

record ClientSession =
  cs_role :: string
  cs_sock :: nat
  cs_address :: "string \<times> int"
  cs_connected_at :: int
  cs_last_seen_at :: int
  cs_client_name :: string
  cs_version :: string
  cs_protocol :: int

record broker =
  bk_sessions :: "ClientSession list"
  bk_clients :: "(string, nat) dict"
  bk_closed :: "nat list"
  bk_broken :: "nat list"
  bk_wire :: "(nat \<times> string) list"
  bk_log :: "string list"
  bk_now :: int
  bk_verbose :: bool
  bk_os_error :: string

definition touch :: "nat \<Rightarrow> broker \<Rightarrow> broker" where
  "touch sid bk =
     bk\<lparr>bk_sessions := (bk_sessions bk)[sid := (bk_sessions bk ! sid)\<lparr>cs_last_seen_at := bk_now bk\<rparr>]\<rparr>"

definition close_sock :: "nat \<Rightarrow> broker \<Rightarrow> broker" where
  "close_sock sock bk = bk\<lparr>bk_closed := List.insert sock (bk_closed bk)\<rparr>"

text \<open>\<open>ClientRegistry.register\<close>: the replaced session is closed unless it shares the socket.\<close>

definition register :: "nat \<Rightarrow> broker \<Rightarrow> (nat option \<times> broker) res" where
  "register sid bk =
     (let role = cs_role (bk_sessions bk ! sid)
      in if role \<notin> set [ROLE_IDA, ROLE_WINDBG]
         then Inl (ValueError (''client role cannot be registered: '' @ repr_str role))
         else let old = dget (bk_clients bk) role;
                  bk1 = bk\<lparr>bk_clients := dset role sid (bk_clients bk)\<rparr>
              in case old of
                   None \<Rightarrow> Inr (None, bk1)
                 | Some o_sid \<Rightarrow>
                     if cs_sock (bk_sessions bk ! o_sid) \<noteq> cs_sock (bk_sessions bk ! sid)
                     then Inr (Some o_sid, close_sock (cs_sock (bk_sessions bk ! o_sid)) bk1)
                     else Inr (Some o_sid, bk1))"

definition registry_get :: "string \<Rightarrow> broker \<Rightarrow> nat option" where
  "registry_get role bk = dget (bk_clients bk) role"

definition registry_remove :: "nat \<Rightarrow> broker \<Rightarrow> bool \<times> broker" where
  "registry_remove sid bk =
     (let role = cs_role (bk_sessions bk ! sid)
      in if dget (bk_clients bk) role = Some sid
         then (True, bk\<lparr>bk_clients := ddel role (bk_clients bk)\<rparr>)
         else (False, bk))"

definition opposite_role :: "string \<Rightarrow> string option" where
  "opposite_role role =
     (if role = ROLE_IDA then Some ROLE_WINDBG
      else if role = ROLE_WINDBG then Some ROLE_IDA
      else None)"

lemma opposite_role_involutive: "opposite_role r = Some r' \<Longrightarrow> opposite_role r' = Some r \<and> r \<noteq> r'"
  by (auto simp: opposite_role_def role_defs split: if_splits)

end
