(* ===== verification/Framing.thy ===== *)
theory Framing
  imports Protocol
begin

text \<open>
  The line framing that \<^verbatim>\<open>Broker.handle_client\<close> and \<^verbatim>\<open>ProtocolClient._drain_receive_buffer\<close> share:
  complete lines are taken off the front of a byte buffer and handled one by one, the rest
  stays in the buffer for the next chunk.
\<close>

abbreviation first_line :: "string \<Rightarrow> string" where
  "first_line buf \<equiv> takeWhile (\<lambda>c. c \<noteq> newline) buf"

abbreviation after_line :: "string \<Rightarrow> string" where
  "after_line buf \<equiv> tl (dropWhile (\<lambda>c. c \<noteq> newline) buf)"

function drain_lines :: "(string \<Rightarrow> 's \<Rightarrow> 's res) \<Rightarrow> string \<Rightarrow> 's \<Rightarrow> (string \<times> 's) res" where
  "drain_lines handle buf st =
     (if newline \<notin> set buf then Inr (buf, st)
      else res_bind (handle (first_line buf) st) (drain_lines handle (after_line buf)))"
  by pat_completeness auto
termination
proof (relation "measure (\<lambda>(h, b, s). length b)", goal_cases)
  case (2 handle buf st x)
  then have "dropWhile (\<lambda>c. c \<noteq> newline) buf \<noteq> []" by auto
  then have "length (after_line buf) < length (dropWhile (\<lambda>c. c \<noteq> newline) buf)" by simp
  also have "\<dots> \<le> length buf" by (rule length_dropWhile_le)
  finally show ?case by simp
qed simp

declare drain_lines.simps [simp del]

text \<open>Chunks that arrive one after the other.\<close>

primrec feed_chunks ::
    "(string \<Rightarrow> 's \<Rightarrow> 's res) \<Rightarrow> string list \<Rightarrow> string \<times> 's \<Rightarrow> (string \<times> 's) res" where
  "feed_chunks handle [] st = Inr st"
| "feed_chunks handle (c # cs) st =
     res_bind (drain_lines handle (fst st @ c) (snd st)) (feed_chunks handle cs)"

lemma drain_append:
  "drain_lines handle (buf @ chunk) st =
     res_bind (drain_lines handle buf st) (\<lambda>(rest, st'). drain_lines handle (rest @ chunk) st')"
proof (induction handle buf st rule: drain_lines.induct)
  case (1 handle buf st)
  show ?case
  proof (cases "newline \<in> set buf")
    case True
    then have tw: "first_line (buf @ chunk) = first_line buf"
      and dw: "after_line (buf @ chunk) = after_line buf @ chunk"
      by (auto simp: takeWhile_append1 dropWhile_append1 tl_append split: list.splits)
    show ?thesis
      using True 1 tw dw
      by (subst (1 2) drain_lines.simps) (cases "handle (first_line buf) st"; simp)
  qed (simp add: drain_lines.simps)
qed

lemma drain_rest: "drain_lines handle buf st = Inr (b, s) \<Longrightarrow> newline \<notin> set b"
proof (induction handle buf st rule: drain_lines.induct)
  case (1 handle buf st)
  then show ?case
    by (subst (asm) (2) drain_lines.simps) (auto simp: res_bind_Inr_iff split: if_splits)
qed

lemma feed_chunks_concat:
  "newline \<notin> set buf \<Longrightarrow> feed_chunks handle chunks (buf, st) = drain_lines handle (buf @ concat chunks) st"
proof (induction chunks arbitrary: buf st)
  case Nil
  then show ?case by (simp add: drain_lines.simps)
next
  case (Cons c cs)
  have "feed_chunks handle cs (b, s) = drain_lines handle (b @ concat cs) s"
    if "drain_lines handle (buf @ c) st = Inr (b, s)" for b s
    using drain_rest [OF that] by (rule Cons.IH)
  then show ?case
    using drain_append [of handle "buf @ c" "concat cs" st]
    by (cases "drain_lines handle (buf @ c) st") auto
qed

text \<open>Encoded messages are cut exactly at their borders.\<close>

lemma drain_encoded:
  assumes "json_plain (JObj m)"
  shows "drain_lines handle (encode_jsonl m @ rest) st =
    res_bind (handle (json_dumps (JObj m)) st) (drain_lines handle rest)"
proof -
  let ?line = "json_dumps (JObj m)"
  have nl: "newline \<notin> set ?line" using dumped_line(1) [OF assms] .
  then have all: "\<And>x. x \<in> set ?line \<Longrightarrow> x \<noteq> newline" by blast
  have "first_line (?line @ newline # rest) = ?line" "after_line (?line @ newline # rest) = rest"
    using takeWhile_append2 [of ?line "\<lambda>c. c \<noteq> newline" "newline # rest"]
      dropWhile_append2 [of ?line "\<lambda>c. c \<noteq> newline" "newline # rest"] all by simp_all
  then show ?thesis
    by (subst drain_lines.simps) (simp add: encode_jsonl_def del: json_dumps.simps)
qed

end
