(* ===== verification/Broker.thy ===== *)
theory Broker
  imports Sessions Framing
begin

text \<open>
  \<^verbatim>\<open>broker/dayvar_broker.py\<close>: sending, routing, the handler of one message, the reader loop of
  one client and the interleaving of all clients, with the invariant of the registry.
\<close>

section \<open>Sending\<close>

definition log_line :: "string \<Rightarrow> broker \<Rightarrow> broker" where
  "log_line message bk = bk\<lparr>bk_log := bk_log bk @ [''[broker] '' @ message]\<rparr>"

definition verbose_log :: "string \<Rightarrow> broker \<Rightarrow> broker" where
  "verbose_log message bk = (if bk_verbose bk then log_line message bk else bk)"

text \<open>\<open>sendall\<close> raises \<open>OSError\<close> on a closed socket and on one whose peer is gone.\<close>

definition send_to_socket :: "nat \<Rightarrow> message \<Rightarrow> broker \<Rightarrow> broker" where
  "send_to_socket sock message bk =
     (if sock \<in> set (bk_closed bk) \<union> set (bk_broken bk)
      then verbose_log (''send failed: '' @ bk_os_error bk) bk
      else bk\<lparr>bk_wire := bk_wire bk @ [(sock, encode_jsonl message)]\<rparr>)"

definition send_to_session :: "nat \<Rightarrow> message \<Rightarrow> broker \<Rightarrow> broker" where
  "send_to_session sid message bk = send_to_socket (cs_sock (bk_sessions bk ! sid)) message bk"

definition send_raw_error :: "nat \<Rightarrow> string \<Rightarrow> string \<Rightarrow> json \<Rightarrow> broker \<Rightarrow> broker" where
  "send_raw_error sock err_code message message_id =
     send_to_socket sock (create_error err_code message message_id None None None)"

section \<open>Routing\<close>

definition ROUTES :: "(string, string) dict" where
  "ROUTES =
     [(TYPE_PC_UPDATE, ROLE_IDA), (TYPE_IDA_PC_MAPPED, ROLE_WINDBG), (TYPE_REG_REQUEST, ROLE_WINDBG),
      (TYPE_REG_RESPONSE, ROLE_IDA), (TYPE_MEM_REQUEST, ROLE_WINDBG), (TYPE_MEM_RESPONSE, ROLE_IDA)]"

definition destination_role :: "string \<Rightarrow> string \<Rightarrow> string option" where
  "destination_role message_type source_role =
     (if message_type = TYPE_ERROR then opposite_role source_role else dget ROUTES message_type)"

definition route_message :: "nat \<Rightarrow> message \<Rightarrow> broker \<Rightarrow> broker" where
  "route_message source message bk =
     (let message_type = py_str (jget message ''type'');
          message_id = jget message ''id'';
          source_role = cs_role (bk_sessions bk ! source)
      in case destination_role message_type source_role of
           None \<Rightarrow>
             log_line (''no route for '' @ message_type @ '' id='' @ py_str message_id @
               '' from role='' @ source_role) bk
         | Some dest \<Rightarrow>
             (case registry_get dest bk of
                None \<Rightarrow>
                  send_to_session source
                    (create_error ''destination_not_connected''
                      (''destination '' @ dest @ '' is not connected'') message_id None None None)
                    (log_line (''destination '' @ dest @ '' not connected for '' @ message_type @
                       '' id='' @ py_str message_id) bk)
              | Some d \<Rightarrow>
                  send_to_session d message
                    (log_line (''route '' @ message_type @ '' id='' @ py_str message_id @ '' '' @
                       source_role @ '' -> '' @ dest) bk)))"

section \<open>One message\<close>

definition address_text :: "string \<times> int \<Rightarrow> string" where
  "address_text a = fst a @ '':'' @ str_int (snd a)"

definition new_session :: "string \<Rightarrow> nat \<Rightarrow> string \<times> int \<Rightarrow> message \<Rightarrow> int \<Rightarrow> ClientSession" where
  "new_session role sock address message now =
     (let payload = (case jget message ''payload'' of JObj p \<Rightarrow> p | _ \<Rightarrow> [])
      in \<lparr>cs_role = role, cs_sock = sock, cs_address = address, cs_connected_at = now,
          cs_last_seen_at = now, cs_client_name = py_str (jget_or payload ''client_name'' (JStr [])),
          cs_version = py_str (jget_or payload ''version'' (JStr [])), cs_protocol = PROTOCOL_VERSION\<rparr>)"

text \<open>
  \<open>handle_message\<close> on a validated message; the result is the session of the connection. The
  constructed session has \<open>int(message["protocol"])\<close>, which validation fixed to version 1.
\<close>

definition handle_hello ::
    "nat \<Rightarrow> string \<times> int \<Rightarrow> message \<Rightarrow> string \<Rightarrow> broker \<Rightarrow> (nat option \<times> broker) res" where
  "handle_hello sock address message role bk =
     (let sid = length (bk_sessions bk);
          bk1 = bk\<lparr>bk_sessions := bk_sessions bk @ [new_session role sock address message (bk_now bk)]\<rparr>
      in res_bind (register sid bk1) (\<lambda>(old, bk2).
           let bk3 = (if old \<noteq> None then log_line (''replaced existing role='' @ role @ '' client'') bk2 else bk2)
           in Inr (Some sid,
                   send_to_socket sock (create_hello_ack (jget message ''id''))
                     (log_line (''registered role='' @ role) bk3))))"

definition handle_message ::
    "nat \<Rightarrow> string \<times> int \<Rightarrow> nat option \<Rightarrow> message \<Rightarrow> broker \<Rightarrow> (nat option \<times> broker) res" where
  "handle_message sock address session message bk =
     (let message_type = py_str (jget message ''type'');
          message_id = jget message ''id'';
          role = py_str (jget message ''role'')
      in case session of
           None \<Rightarrow>
             if message_type \<noteq> TYPE_HELLO
             then Inr (None,
                    send_raw_error sock ''hello_required'' ''client must send hello before other messages''
                      message_id
                      (log_line (''client must send hello first from '' @ address_text address @
                         '' type='' @ message_type @ '' id='' @ py_str message_id) bk))
             else if role \<notin> set [ROLE_IDA, ROLE_WINDBG]
             then Inr (None,
                    send_raw_error sock ''invalid_role'' ''only ida and windbg clients can register''
                      message_id bk)
             else handle_hello sock address message role bk
         | Some sid \<Rightarrow>
             if role \<noteq> cs_role (bk_sessions bk ! sid)
             then Inr (Some sid,
                    send_to_session sid
                      (create_error ''role_mismatch'' ''message role does not match registered client role''
                         message_id None None None)
                      (log_line (''role mismatch id='' @ py_str message_id @ '': registered='' @
                         cs_role (bk_sessions bk ! sid) @ '' message='' @ role) bk))
             else let bk1 = touch sid bk
                  in if message_type = TYPE_HELLO
                     then Inr (Some sid, send_to_session sid (create_hello_ack message_id) bk1)
                     else Inr (Some sid, route_message sid message bk1))"

section \<open>One client\<close>

text \<open>One line of the reader loop: malformed messages are answered, other exceptions escape.\<close>

definition handle_line ::
    "nat \<Rightarrow> string \<times> int \<Rightarrow> string \<Rightarrow> nat option \<times> broker \<Rightarrow> (nat option \<times> broker) res" where
  "handle_line sock address line st =
     (case st of (session, bk) \<Rightarrow>
        if list_all is_ascii_space line then Inr st
        else case res_bind (decode_jsonl_line line)
                    (\<lambda>m. res_bind (validate_message_shape m) (\<lambda>_. Inr m)) of
               Inr message \<Rightarrow> handle_message sock address session message bk
             | Inl e \<Rightarrow>
                 (case e of
                    ProtocolError text \<Rightarrow>
                      Inr (session, send_raw_error sock ''invalid_message'' text (JInt 0)
                             (log_line (''invalid message from '' @ address_text address @ '': '' @ text) bk))
                  | _ \<Rightarrow> Inl e))"

text \<open>\<open>while b"\n" in buffer\<close>\<close>

definition drain_buffer ::
    "nat \<Rightarrow> string \<times> int \<Rightarrow> string \<Rightarrow> nat option \<times> broker \<Rightarrow> (string \<times> nat option \<times> broker) res" where
  "drain_buffer sock address = drain_lines (handle_line sock address)"

text \<open>\<open>buffer += chunk\<close> and the lines it completes.\<close>

definition handle_chunk ::
    "nat \<Rightarrow> string \<times> int \<Rightarrow> string \<Rightarrow> string \<times> nat option \<times> broker \<Rightarrow> (string \<times> nat option \<times> broker) res" where
  "handle_chunk sock address chunk st =
     (case st of (buf, s) \<Rightarrow> drain_buffer sock address (buf @ chunk) s)"

text \<open>The \<open>finally\<close> block.\<close>

definition finish_client :: "nat \<Rightarrow> string \<times> int \<Rightarrow> nat option \<Rightarrow> broker \<Rightarrow> broker" where
  "finish_client sock address session bk =
     close_sock sock
       (case session of
          Some sid \<Rightarrow>
            (case registry_remove sid bk of (removed, bk1) \<Rightarrow>
               if removed
               then log_line (''client disconnected role='' @ cs_role (bk_sessions bk ! sid)) bk1
               else bk1)
        | None \<Rightarrow> log_line (''unregistered client disconnected from '' @ address_text address) bk)"

section \<open>All clients\<close>

datatype reader_state = Reading | Finished | Crashed py_error

record conn =
  cn_address :: "string \<times> int"
  cn_buffer :: string
  cn_session :: "nat option"
  cn_state :: reader_state

record system =
  sy_broker :: broker
  sy_conns :: "(nat, conn) dict"

definition set_conn :: "nat \<Rightarrow> conn \<Rightarrow> broker \<Rightarrow> system \<Rightarrow> system" where
  "set_conn k c bk sy = sy\<lparr>sy_conns := dset k c (sy_conns sy), sy_broker := bk\<rparr>"

definition line_result :: "nat \<Rightarrow> conn \<Rightarrow> broker \<Rightarrow> conn \<times> broker" where
  "line_result k c bk =
     (let line = takeWhile (\<lambda>x. x \<noteq> newline) (cn_buffer c);
          rest = tl (dropWhile (\<lambda>x. x \<noteq> newline) (cn_buffer c))
      in case handle_line k (cn_address c) line (cn_session c, bk) of
           Inr (session, bk') \<Rightarrow> (c\<lparr>cn_buffer := rest, cn_session := session\<rparr>, bk')
         | Inl e \<Rightarrow> (c\<lparr>cn_buffer := rest, cn_state := Crashed e\<rparr>,
                     finish_client k (cn_address c) (cn_session c) bk))"

text \<open>
  An accepted connection is logged and gets a reader with an empty buffer and no session.
\<close>

definition accept_client :: "nat \<Rightarrow> string \<times> int \<Rightarrow> system \<Rightarrow> system" where
  "accept_client k a sy =
     set_conn k \<lparr>cn_address = a, cn_buffer = [], cn_session = None, cn_state = Reading\<rparr>
       (log_line (''client connected from '' @ address_text a) (sy_broker sy)) sy"

text \<open>
  The reader threads interleave between lines. \<open>accept\<close> gives a new socket object. \<open>recv\<close> returns data only while the buffer holds
  no complete line; it returns no data, or raises, when the connection is gone.
\<close>

inductive broker_step :: "system \<Rightarrow> system \<Rightarrow> bool" where
  step_accept: "dget (sy_conns sy) k = None \<Longrightarrow> k \<notin> set (bk_closed (sy_broker sy)) \<Longrightarrow>
    broker_step sy (accept_client k a sy)"
| step_recv: "dget (sy_conns sy) k = Some c \<Longrightarrow> cn_state c = Reading \<Longrightarrow> newline \<notin> set (cn_buffer c) \<Longrightarrow>
    broker_step sy (set_conn k (c\<lparr>cn_buffer := cn_buffer c @ chunk\<rparr>) (sy_broker sy) sy)"
| step_line: "dget (sy_conns sy) k = Some c \<Longrightarrow> cn_state c = Reading \<Longrightarrow> newline \<in> set (cn_buffer c) \<Longrightarrow>
    line_result k c (sy_broker sy) = (c', bk') \<Longrightarrow>
    broker_step sy (set_conn k c' bk' sy)"
| step_eof: "dget (sy_conns sy) k = Some c \<Longrightarrow> cn_state c = Reading \<Longrightarrow> newline \<notin> set (cn_buffer c) \<Longrightarrow>
    broker_step sy (set_conn k (c\<lparr>cn_state := Finished\<rparr>)
      (finish_client k (cn_address c) (cn_session c) (sy_broker sy)) sy)"
| step_clock: "bk_now (sy_broker sy) \<le> t \<Longrightarrow>
    broker_step sy (sy\<lparr>sy_broker := (sy_broker sy)\<lparr>bk_now := t, bk_broken := ks\<rparr>\<rparr>)"

definition broker_start :: "bool \<Rightarrow> int \<Rightarrow> string \<Rightarrow> system" where
  "broker_start verbose now os_error =
     \<lparr>sy_broker = \<lparr>bk_sessions = [], bk_clients = [], bk_closed = [], bk_broken = [], bk_wire = [],
        bk_log = [], bk_now = now, bk_verbose = verbose, bk_os_error = os_error\<rparr>, sy_conns = []\<rparr>"

definition broker_reachable :: "system \<Rightarrow> bool" where
  "broker_reachable sy \<longleftrightarrow> (\<exists>v t e. broker_step\<^sup>*\<^sup>* (broker_start v t e) sy)"

end
