(* ===== verification/Broker_Proofs.thy ===== *)
theory Broker_Proofs
  imports Broker
begin

text \<open>
  Correctness of the broker: what each handler does to the registry and to the wires, the
  invariant of the interleaved system, and the independence of the reader from chunk borders.
\<close>

section \<open>What the handlers leave alone\<close>

text \<open>The part of the broker state that routing decisions depend on.\<close>

definition session_ids :: "broker \<Rightarrow> (string \<times> nat) list" where
  "session_ids bk = map (\<lambda>s. (cs_role s, cs_sock s)) (bk_sessions bk)"

definition core :: "broker \<Rightarrow> (string \<times> nat) list \<times> (string, nat) dict \<times> nat list" where
  "core bk = (session_ids bk, bk_clients bk, bk_closed bk)"

lemma core_log [simp]: "core (log_line m bk) = core bk" "core (verbose_log m bk) = core bk"
  by (simp_all add: core_def session_ids_def log_line_def verbose_log_def)

lemma core_touch [simp]: "core (touch sid bk) = core bk"
proof -
  have "map (\<lambda>s. (cs_role s, cs_sock s)) (xs[sid := (xs ! sid)\<lparr>cs_last_seen_at := t\<rparr>]) =
      map (\<lambda>s. (cs_role s, cs_sock s)) xs" for xs t
    by (cases "sid < length xs"; rule nth_equalityI) (auto simp: nth_list_update)
  then show ?thesis by (simp add: core_def session_ids_def touch_def)
qed

lemma core_send [simp]:
  "core (send_to_socket k m bk) = core bk" "core (send_to_session sid m bk) = core bk"
  "core (send_raw_error k c t i bk) = core bk"
proof -
  show *: "core (send_to_socket k m bk) = core bk" for k m
    by (simp add: send_to_socket_def) (simp add: core_def session_ids_def)
  show "core (send_to_session sid m bk) = core bk" "core (send_raw_error k c t i bk) = core bk"
    by (simp_all add: send_to_session_def send_raw_error_def *)
qed

lemma core_route [simp]: "core (route_message sid m bk) = core bk"
  by (simp add: route_message_def Let_def split: option.splits)

text \<open>The one change of the core that a message makes: a first hello registers the client.\<close>

definition registered_core ::
    "string \<Rightarrow> nat \<Rightarrow> (string \<times> nat) list \<times> (string, nat) dict \<times> nat list \<Rightarrow>
     (string \<times> nat) list \<times> (string, nat) dict \<times> nat list" where
  "registered_core r k c =
     (case c of (ids, clients, shut) \<Rightarrow>
        (ids @ [(r, k)], dset r (length ids) clients,
         (case dget clients r of
            None \<Rightarrow> shut
          | Some old \<Rightarrow> if snd (ids ! old) = k then shut else List.insert (snd (ids ! old)) shut)))"

lemma handle_hello_core:
  assumes "r \<in> set [ROLE_IDA, ROLE_WINDBG]"
    and "\<And>old. dget (bk_clients bk) r = Some old \<Longrightarrow> old < length (bk_sessions bk)"
  shows "\<exists>bk'. handle_hello k a m r bk = Inr (Some (length (bk_sessions bk)), bk') \<and>
    core bk' = registered_core r k (core bk)"
proof (cases "dget (bk_clients bk) r")
  case None
  with assms(1) show ?thesis
    by (auto simp: handle_hello_def Let_def register_def new_session_def)
       (auto simp: core_def session_ids_def registered_core_def)
next
  case (Some old)
  then have "old < length (bk_sessions bk)" using assms(2) by blast
  with assms(1) Some show ?thesis
    by (auto simp: handle_hello_def Let_def register_def new_session_def nth_append)
       (auto simp: core_def session_ids_def registered_core_def close_sock_def nth_append)
qed

lemma handle_message_core:
  assumes "\<And>old r. dget (bk_clients bk) r = Some old \<Longrightarrow> old < length (bk_sessions bk)"
  shows "\<exists>s' bk'. handle_message k a session m bk = Inr (s', bk') \<and>
    (s' = session \<and> core bk' = core bk \<or>
     session = None \<and> s' = Some (length (bk_sessions bk)) \<and>
       (\<exists>r \<in> set [ROLE_IDA, ROLE_WINDBG]. core bk' = registered_core r k (core bk)))"
proof (cases session)
  case None
  let ?r = "py_str (jget m ''role'')"
  show ?thesis
  proof (cases "py_str (jget m ''type'') = TYPE_HELLO \<and> ?r \<in> set [ROLE_IDA, ROLE_WINDBG]")
    case True
    with handle_hello_core [of ?r bk k a m] assms None show ?thesis
      by (fastforce simp: handle_message_def Let_def)
  next
    case False
    with None show ?thesis by (auto simp: handle_message_def Let_def)
  qed
next
  case (Some sid)
  then show ?thesis by (auto simp: handle_message_def Let_def)
qed

lemma handle_line_core:
  assumes "\<And>old r. dget (bk_clients bk) r = Some old \<Longrightarrow> old < length (bk_sessions bk)"
    and "handle_line k a line (session, bk) = Inr (s', bk')"
  shows "s' = session \<and> core bk' = core bk \<or>
     session = None \<and> s' = Some (length (bk_sessions bk)) \<and>
       (\<exists>r \<in> set [ROLE_IDA, ROLE_WINDBG]. core bk' = registered_core r k (core bk))"
proof (cases "list_all is_ascii_space line")
  case False
  show ?thesis
  proof (cases "res_bind (decode_jsonl_line line) (\<lambda>m. res_bind (validate_message_shape m) (\<lambda>_. Inr m))")
    case (Inl e)
    with False assms(2) show ?thesis by (auto simp: handle_line_def split: py_error.splits)
  next
    case (Inr m)
    with False assms handle_message_core [of bk k a session m] show ?thesis
      by (auto simp: handle_line_def)
  qed
qed (use assms in \<open>simp add: handle_line_def\<close>)

section \<open>The invariant of the registry\<close>

type_synonym reg_core = "(string \<times> nat) list \<times> (string, nat) dict \<times> nat list"

text \<open>What the registry depends on of the connections: the session of each, whether it is read.\<close>

definition conn_session :: "(nat, conn) dict \<Rightarrow> nat \<Rightarrow> nat option" where
  "conn_session conns k = (case dget conns k of Some c \<Rightarrow> cn_session c | None \<Rightarrow> None)"

definition conn_reading :: "(nat, conn) dict \<Rightarrow> nat \<Rightarrow> bool" where
  "conn_reading conns k = (case dget conns k of Some c \<Rightarrow> cn_state c = Reading | None \<Rightarrow> False)"

lemma conn_dset [simp]:
  "conn_session (dset k c conns) = (conn_session conns)(k := cn_session c)"
  "conn_reading (dset k c conns) = (conn_reading conns)(k := (cn_state c = Reading))"
  by (auto simp: fun_eq_iff conn_session_def conn_reading_def)

text \<open>
  Registered sessions have the role they are registered for, belong to a connection that is
  still read and are not closed; every other session has been closed; sessions and the
  connections that created them correspond one to one.
\<close>

definition active_ok :: "reg_core \<Rightarrow> (nat \<Rightarrow> bool) \<Rightarrow> bool" where
  "active_ok c rd \<longleftrightarrow>
     (case c of (ids, clients, shut) \<Rightarrow>
        \<forall>r sid. dget clients r = Some sid \<longrightarrow>
          r \<in> set [ROLE_IDA, ROLE_WINDBG] \<and> sid < length ids \<and> fst (ids ! sid) = r \<and>
          snd (ids ! sid) \<notin> set shut \<and> rd (snd (ids ! sid)))"

definition inactive_closed :: "reg_core \<Rightarrow> bool" where
  "inactive_closed c \<longleftrightarrow>
     (case c of (ids, clients, shut) \<Rightarrow>
        \<forall>sid < length ids. dget clients (fst (ids ! sid)) = Some sid \<or> snd (ids ! sid) \<in> set shut)"

definition sessions_conns :: "reg_core \<Rightarrow> (nat \<Rightarrow> nat option) \<Rightarrow> (nat \<Rightarrow> bool) \<Rightarrow> bool" where
  "sessions_conns c ses rd \<longleftrightarrow>
     (case c of (ids, clients, shut) \<Rightarrow>
        (\<forall>sid < length ids. ses (snd (ids ! sid)) = Some sid) \<and>
        (\<forall>k sid. ses k = Some sid \<longrightarrow> sid < length ids \<and> snd (ids ! sid) = k) \<and>
        (\<forall>k. rd k \<longrightarrow> ses k = None \<longrightarrow> k \<notin> set shut))"

definition reg_inv :: "reg_core \<Rightarrow> (nat \<Rightarrow> nat option) \<Rightarrow> (nat \<Rightarrow> bool) \<Rightarrow> bool" where
  "reg_inv c ses rd \<longleftrightarrow>
     dwf (fst (snd c)) \<and> active_ok c rd \<and> inactive_closed c \<and> sessions_conns c ses rd"

lemmas reg_inv_parts = reg_inv_def active_ok_def inactive_closed_def sessions_conns_def

lemma reg_invD:
  assumes "reg_inv (ids, clients, shut) ses rd"
  shows reg_active: "dget clients r = Some sid \<Longrightarrow> r \<in> set [ROLE_IDA, ROLE_WINDBG] \<and> sid < length ids \<and>
      fst (ids ! sid) = r \<and> snd (ids ! sid) \<notin> set shut \<and> rd (snd (ids ! sid))"
    and reg_inactive: "sid < length ids \<Longrightarrow> dget clients (fst (ids ! sid)) = Some sid \<or> snd (ids ! sid) \<in> set shut"
    and reg_conn: "sid < length ids \<Longrightarrow> ses (snd (ids ! sid)) = Some sid"
    and reg_session: "ses k = Some sid \<Longrightarrow> sid < length ids \<and> snd (ids ! sid) = k"
    and reg_open: "rd k \<Longrightarrow> ses k = None \<Longrightarrow> k \<notin> set shut"
  using assms by (auto simp: reg_inv_parts)

text \<open>The sockets of two registered sessions differ.\<close>

lemma reg_sockets_differ:
  assumes inv: "reg_inv (ids, clients, shut) ses rd"
    and g: "dget clients r = Some old" "dget clients r' = Some sid" and ne: "r' \<noteq> r"
  shows "snd (ids ! sid) \<noteq> snd (ids ! old)"
proof
  assume same: "snd (ids ! sid) = snd (ids ! old)"
  note D = reg_active [OF inv] reg_conn [OF inv]
  have "ses (snd (ids ! sid)) = Some sid" using D(1) [OF g(2)] by (intro D(2)) blast
  moreover have "ses (snd (ids ! old)) = Some old" using D(1) [OF g(1)] by (intro D(2)) blast
  ultimately have "old = sid" using same by (metis option.inject)
  moreover have "fst (ids ! sid) = r'" "fst (ids ! old) = r" using D(1) [OF g(1)] D(1) [OF g(2)] by blast+
  ultimately show False using ne by simp
qed

lemma reg_inv_register:
  assumes inv: "reg_inv (ids, clients, shut) ses rd"
    and k: "rd k" "ses k = None" and r: "r \<in> set [ROLE_IDA, ROLE_WINDBG]"
  shows "reg_inv (registered_core r k (ids, clients, shut)) (ses(k := Some (length ids))) (rd(k := True))"
proof -
  define shut' where "shut' = (case dget clients r of None \<Rightarrow> shut | Some old \<Rightarrow> List.insert (snd (ids ! old)) shut)"
  note D = reg_active [OF inv] reg_inactive [OF inv] reg_conn [OF inv] reg_session [OF inv] reg_open [OF inv]
  have fresh: "snd (ids ! sid) \<noteq> k" if "sid < length ids" for sid using D(3) [OF that] k by auto
  have core': "registered_core r k (ids, clients, shut) = (ids @ [(r, k)], dset r (length ids) clients, shut')"
    using fresh D(1) by (auto simp: registered_core_def shut'_def split: option.splits)
  have shut_mem: "x \<in> set shut' \<longleftrightarrow> x \<in> set shut \<or> (\<exists>old. dget clients r = Some old \<and> x = snd (ids ! old))" for x
    by (auto simp: shut'_def split: option.splits)
  have kopen: "k \<notin> set shut'" using D(5) k fresh D(1) by (auto simp: shut_mem)
  have "active_ok (ids @ [(r, k)], dset r (length ids) clients, shut') (rd(k := True))"
    unfolding active_ok_def prod.case
  proof (intro allI impI)
    fix r' sid
    assume a: "dget (dset r (length ids) clients) r' = Some sid"
    show "r' \<in> set [ROLE_IDA, ROLE_WINDBG] \<and> sid < length (ids @ [(r, k)]) \<and>
       fst ((ids @ [(r, k)]) ! sid) = r' \<and> snd ((ids @ [(r, k)]) ! sid) \<notin> set shut' \<and>
       (rd(k := True)) (snd ((ids @ [(r, k)]) ! sid))"
    proof (cases "r' = r")
      case True
      with a r kopen show ?thesis by (auto simp: nth_append)
    next
      case False
      then have g: "dget clients r' = Some sid" using a by simp
      have "snd (ids ! sid) \<notin> set shut'"
        using D(1) [OF g] reg_sockets_differ [OF inv _ g False] by (auto simp: shut_mem)
      with D(1) [OF g] show ?thesis by (simp add: nth_append)
    qed
  qed
  moreover have "inactive_closed (ids @ [(r, k)], dset r (length ids) clients, shut')"
    using D(2) by (auto simp: inactive_closed_def nth_append shut_mem less_Suc_eq)
  moreover have "sessions_conns (ids @ [(r, k)], dset r (length ids) clients, shut')
      (ses(k := Some (length ids))) (rd(k := True))"
    unfolding sessions_conns_def prod.case
    using D fresh k by (auto simp: nth_append less_Suc_eq shut_mem)
  moreover have "dwf (dset r (length ids) clients)" using inv by (simp add: reg_inv_def distinct_update)
  ultimately show ?thesis by (simp add: reg_inv_def core')
qed

lemma reg_inv_finish:
  assumes inv: "reg_inv (ids, clients, shut) ses rd"
    and clients': "clients' = (case ses k of
        Some sid \<Rightarrow> if dget clients (fst (ids ! sid)) = Some sid then ddel (fst (ids ! sid)) clients else clients
      | None \<Rightarrow> clients)"
  shows "reg_inv (ids, clients', List.insert k shut) ses (rd(k := False))"
proof -
  note D = reg_active [OF inv] reg_inactive [OF inv] reg_conn [OF inv] reg_session [OF inv] reg_open [OF inv]
  have get: "dget clients' r = Some sid \<longleftrightarrow> dget clients r = Some sid \<and> snd (ids ! sid) \<noteq> k" for r sid
  proof (cases "ses k")
    case None
    then show ?thesis using clients' D(1) [of r sid] D(3) [of sid] by auto
  next
    case (Some s)
    then have s: "s < length ids" "snd (ids ! s) = k" using D(4) by auto
    have "snd (ids ! sid) = k \<longleftrightarrow> r = fst (ids ! s) \<and> sid = s" if g: "dget clients r = Some sid"
    proof -
      have "ses (snd (ids ! sid)) = Some sid" using D(1) [OF g] by (intro D(3)) blast
      moreover have "fst (ids ! sid) = r" using D(1) [OF g] by blast
      ultimately show ?thesis using Some s by (metis option.inject)
    qed
    then show ?thesis using clients' Some by auto
  qed
  have "dwf clients'" using inv clients' by (auto simp: reg_inv_def distinct_delete split: option.splits)
  moreover have "active_ok (ids, clients', List.insert k shut) (rd(k := False))"
    using D(1) by (auto simp: active_ok_def get)
  moreover have "inactive_closed (ids, clients', List.insert k shut)"
    using D(2) by (auto simp: inactive_closed_def get)
  moreover have "sessions_conns (ids, clients', List.insert k shut) ses (rd(k := False))"
    using D(3-5) by (auto simp: sessions_conns_def)
  ultimately show ?thesis by (simp add: reg_inv_def)
qed

lemma finish_client_core:
  "core (finish_client k a session bk) =
     (session_ids bk,
      (case session of
         Some sid \<Rightarrow> if dget (bk_clients bk) (cs_role (bk_sessions bk ! sid)) = Some sid
                     then ddel (cs_role (bk_sessions bk ! sid)) (bk_clients bk) else bk_clients bk
       | None \<Rightarrow> bk_clients bk),
      List.insert k (bk_closed bk))"
  by (auto simp: finish_client_def close_sock_def registry_remove_def core_def session_ids_def log_line_def
      Let_def split: option.splits)

definition system_inv :: "system \<Rightarrow> bool" where
  "system_inv sy \<longleftrightarrow> reg_inv (core (sy_broker sy)) (conn_session (sy_conns sy)) (conn_reading (sy_conns sy))"

lemma system_inv_finish:
  assumes inv: "system_inv sy" and k: "dget (sy_conns sy) k = Some c"
    and c': "cn_session c' = cn_session c" "cn_state c' \<noteq> Reading"
  shows "system_inv (set_conn k c' (finish_client k a (cn_session c) (sy_broker sy)) sy)"
proof -
  let ?bk = "sy_broker sy"
  have ses: "conn_session (sy_conns sy) k = cn_session c" using k by (simp add: conn_session_def)
  then have conns': "conn_session (dset k c' (sy_conns sy)) = conn_session (sy_conns sy)"
    using c' by (simp add: fun_upd_idem)
  have inv': "reg_inv (session_ids ?bk, bk_clients ?bk, bk_closed ?bk) (conn_session (sy_conns sy)) (conn_reading (sy_conns sy))"
    using inv by (simp add: system_inv_def core_def)
  have role: "fst (session_ids ?bk ! sid) = cs_role (bk_sessions ?bk ! sid)" if "cn_session c = Some sid" for sid
    using reg_session [OF inv', of k sid] that ses by (auto simp: session_ids_def)
  have cl: "fst (snd (core (finish_client k a (cn_session c) ?bk))) =
    (case conn_session (sy_conns sy) k of
       Some sid \<Rightarrow> if dget (bk_clients ?bk) (fst (session_ids ?bk ! sid)) = Some sid
                   then ddel (fst (session_ids ?bk ! sid)) (bk_clients ?bk) else bk_clients ?bk
     | None \<Rightarrow> bk_clients ?bk)"
    using role by (auto simp: finish_client_core ses split: option.splits)
  show ?thesis
    using reg_inv_finish [OF inv' cl] c'
    by (simp add: system_inv_def set_conn_def conns' finish_client_core del: conn_dset(1))
qed

lemma system_inv_sessions:
  "system_inv sy \<Longrightarrow> dget (bk_clients (sy_broker sy)) r = Some sid \<Longrightarrow> sid < length (bk_sessions (sy_broker sy))"
  by (auto simp: system_inv_def core_def session_ids_def dest!: reg_active)

lemma system_inv_line:
  assumes inv: "system_inv sy" and k: "dget (sy_conns sy) k = Some c" "cn_state c = Reading"
    and res: "line_result k c (sy_broker sy) = (c', bk')"
  shows "system_inv (set_conn k c' bk' sy)"
proof -
  let ?line = "takeWhile (\<lambda>x. x \<noteq> newline) (cn_buffer c)"
  let ?bk = "sy_broker sy"
  have ses: "conn_session (sy_conns sy) k = cn_session c" "conn_reading (sy_conns sy) k"
    using k by (simp_all add: conn_session_def conn_reading_def)
  show ?thesis
  proof (cases "handle_line k (cn_address c) ?line (cn_session c, ?bk)")
    case (Inl e)
    with res k(1) show ?thesis
      by (auto simp: line_result_def Let_def intro!: system_inv_finish [OF inv])
  next
    case (Inr sb)
    obtain s' where sb: "sb = (s', bk')" "cn_session c' = s'" "cn_state c' = Reading"
      using Inr res k(2) by (cases sb) (auto simp: line_result_def Let_def)
    have "s' = cn_session c \<and> core bk' = core ?bk \<or> cn_session c = None \<and> s' = Some (length (bk_sessions ?bk)) \<and>
       (\<exists>r \<in> set [ROLE_IDA, ROLE_WINDBG]. core bk' = registered_core r k (core ?bk))"
      by (rule handle_line_core [OF _ Inr [unfolded sb(1)]]) (rule system_inv_sessions [OF inv])
    then consider "s' = cn_session c" "core bk' = core ?bk"
      | r where "cn_session c = None" "s' = Some (length (bk_sessions ?bk))"
          "r \<in> set [ROLE_IDA, ROLE_WINDBG]" "core bk' = registered_core r k (core ?bk)" by blast
    then show ?thesis
    proof cases
      case 1
      with inv ses sb show ?thesis by (simp add: system_inv_def set_conn_def fun_upd_idem)
    next
      case 2
      with inv ses sb reg_inv_register [of "session_ids ?bk" "bk_clients ?bk" "bk_closed ?bk" _ _ k r] show ?thesis
        by (simp add: system_inv_def set_conn_def core_def session_ids_def)
    qed
  qed
qed

lemma system_inv_step: "broker_step sy sy' \<Longrightarrow> system_inv sy \<Longrightarrow> system_inv sy'"
proof (induction rule: broker_step.induct)
  case (step_accept sy k a)
  then have "conn_session (sy_conns sy) k = None" "\<not> conn_reading (sy_conns sy) k"
    by (simp_all add: conn_session_def conn_reading_def)
  with step_accept show ?case
    by (simp add: accept_client_def system_inv_def set_conn_def fun_upd_idem)
       (auto simp: reg_inv_parts core_def)
next
  case (step_recv sy k c chunk)
  then show ?case by (simp add: system_inv_def set_conn_def conn_session_def conn_reading_def fun_upd_idem)
next
  case (step_line sy k c c' bk')
  then show ?case by (auto intro: system_inv_line)
next
  case (step_eof sy k c)
  then show ?case by (auto intro: system_inv_finish)
next
  case (step_clock sy t ks)
  then show ?case by (simp add: system_inv_def core_def session_ids_def)
qed


interpretation broker_steps: step_system broker_step system_inv
  by unfold_locales (blast intro: system_inv_step)

lemma system_inv_start: "system_inv (broker_start v t e)"
  by (simp add: system_inv_def broker_start_def core_def session_ids_def reg_inv_parts conn_session_def conn_reading_def)

lemma system_inv_reachable: "broker_reachable sy \<Longrightarrow> system_inv sy"
  unfolding broker_reachable_def by (blast intro: broker_steps.run_inv system_inv_start)

lemma session_ids_nth: "sid < length (bk_sessions bk) \<Longrightarrow>
    session_ids bk ! sid = (cs_role (bk_sessions bk ! sid), cs_sock (bk_sessions bk ! sid))"
  by (simp add: session_ids_def)

section \<open>A concrete history\<close>

definition ex_address :: "string \<times> int" where
  "ex_address = (''h'', 1)"

definition ex_hello :: "string \<Rightarrow> message" where
  "ex_hello role = make_envelope TYPE_HELLO role [] (JInt 1)"

definition ex_conn :: conn where
  "ex_conn = \<lparr>cn_address = ex_address, cn_buffer = [], cn_session = None, cn_state = Reading\<rparr>"

text \<open>A client connects, sends one hello line and the broker handles it.\<close>

definition ex_join :: "nat \<Rightarrow> string \<Rightarrow> system \<Rightarrow> system" where
  "ex_join k role sy =
     (let sy1 = set_conn k ex_conn (log_line (''client connected from '' @ address_text ex_address) (sy_broker sy)) sy;
          c = ex_conn\<lparr>cn_buffer := cn_buffer ex_conn @ encode_jsonl (ex_hello role)\<rparr>;
          sy2 = set_conn k c (sy_broker sy1) sy1
      in case line_result k c (sy_broker sy2) of (c', bk') \<Rightarrow> set_conn k c' bk' sy2)"

lemma ex_join_steps:
  assumes "dget (sy_conns sy) k = None" "k \<notin> set (bk_closed (sy_broker sy))"
  shows "broker_step\<^sup>*\<^sup>* sy (ex_join k role sy)"
proof -
  let ?sy1 = "set_conn k ex_conn (log_line (''client connected from '' @ address_text ex_address) (sy_broker sy)) sy"
  let ?c = "ex_conn\<lparr>cn_buffer := cn_buffer ex_conn @ encode_jsonl (ex_hello role)\<rparr>"
  let ?sy2 = "set_conn k ?c (sy_broker ?sy1) ?sy1"
  obtain c' bk' where r: "line_result k ?c (sy_broker ?sy2) = (c', bk')" by (cases "line_result k ?c (sy_broker ?sy2)")
  have "broker_step sy ?sy1" using step_accept [OF assms] by (simp add: accept_client_def ex_conn_def)
  moreover have "broker_step ?sy1 ?sy2"
    by (rule step_recv) (simp_all add: set_conn_def ex_conn_def)
  moreover have "broker_step ?sy2 (set_conn k c' bk' ?sy2)"
    using r by (intro step_line) (simp_all add: set_conn_def ex_conn_def encode_jsonl_def)
  ultimately show ?thesis
    using r by (simp add: ex_join_def Let_def)
qed

definition ex_start :: system where
  "ex_start = broker_start False 0 []"

definition ex_one :: system where
  "ex_one = ex_join 1 ROLE_IDA ex_start"

definition ex_two :: system where
  "ex_two = ex_join 2 ROLE_IDA ex_one"

lemma ex_two_core: "core (sy_broker ex_two) = ([(ROLE_IDA, 1), (ROLE_IDA, 2)], [(ROLE_IDA, 1)], [1])"
  by code_simp

lemma ex_two_reachable: "broker_reachable ex_two"
proof -
  have "broker_step\<^sup>*\<^sup>* ex_start ex_one"
    unfolding ex_one_def by (rule ex_join_steps) (simp_all add: ex_start_def broker_start_def)
  moreover have "broker_step\<^sup>*\<^sup>* ex_one ex_two"
    unfolding ex_two_def
  proof (rule ex_join_steps)
    show "dget (sy_conns ex_one) 2 = None"
      by (simp add: ex_one_def ex_join_def Let_def set_conn_def ex_start_def broker_start_def split: prod.splits)
    show "2 \<notin> set (bk_closed (sy_broker ex_one))" by code_simp
  qed
  ultimately show ?thesis
    unfolding broker_reachable_def ex_start_def by (blast intro: rtranclp_trans)
qed

lemma ex_two_sessions: "length (bk_sessions (sy_broker ex_two)) = 2"
    "sid < 2 \<Longrightarrow> (cs_role (bk_sessions (sy_broker ex_two) ! sid), cs_sock (bk_sessions (sy_broker ex_two) ! sid)) =
      [(ROLE_IDA, 1), (ROLE_IDA, 2)] ! sid"
    "registry_get ROLE_IDA (sy_broker ex_two) = Some 1" "bk_closed (sy_broker ex_two) = [1]"
proof -
  have c: "session_ids (sy_broker ex_two) = [(ROLE_IDA, 1), (ROLE_IDA, 2)]"
    "bk_clients (sy_broker ex_two) = [(ROLE_IDA, 1)]" "bk_closed (sy_broker ex_two) = [1]"
    using ex_two_core by (simp_all add: core_def)
  have "length (session_ids (sy_broker ex_two)) = 2" by (simp add: c(1))
  then show len: "length (bk_sessions (sy_broker ex_two)) = 2" by (simp add: session_ids_def)
  show "(cs_role (bk_sessions (sy_broker ex_two) ! sid), cs_sock (bk_sessions (sy_broker ex_two) ! sid)) =
      [(ROLE_IDA, 1), (ROLE_IDA, 2)] ! sid" if "sid < 2"
    using session_ids_nth [of sid "sy_broker ex_two"] that len c(1) by simp
  show "registry_get ROLE_IDA (sy_broker ex_two) = Some 1" "bk_closed (sy_broker ex_two) = [1]"
    using c by (simp_all add: registry_get_def)
qed

text \<open>
  C13. In every reachable state, the session registered for a role is a session of that role, only
  \<^verbatim>\<open>ida\<close> and \<^verbatim>\<open>windbg\<close> have one, its socket has not been closed, and its reader is still running
  and works for exactly that session.
\<close>

theorem registered_client_live:
  assumes "broker_reachable sy" "registry_get r (sy_broker sy) = Some sid"
  shows "r \<in> set [ROLE_IDA, ROLE_WINDBG] \<and> sid < length (bk_sessions (sy_broker sy)) \<and>
    cs_role (bk_sessions (sy_broker sy) ! sid) = r \<and>
    cs_sock (bk_sessions (sy_broker sy) ! sid) \<notin> set (bk_closed (sy_broker sy)) \<and>
    (\<exists>c. dget (sy_conns sy) (cs_sock (bk_sessions (sy_broker sy) ! sid)) = Some c \<and>
       cn_state c = Reading \<and> cn_session c = Some sid)"
proof -
  let ?bk = "sy_broker sy"
  have inv: "reg_inv (session_ids ?bk, bk_clients ?bk, bk_closed ?bk)
      (conn_session (sy_conns sy)) (conn_reading (sy_conns sy))"
    using system_inv_reachable [OF assms(1)] by (simp add: system_inv_def core_def)
  have g: "dget (bk_clients ?bk) r = Some sid" using assms(2) by (simp add: registry_get_def)
  note a = reg_active [OF inv g]
  have len: "sid < length (bk_sessions ?bk)" using a by (simp add: session_ids_def)
  have "conn_session (sy_conns sy) (snd (session_ids ?bk ! sid)) = Some sid"
    using a by (intro reg_conn [OF inv]) blast
  then obtain c where "dget (sy_conns sy) (cs_sock (bk_sessions ?bk ! sid)) = Some c"
      "cn_session c = Some sid" "cn_state c = Reading"
    using a len by (auto simp: session_ids_nth conn_session_def conn_reading_def split: option.splits)
  with a len show ?thesis by (auto simp: session_ids_nth)
qed

lemma registered_client_live_witness:
  "cs_role (bk_sessions (sy_broker ex_two) ! 1) = ROLE_IDA \<and>
   (\<exists>c. dget (sy_conns ex_two) (cs_sock (bk_sessions (sy_broker ex_two) ! 1)) = Some c \<and> cn_state c = Reading)"
  using registered_client_live [OF ex_two_reachable ex_two_sessions(3)] by blast

text \<open>
  C14. At most one client per role is ever left open: every session that is not the registered one
  for its role has had its socket closed.
\<close>

theorem replaced_client_closed:
  assumes "broker_reachable sy" "sid < length (bk_sessions (sy_broker sy))"
    "registry_get (cs_role (bk_sessions (sy_broker sy) ! sid)) (sy_broker sy) \<noteq> Some sid"
  shows "cs_sock (bk_sessions (sy_broker sy) ! sid) \<in> set (bk_closed (sy_broker sy))"
proof -
  let ?bk = "sy_broker sy"
  have inv: "reg_inv (session_ids ?bk, bk_clients ?bk, bk_closed ?bk)
      (conn_session (sy_conns sy)) (conn_reading (sy_conns sy))"
    using system_inv_reachable [OF assms(1)] by (simp add: system_inv_def core_def)
  from reg_inactive [OF inv, of sid] assms(2,3) show ?thesis
    by (simp add: session_ids_nth registry_get_def) (simp add: session_ids_def)
qed

lemma replaced_client_closed_witness:
  "cs_sock (bk_sessions (sy_broker ex_two) ! 0) \<in> set (bk_closed (sy_broker ex_two))"
  using replaced_client_closed [OF ex_two_reachable, of 0] ex_two_sessions(2) [of 0] ex_two_sessions(1,3)
  by simp

section \<open>Relaying\<close>

lemma wire_log [simp]: "bk_wire (log_line m bk) = bk_wire bk" "bk_sessions (log_line m bk) = bk_sessions bk"
    "bk_closed (log_line m bk) = bk_closed bk" "bk_broken (log_line m bk) = bk_broken bk"
    "bk_clients (log_line m bk) = bk_clients bk"
  by (simp_all add: log_line_def)

lemma wire_send:
  "bk_wire (send_to_socket k m bk) =
     bk_wire bk @ (if k \<in> set (bk_closed bk) \<union> set (bk_broken bk) then [] else [(k, encode_jsonl m)])"
  by (simp add: send_to_socket_def verbose_log_def)

lemma wire_raw [simp]:
  "bk_wire (send_raw_error k c t i bk) =
     bk_wire bk @ (if k \<in> set (bk_closed bk) \<union> set (bk_broken bk) then []
                   else [(k, encode_jsonl (create_error c t i None None None))])"
  by (simp add: send_raw_error_def wire_send)

lemma touch_fields [simp]: "bk_wire (touch sid bk) = bk_wire bk" "bk_closed (touch sid bk) = bk_closed bk"
    "bk_broken (touch sid bk) = bk_broken bk" "bk_clients (touch sid bk) = bk_clients bk"
  by (simp_all add: touch_def)

lemma touch_sessions [simp]:
  "cs_role (bk_sessions (touch sid bk) ! x) = cs_role (bk_sessions bk ! x)"
  "cs_sock (bk_sessions (touch sid bk) ! x) = cs_sock (bk_sessions bk ! x)"
proof -
  have "bk_sessions (touch sid bk) ! x =
      (if x = sid \<and> sid < length (bk_sessions bk) then (bk_sessions bk ! sid)\<lparr>cs_last_seen_at := bk_now bk\<rparr>
       else bk_sessions bk ! x)"
    by (cases "sid < length (bk_sessions bk)") (auto simp: touch_def not_less list_update_beyond)
  then show "cs_role (bk_sessions (touch sid bk) ! x) = cs_role (bk_sessions bk ! x)"
    "cs_sock (bk_sessions (touch sid bk) ! x) = cs_sock (bk_sessions bk ! x)" by auto
qed

lemma handle_line_dumped:
  assumes "json_plain (JObj m)" "validate_message_shape m = Inr ()"
  shows "handle_line k a (json_dumps (JObj m)) (s, bk) = handle_message k a s m bk"
  using dumped_line [OF assms(1)] assms(2) by (simp add: handle_line_def del: json_dumps.simps)


definition ex_session :: "string \<Rightarrow> nat \<Rightarrow> ClientSession" where
  "ex_session role k = new_session role k ex_address [] 0"

definition ex_pair :: broker where
  "ex_pair = (sy_broker ex_start)\<lparr>bk_sessions := [ex_session ROLE_IDA 1, ex_session ROLE_WINDBG 2],
     bk_clients := [(ROLE_IDA, 0), (ROLE_WINDBG, 1)]\<rparr>"

lemma ex_pair_sessions: "registry_get r ex_pair = Some old \<Longrightarrow> old < length (bk_sessions ex_pair)"
  by (auto simp: registry_get_def ex_pair_def split: if_splits)

definition ex_request :: message where
  "ex_request = make_envelope TYPE_REG_REQUEST ROLE_IDA [(''pc_seq'', JInt 3)] (JInt 9)"




section \<open>The reader\<close>

primrec handle_chunks ::
    "nat \<Rightarrow> string \<times> int \<Rightarrow> string list \<Rightarrow> string \<times> nat option \<times> broker \<Rightarrow> (string \<times> nat option \<times> broker) res" where
  "handle_chunks k a [] st = Inr st"
| "handle_chunks k a (c # cs) st = res_bind (handle_chunk k a c st) (handle_chunks k a cs)"

text \<open>
  C29. Framing does not depend on how TCP splits the stream: reading the chunks one after the other
  has the same effect, including the remaining buffer and any exception, as reading their
  concatenation at once.
\<close>

theorem chunk_invariance:
  assumes "newline \<notin> set buf"
  shows "handle_chunks k a chunks (buf, st) = drain_buffer k a (buf @ concat chunks) st"
proof -
  have "handle_chunks k a chunks = feed_chunks (handle_line k a) chunks"
  proof (induction chunks)
    case (Cons c cs)
    then show ?case by (intro ext) (simp add: handle_chunk_def drain_buffer_def case_prod_beta)
  qed (simp add: fun_eq_iff)
  with feed_chunks_concat [OF assms] show ?thesis by (simp add: drain_buffer_def)
qed

lemma chunk_invariance_witness:
  "handle_chunks 7 ex_address [''{'', ''}'' @ [newline]] ([], (None, ex_pair)) =
     drain_buffer 7 ex_address (''{}'' @ [newline]) (None, ex_pair)"
  using chunk_invariance [of "[]" 7 ex_address "[''{'', ''}'' @ [newline]]" "(None, ex_pair)"] by simp

lemma decode_error:
  assumes "decode_jsonl_line line = Inl e"
  shows "(\<exists>t. e = ProtocolError t) \<or> e = UnicodeDecodeError \<or> e = TextOutsideModel"
proof (cases "utf8_decode line")
  case (Inl x)
  have "utf8_decode s = Inl y \<Longrightarrow> y = UnicodeDecodeError \<or> y = TextOutsideModel" for s y
    by (induction s rule: utf8_decode.induct)
       (auto simp: res_bind_Inl_iff split: if_splits list.splits)
  with Inl assms show ?thesis by (auto simp: decode_jsonl_line_def)
next
  case (Inr decoded)
  with assms show ?thesis
    using json_loads_total [of "py_strip decoded"]
    by (auto simp: decode_jsonl_line_def Let_def text_error_def
        split: if_splits sum.splits py_error.splits json.splits)
qed


text \<open>A message whose type is an empty array.\<close>

definition ex_unhashable :: message where
  "ex_unhashable = [(''protocol'', JInt 1), (''id'', JInt 1), (''type'', JList [])]"


end
