(* ===== verification/Broker_Refinement.thy ===== *)
theory Broker_Refinement
  imports Broker_Proofs
begin

text \<open>
  An abstract specification of the broker, a relay that knows nothing of sessions, buffers, logs or
  clocks, and the proof that the broker implements it: every step of the interleaved system is a step
  of the relay on the abstracted state, with the same bytes on the wires.
\<close>

section \<open>Forward simulation\<close>

locale forward_simulation = step_system cstep inv for cstep :: "'c \<Rightarrow> 'c \<Rightarrow> bool" and inv :: "'c \<Rightarrow> bool" +
  fixes astep :: "'a \<Rightarrow> 'a \<Rightarrow> bool" and abstr :: "'c \<Rightarrow> 'a"
  assumes simulates: "inv c \<Longrightarrow> cstep c c' \<Longrightarrow> astep (abstr c) (abstr c')"
begin

lemma run_simulates: "cstep\<^sup>*\<^sup>* c c' \<Longrightarrow> inv c \<Longrightarrow> astep\<^sup>*\<^sup>* (abstr c) (abstr c')"
  by (rule run_keeps [where P = "\<lambda>c'. astep\<^sup>*\<^sup>* (abstr c) (abstr c')"])
     (auto intro: simulates rtranclp.rtrancl_into_rtrancl)

lemma transfer_invariant:
  assumes "cstep\<^sup>*\<^sup>* c c'" "inv c" "P (abstr c)" "\<And>a a'. P a \<Longrightarrow> astep a a' \<Longrightarrow> P a'"
  shows "P (abstr c')"
proof -
  have "P a'" if "astep\<^sup>*\<^sup>* (abstr c) a'" for a' using that assms(3,4) by (induction rule: rtranclp_induct) auto
  with run_simulates [OF assms(1,2)] show ?thesis by blast
qed

end

section \<open>The relay\<close>

text \<open>
  The relay knows which connection holds a role, with which role a connection has joined, which
  connections it has closed, which peers are gone, and what it has sent.
\<close>

record relay =
  ry_holder :: "string \<Rightarrow> nat option"
  ry_role :: "nat \<Rightarrow> string option"
  ry_closed :: "nat set"
  ry_gone :: "nat set"
  ry_sent :: "(nat \<times> string) list"

definition relay_start :: relay where
  "relay_start = \<lparr>ry_holder = (\<lambda>_. None), ry_role = (\<lambda>_. None), ry_closed = {}, ry_gone = {}, ry_sent = []\<rparr>"

definition deliver :: "nat \<Rightarrow> message \<Rightarrow> relay \<Rightarrow> relay" where
  "deliver k m R =
     (if k \<in> ry_closed R \<union> ry_gone R then R else R\<lparr>ry_sent := ry_sent R @ [(k, encode_jsonl m)]\<rparr>)"

text \<open>The messages the broker makes itself.\<close>

definition broker_made :: "message \<Rightarrow> bool" where
  "broker_made m \<longleftrightarrow> valid_envelope m \<and> jget m ''role'' = JStr ROLE_BROKER \<and> jget m ''type'' \<in> {JStr TYPE_ERROR, JStr TYPE_HELLO_ACK}"

definition join :: "nat \<Rightarrow> string \<Rightarrow> relay \<Rightarrow> relay" where
  "join k r R =
     R\<lparr>ry_holder := (ry_holder R)(r := Some k), ry_role := (ry_role R)(k := Some r),
       ry_closed := ry_closed R \<union> (set_option (ry_holder R r) - {k})\<rparr>"

definition leave :: "nat \<Rightarrow> relay \<Rightarrow> relay" where
  "leave k R =
     R\<lparr>ry_holder := (\<lambda>r. if ry_holder R r = Some k then None else ry_holder R r), ry_closed := insert k (ry_closed R)\<rparr>"

text \<open>
  A message of a joined client that bears its role goes, unchanged, to the connection that holds the
  destination role of its type, and nowhere else. Joining takes the role over and closes the former
  holder. Whatever else the broker sends is its own answer.
\<close>

inductive relay_step :: "relay \<Rightarrow> relay \<Rightarrow> bool" where
  relay_quiet: "relay_step R R"
| relay_peers: "relay_step R (R\<lparr>ry_gone := ks\<rparr>)"
| relay_answer: "broker_made m \<Longrightarrow> relay_step R (deliver k m R)"
| relay_join: "ry_role R k = None \<Longrightarrow> r \<in> {ROLE_IDA, ROLE_WINDBG} \<Longrightarrow> broker_made m \<Longrightarrow>
    relay_step R (deliver k m (join k r R))"
| relay_forward: "ry_role R k = Some r \<Longrightarrow> valid_envelope m \<Longrightarrow> jget m ''role'' = JStr r \<Longrightarrow> jget m ''type'' = JStr t \<Longrightarrow>
    destination_role t r = Some d \<Longrightarrow> ry_holder R d = Some k' \<Longrightarrow> relay_step R (deliver k' m R)"
| relay_leave: "relay_step R (leave k R)"

section \<open>Abstraction\<close>

definition broker_relay :: "broker \<Rightarrow> (nat \<Rightarrow> nat option) \<Rightarrow> relay" where
  "broker_relay bk ses =
     \<lparr>ry_holder = (\<lambda>r. map_option (\<lambda>sid. cs_sock (bk_sessions bk ! sid)) (dget (bk_clients bk) r)),
      ry_role = (\<lambda>k. map_option (\<lambda>sid. cs_role (bk_sessions bk ! sid)) (ses k)),
      ry_closed = set (bk_closed bk), ry_gone = set (bk_broken bk), ry_sent = bk_wire bk\<rparr>"

definition abs_relay :: "system \<Rightarrow> relay" where
  "abs_relay sy = broker_relay (sy_broker sy) (conn_session (sy_conns sy))"

lemma relay_log [simp]: "broker_relay (log_line m bk) ses = broker_relay bk ses" "broker_relay (verbose_log m bk) ses = broker_relay bk ses"
  by (simp_all add: broker_relay_def log_line_def verbose_log_def)

lemma relay_touch [simp]: "broker_relay (touch sid bk) ses = broker_relay bk ses"
proof -
  have "f ((bk_sessions bk)[sid := (bk_sessions bk ! sid)\<lparr>cs_last_seen_at := t\<rparr>] ! i) = f (bk_sessions bk ! i)"
    if "\<And>s. f (s\<lparr>cs_last_seen_at := t\<rparr>) = f s" for f :: "ClientSession \<Rightarrow> 'x" and i t
    using that by (cases "sid < length (bk_sessions bk)") (auto simp: nth_list_update list_update_beyond)
  from this [of cs_sock] this [of cs_role] show ?thesis by (simp add: broker_relay_def touch_def)
qed

lemma relay_send [simp]:
  "broker_relay (send_to_socket k m bk) ses = deliver k m (broker_relay bk ses)"
  by (simp add: send_to_socket_def deliver_def) (auto simp: broker_relay_def)

lemma own_messages [simp]:
  "json_int i \<noteq> None \<Longrightarrow> broker_made (create_error c t i x y z)"
  "json_int i \<noteq> None \<Longrightarrow> broker_made (create_hello_ack i)"
proof -
  assume i: "json_int i \<noteq> None"
  from make_envelope_valid [OF _ _ i, of TYPE_ERROR ROLE_BROKER] make_envelope_valid [OF _ _ i, of TYPE_HELLO_ACK ROLE_BROKER]
  show "broker_made (create_error c t i x y z)" "broker_made (create_hello_ack i)"
    by (simp_all add: broker_made_def create_error_def create_hello_ack_def SUPPORTED_MESSAGE_TYPES_def SUPPORTED_ROLES_def)
      (simp_all add: make_envelope_def jget_def)
qed

lemma envelope_id [simp]: "valid_envelope m \<Longrightarrow> json_int (jget m ''id'') \<noteq> None"
  by (simp add: valid_envelope_def)

section \<open>Simulation\<close>

lemma route_simulated:
  assumes "valid_envelope m" "jget m ''role'' = JStr (cs_role (bk_sessions bk ! sid))" "ses k = Some sid"
  shows "relay_step (broker_relay bk ses) (broker_relay (route_message sid m bk) ses)"
proof -
  obtain t where t: "jget m ''type'' = JStr t" "py_str (jget m ''type'') = t"
    using assms(1) by (auto simp: valid_envelope_def)
  have role: "ry_role (broker_relay bk ses) k = Some (cs_role (bk_sessions bk ! sid))"
    using assms(3) by (simp add: broker_relay_def)
  show ?thesis
  proof (cases "destination_role t (cs_role (bk_sessions bk ! sid))")
    case None
    with t(2) show ?thesis by (simp add: route_message_def Let_def relay_quiet)
  next
    case (Some d)
    show ?thesis
    proof (cases "registry_get d bk")
      case None
      with Some t(2) own_messages(1) [OF envelope_id [OF assms(1)]] show ?thesis
        by (simp add: route_message_def Let_def send_to_session_def relay_answer del: append.simps)
    next
      case (Some d_sid)
      let ?k' = "cs_sock (bk_sessions bk ! d_sid)"
      have "ry_holder (broker_relay bk ses) d = Some ?k'" using Some by (simp add: broker_relay_def registry_get_def)
      from relay_forward [OF role assms(1,2) t(1) \<open>destination_role t _ = Some d\<close> this]
      show ?thesis using Some \<open>destination_role t _ = Some d\<close> t(2)
        by (simp add: route_message_def Let_def send_to_session_def)
    qed
  qed
qed

text \<open>The registry and the connections only refer to sessions that exist.\<close>

definition sessions_known :: "broker \<Rightarrow> (nat \<Rightarrow> nat option) \<Rightarrow> bool" where
  "sessions_known bk ses \<longleftrightarrow>
     (\<forall>r sid. dget (bk_clients bk) r = Some sid \<longrightarrow> sid < length (bk_sessions bk)) \<and>
     (\<forall>k sid. ses k = Some sid \<longrightarrow> sid < length (bk_sessions bk))"

text \<open>A first hello: the relay lets the connection join.\<close>

lemma hello_simulated:
  assumes "handle_hello k a m r bk = Inr (s', bk')" "r \<in> set [ROLE_IDA, ROLE_WINDBG]" "ses k = None"
    and known: "sessions_known bk ses"
    and valid: "valid_envelope m"
  shows "relay_step (broker_relay bk ses) (broker_relay bk' (ses(k := s')))"
proof -
  let ?n = "length (bk_sessions bk)"
  let ?s = "new_session r k a m (bk_now bk)"
  have fields: "cs_role ?s = r" "cs_sock ?s = k" by (simp_all add: new_session_def Let_def)
  define bk1 where "bk1 = bk\<lparr>bk_sessions := bk_sessions bk @ [?s]\<rparr>"
  obtain old bk2 where reg: "register ?n bk1 = Inr (old, bk2)"
    and s': "s' = Some ?n" and out: "broker_relay bk' ses' = deliver k (create_hello_ack (jget m ''id'')) (broker_relay bk2 ses')" for ses'
    using assms(1) by (auto simp: handle_hello_def bk1_def Let_def res_bind_Inr_iff split: if_splits)
  have old_sock: "cs_sock ((bk_sessions bk @ [?s]) ! sid) = cs_sock (bk_sessions bk ! sid)"
    "cs_role ((bk_sessions bk @ [?s]) ! sid) = cs_role (bk_sessions bk ! sid)" if "sid < ?n" for sid
    using that by (simp_all add: nth_append)
  have bk2: "bk_sessions bk2 = bk_sessions bk @ [?s]" "bk_clients bk2 = dset r ?n (bk_clients bk)"
    "bk_broken bk2 = bk_broken bk" "bk_wire bk2 = bk_wire bk"
    "set (bk_closed bk2) = set (bk_closed bk) \<union> (set_option (ry_holder (broker_relay bk ses) r) - {k})"
    using reg assms(2) known fields
    by (auto simp: register_def bk1_def broker_relay_def close_sock_def nth_append sessions_known_def Let_def
        split: option.splits if_splits)
  have "broker_relay bk2 (ses(k := Some ?n)) = join k r (broker_relay bk ses)"
    using known fields by (auto simp: broker_relay_def bk2 join_def fun_eq_iff old_sock sessions_known_def
        intro!: option.map_cong)
  moreover have "ry_role (broker_relay bk ses) k = None" using assms(3) by (simp add: broker_relay_def)
  ultimately show ?thesis using relay_join [of _ k r] assms(2) own_messages(2) [OF envelope_id [OF valid]] by (simp add: s' out)
qed

lemma message_simulated:
  assumes "handle_message k a session m bk = Inr (s', bk')" "valid_envelope m" "ses k = session"
    and known: "sessions_known bk ses"
  shows "relay_step (broker_relay bk ses) (broker_relay bk' (ses(k := s')))"
proof (cases session)
  case None
  show ?thesis
  proof (cases "py_str (jget m ''type'') = TYPE_HELLO \<and> py_str (jget m ''role'') \<in> set [ROLE_IDA, ROLE_WINDBG]")
    case True
    with None assms hello_simulated [of k a m "py_str (jget m ''role'')" bk s' bk' ses] show ?thesis
      by (auto simp: handle_message_def Let_def split: if_splits)
  next
    case False
    with None assms(1-3) show ?thesis
      by (auto simp: handle_message_def Let_def send_raw_error_def fun_upd_idem intro!: relay_answer split: if_splits)
  qed
next
  case (Some sid)
  obtain r where r: "jget m ''role'' = JStr r" using assms(2) by (auto simp: valid_envelope_def)
  have upd: "ses(k := Some sid) = ses" using Some assms(3) by (simp add: fun_upd_idem)
  have touched: "cs_role (bk_sessions (touch sid bk) ! sid) = cs_role (bk_sessions bk ! sid)"
    using known Some assms(3) by (simp add: touch_def sessions_known_def)
  from Some assms(1) r consider "s' = Some sid" "r \<noteq> cs_role (bk_sessions bk ! sid)"
      "\<exists>k m. broker_made m \<and> broker_relay bk' ses = deliver k m (broker_relay bk ses)"
    | "s' = Some sid" "\<exists>k m. broker_made m \<and> broker_relay bk' ses = deliver k m (broker_relay bk ses)"
    | "s' = Some sid" "r = cs_role (bk_sessions bk ! sid)" "bk' = route_message sid m (touch sid bk)"
    by (auto simp: handle_message_def Let_def send_to_session_def split: if_splits) (metis own_messages envelope_id [OF assms(2)])+
  then show ?thesis
  proof cases
    case 3
    from route_simulated [OF assms(2), of "touch sid bk" sid ses k] 3 r touched Some assms(3)
    show ?thesis by (simp add: upd)
  qed (auto simp: upd intro!: relay_answer)
qed

lemma line_simulated:
  assumes "handle_line k a line (session, bk) = Inr (s', bk')" "ses k = session"
    and known: "sessions_known bk ses"
  shows "relay_step (broker_relay bk ses) (broker_relay bk' (ses(k := s')))"
proof (cases "list_all is_ascii_space line")
  case True
  with assms show ?thesis by (simp add: handle_line_def fun_upd_idem relay_quiet)
next
  case False
  show ?thesis
  proof (cases "res_bind (decode_jsonl_line line) (\<lambda>m. res_bind (validate_message_shape m) (\<lambda>_. Inr m))")
    case (Inl e)
    with False assms(1,2) show ?thesis
      by (auto simp: handle_line_def send_raw_error_def fun_upd_idem intro!: relay_answer split: py_error.splits)
  next
    case (Inr m)
    then have "valid_envelope m" by (auto simp: res_bind_Inr_iff validate_shape_iff)
    with Inr False assms(1,2) message_simulated [of k a session m bk s' bk' ses] known show ?thesis
      by (simp add: handle_line_def)
  qed
qed

text \<open>The end of a connection: the relay lets it leave.\<close>

lemma finish_simulated:
  assumes inv: "system_inv sy" and k: "dget (sy_conns sy) k = Some c"
  shows "relay_step (abs_relay sy)
    (broker_relay (finish_client k a (cn_session c) (sy_broker sy)) (conn_session (sy_conns sy)))"
proof -
  let ?bk = "sy_broker sy" and ?ses = "conn_session (sy_conns sy)"
  have ses: "?ses k = cn_session c" using k by (simp add: conn_session_def)
  have inv': "reg_inv (session_ids ?bk, bk_clients ?bk, bk_closed ?bk) ?ses (conn_reading (sy_conns sy))"
    using inv by (simp add: system_inv_def core_def)
  note D = reg_active [OF inv'] reg_conn [OF inv'] reg_session [OF inv']
  have sock: "?ses (cs_sock (bk_sessions ?bk ! sid)) = Some sid \<and> cs_role (bk_sessions ?bk ! sid) = r"
    if "dget (bk_clients ?bk) r = Some sid" for r sid
    using D(1) [OF that] D(2) [of sid] by (auto simp: session_ids_def)
  let ?bk' = "finish_client k a (cn_session c) ?bk"
  have kept: "bk_sessions ?bk' = bk_sessions ?bk" "bk_wire ?bk' = bk_wire ?bk" "bk_broken ?bk' = bk_broken ?bk"
    "set (bk_closed ?bk') = insert k (set (bk_closed ?bk))"
    by (auto simp: finish_client_def close_sock_def registry_remove_def log_line_def Let_def split: option.split)
  have cl: "bk_clients ?bk' = (case cn_session c of
         Some sid \<Rightarrow> if dget (bk_clients ?bk) (cs_role (bk_sessions ?bk ! sid)) = Some sid
                     then ddel (cs_role (bk_sessions ?bk ! sid)) (bk_clients ?bk) else bk_clients ?bk
       | None \<Rightarrow> bk_clients ?bk)"
    using finish_client_core [of k a "cn_session c" ?bk] by (simp add: core_def)
  have get: "dget (bk_clients ?bk') r =
      (if \<exists>sid. dget (bk_clients ?bk) r = Some sid \<and> cs_sock (bk_sessions ?bk ! sid) = k then None
       else dget (bk_clients ?bk) r)" for r
  proof (cases "cn_session c")
    case None
    with ses sock show ?thesis unfolding cl by fastforce
  next
    case (Some s)
    let ?r = "cs_role (bk_sessions ?bk ! s)"
    have "cs_sock (bk_sessions ?bk ! s) = k" using D(3) [of k s] ses Some by (auto simp: session_ids_def)
    then have held: "(\<exists>sid. dget (bk_clients ?bk) r = Some sid \<and> cs_sock (bk_sessions ?bk ! sid) = k) \<longleftrightarrow>
        r = ?r \<and> dget (bk_clients ?bk) ?r = Some s"
      by (metis sock ses Some option.inject)
    have "dget (bk_clients ?bk') r = (if r = ?r \<and> dget (bk_clients ?bk) ?r = Some s then None else dget (bk_clients ?bk) r)"
      unfolding cl unfolding Some option.case by simp
    then show ?thesis unfolding held .
  qed
  have "map_option (\<lambda>sid. cs_sock (bk_sessions ?bk ! sid)) (dget (bk_clients ?bk') r) =
      (if map_option (\<lambda>sid. cs_sock (bk_sessions ?bk ! sid)) (dget (bk_clients ?bk) r) = Some k then None
       else map_option (\<lambda>sid. cs_sock (bk_sessions ?bk ! sid)) (dget (bk_clients ?bk) r))" for r
    unfolding get by (cases "dget (bk_clients ?bk) r") auto
  then have "broker_relay ?bk' ?ses = leave k (abs_relay sy)"
    by (simp add: broker_relay_def abs_relay_def leave_def kept cong: if_cong)
  then show ?thesis by (simp add: relay_leave)
qed

lemma system_known: "system_inv sy \<Longrightarrow> sessions_known (sy_broker sy) (conn_session (sy_conns sy))"
  using system_inv_sessions [of sy]
  by (auto simp: sessions_known_def system_inv_def core_def session_ids_def dest!: reg_session)

lemma step_simulated: "broker_step sy sy' \<Longrightarrow> system_inv sy \<Longrightarrow> relay_step (abs_relay sy) (abs_relay sy')"
proof (induction rule: broker_step.induct)
  case (step_accept sy k a)
  then have "conn_session (sy_conns sy) k = None" by (simp add: conn_session_def)
  then show ?case by (simp add: accept_client_def abs_relay_def set_conn_def fun_upd_idem relay_quiet)
next
  case (step_recv sy k c chunk)
  then have "conn_session (sy_conns sy) k = cn_session c" by (simp add: conn_session_def)
  then show ?case by (simp add: abs_relay_def set_conn_def fun_upd_idem relay_quiet)
next
  case (step_line sy k c c' bk')
  let ?line = "takeWhile (\<lambda>x. x \<noteq> newline) (cn_buffer c)"
  have ses: "conn_session (sy_conns sy) k = cn_session c" using step_line by (simp add: conn_session_def)
  show ?case
  proof (cases "handle_line k (cn_address c) ?line (cn_session c, sy_broker sy)")
    case (Inl e)
    with step_line finish_simulated [OF step_line.prems step_line.hyps(1), of "cn_address c"] ses show ?thesis
      by (auto simp: line_result_def Let_def abs_relay_def set_conn_def fun_upd_idem)
  next
    case (Inr sb)
    with step_line.hyps(4) have "sb = (cn_session c', bk')" by (cases sb) (auto simp: line_result_def Let_def)
    with line_simulated [OF Inr [unfolded this] ses system_known [OF step_line.prems]] show ?thesis
      by (simp add: abs_relay_def set_conn_def)
  qed
next
  case (step_eof sy k c)
  then have "conn_session (sy_conns sy) k = cn_session c" by (simp add: conn_session_def)
  with finish_simulated [OF step_eof.prems step_eof.hyps(1)] show ?case
    by (simp add: abs_relay_def set_conn_def fun_upd_idem)
next
  case (step_clock sy t ks)
  have "abs_relay (sy\<lparr>sy_broker := (sy_broker sy)\<lparr>bk_now := t, bk_broken := ks\<rparr>\<rparr>) = (abs_relay sy)\<lparr>ry_gone := set ks\<rparr>"
    by (simp add: abs_relay_def broker_relay_def)
  then show ?case by (simp add: relay_peers)
qed

interpretation br: forward_simulation broker_step system_inv relay_step abs_relay
  by unfold_locales (blast intro: step_simulated)

lemma relay_writes_envelopes:
  assumes "\<forall>(k, l) \<in> set (ry_sent R). \<exists>m. valid_envelope m \<and> l = encode_jsonl m" "relay_step R R'"
  shows "\<forall>(k, l) \<in> set (ry_sent R'). \<exists>m. valid_envelope m \<and> l = encode_jsonl m"
  using assms(2,1)
  by (induction rule: relay_step.induct) (auto simp: deliver_def join_def leave_def broker_made_def)

lemma relay_started: "abs_relay (broker_start v t e) = relay_start" "system_inv (broker_start v t e)"
  using system_inv_reachable [of "broker_start v t e"]
  by (auto simp: abs_relay_def broker_relay_def broker_start_def relay_start_def conn_session_def broker_reachable_def)

text \<open>
  C11. The broker implements the relay: every reachable state of the broker abstracts to a state the
  relay reaches, every step of the broker is a step of the relay, and every line the broker has
  written is the encoding of a protocol envelope.
\<close>

theorem broker_refines_relay:
  assumes "broker_reachable sy" "broker_step sy sy'"
  shows "relay_step\<^sup>*\<^sup>* relay_start (abs_relay sy) \<and> relay_step (abs_relay sy) (abs_relay sy') \<and>
    (\<forall>(k, l) \<in> set (bk_wire (sy_broker sy')). \<exists>m. valid_envelope m \<and> l = encode_jsonl m)"
proof -
  from assms(1) obtain v t e where run: "broker_step\<^sup>*\<^sup>* (broker_start v t e) sy" by (auto simp: broker_reachable_def)
  with assms(2) have run': "broker_step\<^sup>*\<^sup>* (broker_start v t e) sy'" by simp
  have "\<forall>(k, l) \<in> set (ry_sent (abs_relay sy')). \<exists>m. valid_envelope m \<and> l = encode_jsonl m"
    by (rule br.transfer_invariant [OF run' relay_started(2)])
      (simp add: relay_started relay_start_def, rule relay_writes_envelopes)
  moreover have "ry_sent (abs_relay sy') = bk_wire (sy_broker sy')" by (simp add: abs_relay_def broker_relay_def)
  ultimately show ?thesis
    using br.run_simulates [OF run relay_started(2)] step_simulated [OF assms(2) system_inv_reachable [OF assms(1)]]
    by (simp add: relay_started(1))
qed

text \<open>The client that took the role over in the example history disconnects.\<close>

definition ex_second :: conn where
  "ex_second = the (dget (sy_conns ex_two) 2)"

definition ex_left :: system where
  "ex_left = set_conn 2 (ex_second\<lparr>cn_state := Finished\<rparr>)
     (finish_client 2 (cn_address ex_second) (cn_session ex_second) (sy_broker ex_two)) ex_two"

lemma broker_refines_relay_witness: "relay_step (abs_relay ex_two) (abs_relay ex_left)"
proof -
  have "case dget (sy_conns ex_two) 2 of None \<Rightarrow> False | Some c \<Rightarrow> cn_state c = Reading \<and> newline \<notin> set (cn_buffer c)"
    by code_simp
  then have "broker_step ex_two ex_left"
    unfolding ex_left_def by (intro step_eof) (auto simp: ex_second_def split: option.splits)
  with broker_refines_relay [OF ex_two_reachable] show ?thesis by blast
qed

end
