(* ===== verification/Hexrays_Variables.thy ===== *)
theory Hexrays_Variables
  imports Json "HOL-Library.Product_Lexorder"
begin

text \<open>
  \<^verbatim>\<open>ida_plugin/hexrays_variables.py\<close>: the variable records, the classification of lvars and the
  detection of function arguments. What IDA answers about a function and its lvars is a
  record of those answers, with missing methods and raised exceptions as values that the accessors
  handle; the regular expressions are written out as scans.
\<close>

section \<open>Records\<close>

record VariableRecord =
  vr_lvar_index :: int
  vr_name :: string
  vr_hexrays_kind :: string
  vr_type_string :: string
  vr_size :: int
  vr_is_arg :: bool
  vr_arg_index :: "nat option"
  vr_location :: string
  vr_function_ea :: string
  vr_function_start_ea :: int
  vr_value :: string
  vr_status :: string
  vr_confidence :: string
  vr_reason :: string
  vr_last_pc :: string
  vr_current_pc :: string
  vr_printed_location :: string
  vr_current_ea :: string
  vr_source_ea :: string
  vr_storage_kind :: string
  vr_storage :: string
  vr_current_pc_seq :: "int option"
  vr_last_success_value :: string
  vr_last_success_pc_seq :: "int option"
  vr_lvar_defea :: string

record ArgumentDetection =
  ad_is_arg :: bool
  ad_arg_index :: "nat option"
  ad_reason :: string

text \<open>
  What IDA answers about one lvar, its type object, and a decompiled function. An attribute or
  method that may be missing is an option, a call that may raise is a result. The printed location
  is absent when \<^verbatim>\<open>print_vdloc\<close> or the location is; \<open>cf_pseudocode\<close> is absent when the call raises; the
  details are those that \<^verbatim>\<open>get_func_details\<close> fills in, with the name of each argument.
\<close>

record type_object =
  to_dstr :: "string call"
  to_str :: string

record lvar =
  lv_name :: string
  lv_is_arg_var :: "bool call"
  lv_is_unknown_width :: "bool call"
  lv_width :: "int call"
  lv_print_vdloc :: "(int \<Rightarrow> string res) option"
  lv_is_reg_var :: "bool call"
  lv_is_stk_var :: "bool call"
  lv_tif :: "type_object option"
  lv_type :: "type_object option call"
  lv_defea :: "int option"

record int_vector =
  iv_size :: "int call"
  iv_len :: "int res"
  iv_item :: "int \<Rightarrow> int res"
  iv_at :: "int \<Rightarrow> int res"
  iv_iter :: "int list res"

record func_details =
  fd_size :: "int call"
  fd_len :: "int res"
  fd_at :: "(int \<Rightarrow> string res) option"
  fd_item :: "int \<Rightarrow> string res"

record cfunc =
  cf_lvars :: "lvar list"
  cf_argidx :: "int_vector option"
  cf_typeinf :: bool
  cf_get_func_type :: "bool call"
  cf_get_func_details :: "bool res"
  cf_details :: func_details
  cf_pseudocode :: "string list option"

record VariableEnumerationResult =
  ve_ok :: bool
  ve_function_start_ea :: "int option"
  ve_function_ea :: string
  ve_variables :: "VariableRecord list"
  ve_error :: string
  ve_cfunc :: "cfunc option"

definition STATUS_UNAVAILABLE :: string where "STATUS_UNAVAILABLE = ''unavailable''"
definition CONFIDENCE_UNSUPPORTED_VARIABLE :: string where
  "CONFIDENCE_UNSUPPORTED_VARIABLE = ''unsupported_variable''"
definition CONFIDENCE_UNKNOWN :: string where "CONFIDENCE_UNKNOWN = ''unknown''"
definition UNSUPPORTED_REASON :: string where
  "UNSUPPORTED_REASON = ''variable does not have a reliable runtime location in v1''"

text \<open>The dataclass constructor with the default of every field that has one.\<close>

definition VariableRecord_new ::
    "int \<Rightarrow> string \<Rightarrow> string \<Rightarrow> string \<Rightarrow> int \<Rightarrow> bool \<Rightarrow> nat option \<Rightarrow> string \<Rightarrow> string \<Rightarrow> int \<Rightarrow>
     VariableRecord" where
  "VariableRecord_new index name kind type_string sz is_arg arg_index location function_ea start =
     \<lparr>vr_lvar_index = index, vr_name = name, vr_hexrays_kind = kind, vr_type_string = type_string,
      vr_size = sz, vr_is_arg = is_arg, vr_arg_index = arg_index, vr_location = location,
      vr_function_ea = function_ea, vr_function_start_ea = start, vr_value = [],
      vr_status = STATUS_UNAVAILABLE, vr_confidence = CONFIDENCE_UNKNOWN, vr_reason = ''not evaluated'',
      vr_last_pc = [], vr_current_pc = [], vr_printed_location = [], vr_current_ea = [],
      vr_source_ea = [], vr_storage_kind = [], vr_storage = [], vr_current_pc_seq = None,
      vr_last_success_value = [], vr_last_success_pc_seq = None, vr_lvar_defea = []\<rparr>"

section \<open>Names\<close>

definition is_v_temporary_name :: "string \<Rightarrow> bool" where
  "is_v_temporary_name name \<longleftrightarrow> length name > 1 \<and> take 1 name = ''v'' \<and> py_isdigit (tl name)"

definition classify_lvar :: "string \<Rightarrow> bool \<Rightarrow> string" where
  "classify_lvar name is_arg =
     (if is_arg then ''arg'' else if is_v_temporary_name name then ''temporary'' else ''local'')"

definition unsupported_variable :: "string \<Rightarrow> int \<Rightarrow> int \<Rightarrow> string \<Rightarrow> int \<Rightarrow> string \<Rightarrow> VariableRecord" where
  "unsupported_variable name lvar_index sz type_string function_start_ea current_pc =
     (VariableRecord_new lvar_index name
        (if is_v_temporary_name name then ''temporary'' else ''unknown'') type_string sz False None
        ''unsupported'' (hex0x function_start_ea) function_start_ea)
     \<lparr>vr_status := STATUS_UNAVAILABLE, vr_confidence := CONFIDENCE_UNSUPPORTED_VARIABLE,
      vr_reason := UNSUPPORTED_REASON, vr_current_pc := current_pc, vr_printed_location := ''unsupported''\<rparr>"

section \<open>Accessors\<close>

definition lvar_bool_call :: "bool call \<Rightarrow> bool" where
  "lvar_bool_call m =
     (case m of
        None \<Rightarrow> False
      | Some (Inr b) \<Rightarrow> b
      | Some (Inl _) \<Rightarrow> False)"

definition safe_size :: "lvar \<Rightarrow> int" where
  "safe_size lv =
     (if lvar_bool_call (lv_is_unknown_width lv) then 0
      else case lv_width lv of None \<Rightarrow> 0 | Some (Inr w) \<Rightarrow> w | Some (Inl _) \<Rightarrow> 0)"

text \<open>Every object has \<^verbatim>\<open>__str__\<close>, which is what \<^verbatim>\<open>str\<close> calls.\<close>

fun first_type_text :: "string call list \<Rightarrow> string option" where
  "first_type_text [] = None"
| "first_type_text (Some (Inr t) # ms) =
     (if t \<noteq> [] \<and> t \<noteq> ''?'' then Some t else first_type_text ms)"
| "first_type_text (_ # ms) = first_type_text ms"

definition lvar_tif :: "lvar \<Rightarrow> type_object option" where
  "lvar_tif lv =
     (case lv_tif lv of
        Some tif \<Rightarrow> Some tif
      | None \<Rightarrow> (case lv_type lv of Some (Inr tif) \<Rightarrow> tif | _ \<Rightarrow> None))"

definition safe_type_string :: "lvar \<Rightarrow> string" where
  "safe_type_string lv =
     (case lvar_tif lv of
        None \<Rightarrow> []
      | Some tif \<Rightarrow>
          (case first_type_text [to_dstr tif, Some (Inr (to_str tif))] of
             Some t \<Rightarrow> t
           | None \<Rightarrow> to_str tif))"

text \<open>\<open>[int(accessor(idx)) for idx in range(size)]\<close>\<close>

definition read_vector :: "int_vector \<Rightarrow> (int \<Rightarrow> int res) \<Rightarrow> int list res" where
  "read_vector v accessor =
     res_bind (case iv_size v of Some n \<Rightarrow> n | None \<Rightarrow> iv_len v) (\<lambda>n. collect_all accessor [0..n - 1])"

fun first_nonempty :: "int list res list \<Rightarrow> int list option" where
  "first_nonempty [] = None"
| "first_nonempty (Inr (x # xs) # rs) = Some (x # xs)"
| "first_nonempty (_ # rs) = first_nonempty rs"

definition iter_cfunc_argidx :: "cfunc \<Rightarrow> int list" where
  "iter_cfunc_argidx cf =
     (case cf_argidx cf of
        None \<Rightarrow> []
      | Some v \<Rightarrow>
          (case first_nonempty (map (read_vector v) [iv_item v, iv_at v]) of
             Some values \<Rightarrow> values
           | None \<Rightarrow> (case iv_iter v of Inr values \<Rightarrow> values | Inl _ \<Rightarrow> [])))"

section \<open>Locations\<close>

definition printed_vdloc :: "lvar \<Rightarrow> int \<Rightarrow> string" where
  "printed_vdloc lv sz =
     (case lv_print_vdloc lv of
        None \<Rightarrow> []
      | Some p \<Rightarrow> (case p sz of Inr t \<Rightarrow> t | Inl _ \<Rightarrow> []))"

definition safe_location_string :: "lvar \<Rightarrow> int \<Rightarrow> string" where
  "safe_location_string lv sz =
     (if printed_vdloc lv sz \<noteq> [] then printed_vdloc lv sz
      else if lvar_bool_call (lv_is_reg_var lv) then ''hexrays_reg''
      else if lvar_bool_call (lv_is_stk_var lv) then ''hexrays_stack''
      else ''unknown'')"

definition safe_definition_ea :: "lvar \<Rightarrow> string" where
  "safe_definition_ea lv =
     (case lv_defea lv of
        None \<Rightarrow> []
      | Some v \<Rightarrow> if v < 0 \<or> v = push_bit 64 1 - 1 then [] else hex0x v)"

definition normalize_location :: "string \<Rightarrow> string" where
  "normalize_location location = filter (\<lambda>c. code c \<noteq> 96) (py_lower (py_strip location))"

text \<open>\<open>\w\<close> of a regular expression, on code points below 256.\<close>

definition is_word_char :: "char \<Rightarrow> bool" where
  "is_word_char c \<longleftrightarrow>
     (let n = code c
      in 48 \<le> n \<and> n \<le> 57 \<or> 65 \<le> n \<and> n \<le> 90 \<or> 97 \<le> n \<and> n \<le> 122 \<or> n = 95 \<or>
         n \<in> {170, 178, 179, 181, 185, 186, 188, 189, 190} \<or> 192 \<le> n \<and> n \<noteq> 215 \<and> n \<noteq> 247)"

text \<open>\<open>re.search(rf"\b{word}\b", s)\<close>; the flag says whether a word character precedes.\<close>

fun search_word :: "string \<Rightarrow> bool \<Rightarrow> string \<Rightarrow> bool" where
  "search_word word prev [] = False"
| "search_word word prev (c # s) =
     (\<not> prev \<and> py_startswith (c # s) word \<and>
        (case drop (length word) (c # s) of [] \<Rightarrow> True | d # _ \<Rightarrow> \<not> is_word_char d) \<or>
      search_word word (is_word_char c) s)"

text \<open>\<open>re.search(r"\^([0-9a-f]+)", s)\<close>: the digits of the first match.\<close>

definition is_lower_hex :: "char \<Rightarrow> bool" where
  "is_lower_hex c \<longleftrightarrow> 48 \<le> code c \<and> code c \<le> 57 \<or> 97 \<le> code c \<and> code c \<le> 102"

fun search_caret :: "string \<Rightarrow> string option" where
  "search_caret [] = None"
| "search_caret (c # s) =
     (if c = CHR ''^'' \<and> takeWhile is_lower_hex s \<noteq> [] then Some (takeWhile is_lower_hex s)
      else search_caret s)"

definition register_map :: "(string \<times> nat) list" where
  "register_map =
     [(''rcx'', 0), (''ecx'', 0), (''cx'', 0), (''cl'', 0),
      (''rdx'', 1), (''edx'', 1), (''dx'', 1), (''dl'', 1),
      (''r8'', 2), (''r8d'', 2), (''r8w'', 2), (''r8b'', 2),
      (''r9'', 3), (''r9d'', 3), (''r9w'', 3), (''r9b'', 3)]"

definition abi_arg_index_from_location :: "string \<Rightarrow> nat option" where
  "abi_arg_index_from_location location =
     (let normalized = normalize_location location
      in case List.find (\<lambda>(register, i). search_word register False normalized) register_map of
           Some (register, i) \<Rightarrow> Some i
         | None \<Rightarrow>
             (case search_caret normalized of
                None \<Rightarrow> None
              | Some digits \<Rightarrow>
                  (case parse_digits 16 0 True digits of
                     None \<Rightarrow> None
                   | Some offset \<Rightarrow>
                       if offset \<ge> 176 \<and> (offset - 176) mod 8 = 0 then Some (4 + (offset - 176) div 8)
                       else None)))"

section \<open>Prototypes\<close>

definition strip_ida_tags :: "string \<Rightarrow> string" where
  "strip_ida_tags s = filter (\<lambda>c. code c \<ge> 32 \<or> code c = 9) s"

text \<open>The loop of \<open>_split_args\<close>: \<open>cur\<close> is \<open>args_text[start:index]\<close>.\<close>

fun split_args_loop :: "nat \<Rightarrow> string \<Rightarrow> string \<Rightarrow> string list" where
  "split_args_loop depth cur [] = (if py_strip cur = [] then [] else [py_strip cur])"
| "split_args_loop depth cur (c # s) =
     (if c \<in> set ''([{<'' then split_args_loop (Suc depth) (cur @ [c]) s
      else if c \<in> set '')]}>'' then split_args_loop (depth - 1) (cur @ [c]) s
      else if c = CHR '','' \<and> depth = 0 then py_strip cur # split_args_loop depth [] s
      else split_args_loop depth (cur @ [c]) s)"

definition split_args :: "string \<Rightarrow> string list" where
  "split_args args_text = split_args_loop 0 [] args_text"

definition is_ident_start :: "char \<Rightarrow> bool" where
  "is_ident_start c \<longleftrightarrow> 65 \<le> code c \<and> code c \<le> 90 \<or> 97 \<le> code c \<and> code c \<le> 122 \<or> code c = 95"

definition is_ident_char :: "char \<Rightarrow> bool" where
  "is_ident_char c \<longleftrightarrow> is_ident_start c \<or> 48 \<le> code c \<and> code c \<le> 57"

text \<open>
  \<open>([A-Za-z_][A-Za-z0-9_]*)\s*(?:\[[^\]]*\])?\s*$\<close>: the leftmost identifier after which only an
  optional bracket group and white space follow.
\<close>

definition decl_tail_ok :: "string \<Rightarrow> bool" where
  "decl_tail_ok s =
     (let r = dropWhile py_isspace s
      in r = [] \<or>
         take 1 r = ''['' \<and>
           (let b = dropWhile (\<lambda>c. c \<noteq> CHR '']'') (tl r)
            in b \<noteq> [] \<and> list_all py_isspace (tl b)))"

fun search_decl :: "string \<Rightarrow> string option" where
  "search_decl [] = None"
| "search_decl (c # s) =
     (if is_ident_start c \<and> decl_tail_ok (dropWhile is_ident_char s)
      then Some (takeWhile is_ident_char (c # s))
      else search_decl s)"

definition decl_keywords :: "string list" where
  "decl_keywords =
     [''void'', ''char'', ''short'', ''int'', ''long'', ''float'', ''double'', ''signed'', ''unsigned'',
      ''const'', ''volatile'', ''struct'', ''union'', ''enum'']"

definition extract_decl_name :: "string \<Rightarrow> string" where
  "extract_decl_name arg_decl =
     (let s = py_strip arg_decl
      in if s = [] \<or> s = ''...'' then []
         else case search_decl (py_strip (takeWhile (\<lambda>c. c \<noteq> CHR ''='') s)) of
                None \<Rightarrow> []
              | Some name \<Rightarrow> if name \<in> set decl_keywords then [] else name)"

text \<open>The lines up to the first that contains a closing parenthesis, joined by spaces.\<close>

fun header_parts :: "string list \<Rightarrow> string list" where
  "header_parts [] = []"
| "header_parts (line # rest) =
     (let t = strip_ida_tags line
      in if CHR '')'' \<in> set t then [py_strip t] else py_strip t # header_parts rest)"

text \<open>\<open>re.search(r"\((.*)\)", header)\<close>: between the first opening and the last closing parenthesis.\<close>

definition paren_group :: "string \<Rightarrow> string option" where
  "paren_group header =
     (let after = tl (dropWhile (\<lambda>c. c \<noteq> CHR ''('') header);
          body = rev (dropWhile (\<lambda>c. c \<noteq> CHR '')'') (rev after))
      in if CHR ''('' \<in> set header \<and> CHR '')'' \<in> set after then Some (butlast body) else None)"

definition prototype_arg_names_from_pseudocode :: "cfunc \<Rightarrow> string list" where
  "prototype_arg_names_from_pseudocode cf =
     (case cf_pseudocode cf of
        None \<Rightarrow> []
      | Some ls \<Rightarrow>
          (case paren_group (join '' '' (header_parts ls)) of
             None \<Rightarrow> []
           | Some grp \<Rightarrow>
               let args_text = py_strip grp
               in if args_text = [] \<or> args_text = ''void'' then []
                  else filter (\<lambda>n. n \<noteq> []) (map extract_decl_name (split_args args_text))))"

text \<open>An argument whose name is empty or cannot be read is skipped.\<close>

definition details_names :: "func_details \<Rightarrow> string list" where
  "details_names fd =
     (let n = (case (case fd_size fd of Some n \<Rightarrow> n | None \<Rightarrow> fd_len fd) of Inr n \<Rightarrow> n | Inl _ \<Rightarrow> 0);
          name_at = (case fd_at fd of Some f \<Rightarrow> f | None \<Rightarrow> fd_item fd)
      in List.map_filter (\<lambda>i. case name_at i of Inr name \<Rightarrow> if name \<noteq> [] then Some name else None | Inl _ \<Rightarrow> None)
           [0..n - 1])"

definition prototype_arg_names_from_tinfo :: "cfunc \<Rightarrow> string list" where
  "prototype_arg_names_from_tinfo cf =
     (if \<not> cf_typeinf cf then []
      else case cf_get_func_type cf of
             Some (Inr True) \<Rightarrow>
               (case cf_get_func_details cf of
                  Inr True \<Rightarrow> details_names (cf_details cf)
                | _ \<Rightarrow> [])
           | _ \<Rightarrow> [])"

definition prototype_arg_names :: "cfunc \<Rightarrow> string list" where
  "prototype_arg_names cf =
     (let names = prototype_arg_names_from_tinfo cf
      in if names \<noteq> [] then names else prototype_arg_names_from_pseudocode cf)"

section \<open>Arguments\<close>

type_synonym detections = "(nat, ArgumentDetection) dict"

definition detected :: "nat \<Rightarrow> string \<Rightarrow> ArgumentDetection" where
  "detected i reason = \<lparr>ad_is_arg = True, ad_arg_index = Some i, ad_reason = reason\<rparr>"

definition next_arg_index :: "detections \<Rightarrow> nat" where
  "next_arg_index ds =
     (case List.map_filter (ad_arg_index \<circ> snd) ds of [] \<Rightarrow> 0 | i # js \<Rightarrow> Suc (fold max js i))"

definition detect_argidx :: "cfunc \<Rightarrow> detections" where
  "detect_argidx cf =
     fold (\<lambda>(arg_index, lvar_index) ds.
            if 0 \<le> lvar_index \<and> lvar_index < int (length (cf_lvars cf))
            then dset (nat lvar_index) (detected arg_index ''cfunc.argidx'') ds else ds)
       (List.enumerate 0 (iter_cfunc_argidx cf)) []"

definition detect_is_arg_var :: "lvar list \<Rightarrow> detections \<Rightarrow> detections" where
  "detect_is_arg_var lvars ds =
     fst (fold (\<lambda>(lvar_index, lv) (ds, next).
            if dget ds lvar_index = None \<and> lvar_bool_call (lv_is_arg_var lv)
            then (dset lvar_index (detected next ''lvar.is_arg_var()'') ds, Suc next)
            else (ds, next))
       (List.enumerate 0 lvars) (ds, next_arg_index ds))"

definition name_to_lvar_index :: "lvar list \<Rightarrow> (string, nat) dict" where
  "name_to_lvar_index lvars =
     fold (\<lambda>(lvar_index, lv). dset (lv_name lv) lvar_index) (List.enumerate 0 lvars) []"

definition detect_prototype :: "string list \<Rightarrow> lvar list \<Rightarrow> detections \<Rightarrow> detections" where
  "detect_prototype names lvars ds =
     fold (\<lambda>(proto_index, name) ds.
            case dget (name_to_lvar_index lvars) name of
              Some lvar_index \<Rightarrow>
                if dget ds lvar_index = None
                then dset lvar_index (detected proto_index ''function prototype'') ds else ds
            | None \<Rightarrow> ds)
       (List.enumerate 0 names) ds"

definition abi_candidates :: "lvar list \<Rightarrow> (nat \<times> nat \<times> string) list" where
  "abi_candidates lvars =
     List.map_filter (\<lambda>(lvar_index, lv).
         if is_v_temporary_name (lv_name lv) then None
         else let location = safe_location_string lv (safe_size lv)
              in map_option (\<lambda>i. (i, lvar_index, location)) (abi_arg_index_from_location location))
       (List.enumerate 0 lvars)"

definition by_arg_index :: "(nat \<times> nat \<times> string) list \<Rightarrow> (nat, nat \<times> string) dict" where
  "by_arg_index candidates =
     fold (\<lambda>(i, lvar_index, location) d.
            if dget d i = None then dset i (lvar_index, location) d else d)
       (sort_key (\<lambda>(i, l, loc). (i, l)) candidates) []"

text \<open>\<open>while expected in by_arg_index\<close>; the number of entries bounds the number of rounds.\<close>

fun take_consecutive :: "nat \<Rightarrow> (nat, nat \<times> string) dict \<Rightarrow> nat \<Rightarrow> detections \<Rightarrow> detections" where
  "take_consecutive 0 d expected ds = ds"
| "take_consecutive (Suc rounds) d expected ds =
     (case dget d expected of
        None \<Rightarrow> ds
      | Some (lvar_index, location) \<Rightarrow>
          take_consecutive rounds d (Suc expected)
            (dset lvar_index (detected expected (''ABI location '' @ location)) ds))"

definition detect_abi_location_arguments :: "lvar list \<Rightarrow> detections" where
  "detect_abi_location_arguments lvars =
     (let d = by_arg_index (abi_candidates lvars)
      in if dget d 0 = None then [] else take_consecutive (length d) d 0 [])"

definition detect_arguments :: "cfunc \<Rightarrow> detections" where
  "detect_arguments cf =
     (let lvars = cf_lvars cf;
          ds1 = detect_is_arg_var lvars (detect_argidx cf);
          names = prototype_arg_names cf;
          ds2 = (if names = [] then ds1 else detect_prototype names lvars ds1);
          used = List.map_filter (ad_arg_index \<circ> snd) ds2
      in fold (\<lambda>(lvar_index, detection) ds.
            if dget ds lvar_index \<noteq> None \<or> ad_arg_index detection \<in> Some ` set used then ds
            else dset lvar_index detection ds)
          (detect_abi_location_arguments lvars) ds2)"

section \<open>Enumeration\<close>

definition lvar_record :: "int \<Rightarrow> string \<Rightarrow> detections \<Rightarrow> nat \<times> lvar \<Rightarrow> VariableRecord" where
  "lvar_record function_start current_pc ds il =
     (case il of (lvar_index, lv) \<Rightarrow>
        let name = (if lv_name lv = [] then ''<unnamed>'' else lv_name lv);
            sz = safe_size lv;
            location = safe_location_string lv sz;
            detection = (case dget ds lvar_index of
                           Some d \<Rightarrow> d
                         | None \<Rightarrow> \<lparr>ad_is_arg = False, ad_arg_index = None,
                                    ad_reason = ''not detected as function argument''\<rparr>)
        in (VariableRecord_new (int lvar_index) name (classify_lvar name (ad_is_arg detection))
              (safe_type_string lv) sz (ad_is_arg detection) (ad_arg_index detection) location
              (hex0x function_start) function_start)
           \<lparr>vr_status := STATUS_UNAVAILABLE,
            vr_confidence := (if ad_is_arg detection then CONFIDENCE_UNKNOWN else CONFIDENCE_UNSUPPORTED_VARIABLE),
            vr_reason := (if ad_is_arg detection then ''argument detected by '' @ ad_reason detection
                          else UNSUPPORTED_REASON),
            vr_current_pc := current_pc, vr_printed_location := location,
            vr_lvar_defea := safe_definition_ea lv\<rparr>)"

datatype decompile_answer = DecompileRaised string | DecompileNone | Decompiled cfunc

text \<open>
  The answers: whether the APIs are there, the start of the function at \<open>ea\<close>, the decompiler.
\<close>

definition enumerate_hexrays_variables ::
    "bool \<Rightarrow> int option \<Rightarrow> decompile_answer \<Rightarrow> int \<Rightarrow> string \<Rightarrow> VariableEnumerationResult" where
  "enumerate_hexrays_variables apis func answer ea current_pc =
     (if \<not> apis
      then \<lparr>ve_ok = False, ve_function_start_ea = None, ve_function_ea = [], ve_variables = [],
            ve_error = ''IDA/Hex-Rays APIs are unavailable outside IDA'', ve_cfunc = None\<rparr>
      else case func of
             None \<Rightarrow> \<lparr>ve_ok = False, ve_function_start_ea = None, ve_function_ea = [], ve_variables = [],
                      ve_error = ''no IDA function contains ea='' @ hex0x ea, ve_cfunc = None\<rparr>
           | Some start \<Rightarrow>
               (case answer of
                  DecompileRaised err \<Rightarrow>
                    \<lparr>ve_ok = False, ve_function_start_ea = Some start, ve_function_ea = hex0x start,
                     ve_variables = [], ve_error = ''Hex-Rays decompilation failed: '' @ err,
                     ve_cfunc = None\<rparr>
                | DecompileNone \<Rightarrow>
                    \<lparr>ve_ok = False, ve_function_start_ea = Some start, ve_function_ea = hex0x start,
                     ve_variables = [], ve_error = ''Hex-Rays decompilation returned no cfunc'',
                     ve_cfunc = None\<rparr>
                | Decompiled cf \<Rightarrow>
                    \<lparr>ve_ok = True, ve_function_start_ea = Some start, ve_function_ea = hex0x start,
                     ve_variables = map (lvar_record start current_pc (detect_arguments cf))
                       (List.enumerate 0 (cf_lvars cf)),
                     ve_error = [], ve_cfunc = Some cf\<rparr>))"

section \<open>Properties of argument detection\<close>

definition detections_ok :: "nat \<Rightarrow> detections \<Rightarrow> bool" where
  "detections_ok n ds \<longleftrightarrow>
     (\<forall>(l, d) \<in> set ds. l < n \<and> ad_is_arg d \<and> ad_arg_index d \<noteq> None)"

lemma detections_ok_put:
  "detections_ok n ds \<Longrightarrow> l < n \<Longrightarrow> detections_ok n (dset l (detected i r) ds)"
  by (auto simp: detections_ok_def detected_def dest!: set_dset)

lemma fold_inv: "P s \<Longrightarrow> (\<And>x s. x \<in> set xs \<Longrightarrow> P s \<Longrightarrow> P (f x s)) \<Longrightarrow> P (fold f xs s)"
  by (induction xs arbitrary: s) auto

lemma enumerate_index: "(i, x) \<in> set (List.enumerate 0 xs) \<Longrightarrow> i < length xs"
  by (simp add: in_set_enumerate_eq)

lemma detect_argidx_ok: "detections_ok (length (cf_lvars cf)) (detect_argidx cf)"
  unfolding detect_argidx_def
  by (rule fold_inv) (auto simp: detections_ok_def [of _ "[]"] nat_less_iff intro!: detections_ok_put split: if_splits)

lemma detect_is_arg_var_ok:
  assumes "detections_ok (length lvars) ds"
  shows "detections_ok (length lvars) (detect_is_arg_var lvars ds)"
  unfolding detect_is_arg_var_def
  by (rule fold_inv [where P = "\<lambda>s. detections_ok (length lvars) (fst s)"])
     (use assms in \<open>auto intro!: detections_ok_put dest: enumerate_index split: if_splits prod.splits\<close>)

lemma name_index_bound: "dget (name_to_lvar_index lvars) name = Some l \<Longrightarrow> l < length lvars"
proof -
  have "\<forall>name l. dget (name_to_lvar_index lvars) name = Some l \<longrightarrow> l < length lvars"
    unfolding name_to_lvar_index_def
    by (rule fold_inv) (auto dest: enumerate_index split: if_splits prod.splits)
  then show "dget (name_to_lvar_index lvars) name = Some l \<Longrightarrow> l < length lvars" by blast
qed

lemma detect_prototype_ok:
  assumes "detections_ok (length lvars) ds"
  shows "detections_ok (length lvars) (detect_prototype names lvars ds)"
  unfolding detect_prototype_def
  by (rule fold_inv) (use assms in \<open>auto intro!: detections_ok_put dest: name_index_bound split: option.splits\<close>)

lemma by_arg_index_bound:
  assumes "dget (by_arg_index (abi_candidates lvars)) i = Some (l, loc)"
  shows "l < length lvars"
proof -
  let ?P = "\<lambda>d :: (nat, nat \<times> string) dict. \<forall>i l loc. dget d i = Some (l, loc) \<longrightarrow> l < length lvars"
  have "?P (by_arg_index (abi_candidates lvars))"
    unfolding by_arg_index_def
  proof (rule fold_inv)
    fix x d
    assume x: "x \<in> set (sort_key (\<lambda>(i, l, loc). (i, l)) (abi_candidates lvars))" and d: "?P d"
    from x have "fst (snd x) < length lvars"
      by (auto simp: abi_candidates_def set_map_filter_iff Let_def in_set_enumerate_eq split: if_splits)
    with d show "?P ((\<lambda>(i, l, loc) d. if dget d i = None then dset i (l, loc) d else d) x d)"
      by (auto split: prod.splits if_splits)
  qed simp
  with assms show ?thesis by blast
qed

lemma take_consecutive_ok:
  assumes "\<And>i l loc. dget d i = Some (l, loc) \<Longrightarrow> l < n" "detections_ok n ds"
  shows "detections_ok n (take_consecutive rounds d e ds)"
  using assms
proof (induction rounds d e ds rule: take_consecutive.induct)
  case (2 rounds d e ds)
  show ?case
  proof (cases "dget d e")
    case (Some ll)
    obtain l loc where ll: "ll = (l, loc)" by (cases ll)
    with 2(1) [OF Some ll [symmetric]] 2(2,3) Some show ?thesis by (auto intro: detections_ok_put)
  qed (use 2 in simp)
qed simp

lemma detect_abi_ok: "detections_ok (length lvars) (detect_abi_location_arguments lvars)"
proof -
  have "detections_ok (length lvars) []" by (simp add: detections_ok_def)
  then show ?thesis
    unfolding detect_abi_location_arguments_def
    by (auto simp: Let_def intro!: take_consecutive_ok dest: by_arg_index_bound)
qed

lemma detect_arguments_ok: "detections_ok (length (cf_lvars cf)) (detect_arguments cf)"
proof -
  let ?n = "length (cf_lvars cf)"
  let ?ds1 = "detect_is_arg_var (cf_lvars cf) (detect_argidx cf)"
  let ?ds2 = "if prototype_arg_names cf = [] then ?ds1
    else detect_prototype (prototype_arg_names cf) (cf_lvars cf) ?ds1"
  have base: "detections_ok ?n ?ds2"
    using detect_argidx_ok detect_is_arg_var_ok detect_prototype_ok by simp
  have step: "l < ?n \<and> ad_is_arg d \<and> ad_arg_index d \<noteq> None"
    if "(l, d) \<in> set (detect_abi_location_arguments (cf_lvars cf))" for l d
    using that detect_abi_ok [of "cf_lvars cf"] by (auto simp: detections_ok_def)
  show ?thesis
    unfolding detect_arguments_def Let_def
  proof (rule fold_inv [where P = "detections_ok ?n"], goal_cases)
    case 1
    show ?case using base .
  next
    case (2 x s)
    obtain l d where x: "x = (l, d)" by (cases x)
    with 2 step [of l d] show ?case by (auto simp: detections_ok_def dest!: set_dset)
  qed
qed

text \<open>
  The argument vector is read as a whole or not at all: when each accessor of the vector either
  raises or answers with the entries \<open>xs\<close>, the result is \<open>xs\<close> or empty, and it is \<open>xs\<close> when
  iterating over the vector works.
\<close>

definition vector_holds :: "int_vector \<Rightarrow> int list \<Rightarrow> bool" where
  "vector_holds v xs \<longleftrightarrow>
     (\<forall>n. (case iv_size v of Some n \<Rightarrow> n | None \<Rightarrow> iv_len v) = Inr n \<longrightarrow> n = int (length xs)) \<and>
     (\<forall>i x. i < length xs \<longrightarrow> (iv_item v (int i) = Inr x \<or> iv_at v (int i) = Inr x) \<longrightarrow> x = xs ! i) \<and>
     (\<forall>ys. iv_iter v = Inr ys \<longrightarrow> ys = xs)"

lemma read_vector_holds:
  assumes holds: "vector_holds v xs" and acc: "acc = iv_item v \<or> acc = iv_at v"
    and read: "read_vector v acc = Inr ys"
  shows "ys = xs"
proof -
  from read holds have c: "collect_all acc [0..int (length xs) - 1] = Inr ys"
    by (auto simp: read_vector_def vector_holds_def res_bind_Inr_iff)
  have len: "length ys = length xs" using collect_all_length [OF c] by simp
  moreover have "ys ! i = xs ! i" if "i < length xs" for i
    using collect_all_nth [OF c, of i] that holds acc by (auto simp: vector_holds_def)
  ultimately show ?thesis by (simp add: list_eq_iff_nth_eq)
qed

lemma argidx_all_or_nothing:
  assumes "cf_argidx cf = Some v" "vector_holds v xs"
  shows "iter_cfunc_argidx cf \<in> {[], xs}" "iv_iter v = Inr xs \<Longrightarrow> iter_cfunc_argidx cf = xs"
proof -
  have pick: "first_nonempty rs = Some ys \<Longrightarrow> Inr ys \<in> set rs" for rs ys
    by (induction rs rule: first_nonempty.induct) auto
  have got: "ys = xs" if "first_nonempty (map (read_vector v) [iv_item v, iv_at v]) = Some ys" for ys
    using pick [OF that] read_vector_holds [OF assms(2), of "iv_item v" ys]
      read_vector_holds [OF assms(2), of "iv_at v" ys] by auto
  have iter: "ys = xs" if "iv_iter v = Inr ys" for ys using assms(2) that by (simp add: vector_holds_def)
  show "iter_cfunc_argidx cf \<in> {[], xs}" "iv_iter v = Inr xs \<Longrightarrow> iter_cfunc_argidx cf = xs"
    by (cases "first_nonempty (map (read_vector v) [iv_item v, iv_at v])"; cases "iv_iter v";
        use got iter in \<open>simp add: iter_cfunc_argidx_def assms(1)\<close>)+
qed

text \<open>What the argument vector says is final: the later signals only add lvars.\<close>

lemma detect_argidx_position:
  assumes d: "distinct (iter_cfunc_argidx cf)" and k: "k < length (iter_cfunc_argidx cf)"
    and range: "0 \<le> iter_cfunc_argidx cf ! k" "iter_cfunc_argidx cf ! k < int (length (cf_lvars cf))"
  shows "dget (detect_argidx cf) (nat (iter_cfunc_argidx cf ! k)) = Some (detected k ''cfunc.argidx'')"
proof -
  let ?n = "int (length (cf_lvars cf))"
  let ?f = "\<lambda>(arg_index, lvar_index) ds. if 0 \<le> lvar_index \<and> lvar_index < ?n
            then dset (nat lvar_index) (detected arg_index ''cfunc.argidx'') ds else ds"
  have other: "x \<notin> set ys \<Longrightarrow> 0 \<le> x \<Longrightarrow> dget (fold ?f (List.enumerate m ys) ds) (nat x) = dget ds (nat x)" for x ys m ds
    by (induction ys arbitrary: m ds) auto
  have "distinct ys \<Longrightarrow> k < length ys \<Longrightarrow> 0 \<le> ys ! k \<Longrightarrow> ys ! k < ?n \<Longrightarrow>
      dget (fold ?f (List.enumerate m ys) ds) (nat (ys ! k)) = Some (detected (m + k) ''cfunc.argidx'')" for ys k m ds
  proof (induction ys arbitrary: k m ds)
    case (Cons y ys)
    show ?case
    proof (cases k)
      case 0
      with Cons.prems other [of y ys] show ?thesis by simp
    next
      case (Suc k')
      with Cons.prems Cons.IH [of k' "Suc m"] show ?thesis by simp
    qed
  qed simp
  from this [of "iter_cfunc_argidx cf" k 0 "[]"] d k range show ?thesis by (simp add: detect_argidx_def)
qed

lemma detect_is_arg_var_keeps: "dget ds l = Some d \<Longrightarrow> dget (detect_is_arg_var lvars ds) l = Some d"
  unfolding detect_is_arg_var_def
  by (rule fold_inv [where P = "\<lambda>s. dget (fst s) l = Some d"]) (auto split: if_splits prod.splits)

lemma detect_prototype_keeps: "dget ds l = Some d \<Longrightarrow> dget (detect_prototype names lvars ds) l = Some d"
  unfolding detect_prototype_def
  by (rule fold_inv [where P = "\<lambda>s. dget s l = Some d"]) (auto split: if_splits option.splits)

lemma detect_arguments_keeps:
  assumes "dget (detect_argidx cf) l = Some d"
  shows "dget (detect_arguments cf) l = Some d"
  unfolding detect_arguments_def Let_def
  by (rule fold_inv [where P = "\<lambda>s. dget s l = Some d"])
     (use assms in \<open>auto intro!: detect_is_arg_var_keeps detect_prototype_keeps split: if_splits\<close>)

text \<open>
  C40. Enumeration gives one record per lvar, in lvar order: record \<open>i\<close> has index \<open>i\<close>, the name of
  lvar \<open>i\<close> (or the placeholder), an argument index exactly when it is classified as an
  argument, and no runtime value. The lvar that the argument vector of the function lists at
  position \<open>k\<close> is argument \<open>k\<close>, whatever the other signals say.
\<close>

theorem enumeration_shape:
  assumes "cf_lvars cf = lvars" "iter_cfunc_argidx cf = argidx"
  shows "let vs = ve_variables (enumerate_hexrays_variables True (Some start) (Decompiled cf) ea pc)
    in length vs = length lvars \<and>
       (\<forall>i < length lvars.
          vr_lvar_index (vs ! i) = int i \<and>
          vr_name (vs ! i) = (if lv_name (lvars ! i) = [] then ''<unnamed>'' else lv_name (lvars ! i)) \<and>
          (vr_is_arg (vs ! i) \<longleftrightarrow> vr_arg_index (vs ! i) \<noteq> None) \<and>
          (vr_is_arg (vs ! i) \<longleftrightarrow> vr_hexrays_kind (vs ! i) = ''arg'') \<and>
          vr_value (vs ! i) = [] \<and> vr_status (vs ! i) = STATUS_UNAVAILABLE) \<and>
       (\<forall>k < length argidx. distinct argidx \<and> 0 \<le> argidx ! k \<and> argidx ! k < int (length lvars) \<longrightarrow>
          vr_arg_index (vs ! nat (argidx ! k)) = Some k)"
proof -
  let ?ds = "detect_arguments cf"
  have ok: "ad_is_arg d \<and> ad_arg_index d \<noteq> None" if "dget ?ds l = Some d" for l d
    using detect_arguments_ok [of cf] map_of_SomeD [OF that] by (auto simp: detections_ok_def)
  have rec: "lvar_record start pc ?ds (i, lvars ! i) = r \<Longrightarrow>
      vr_lvar_index r = int i \<and>
      vr_name r = (if lv_name (lvars ! i) = [] then ''<unnamed>'' else lv_name (lvars ! i)) \<and>
      (vr_is_arg r \<longleftrightarrow> vr_arg_index r \<noteq> None) \<and> (vr_is_arg r \<longleftrightarrow> vr_hexrays_kind r = ''arg'') \<and>
      vr_value r = [] \<and> vr_status r = STATUS_UNAVAILABLE" for i r
    by (cases "dget ?ds i")
       (auto simp: lvar_record_def Let_def VariableRecord_new_def classify_lvar_def dest: ok split: if_splits)
  let ?vs = "ve_variables (enumerate_hexrays_variables True (Some start) (Decompiled cf) ea pc)"
  have "length ?vs = length lvars" using assms by (simp add: enumerate_hexrays_variables_def)
  note len = this
  have nth: "?vs ! i = lvar_record start pc ?ds (i, lvars ! i)" if "i < length lvars" for i
    using assms that by (simp add: enumerate_hexrays_variables_def nth_enumerate_eq)
  have "vr_arg_index (?vs ! nat (argidx ! k)) = Some k"
    if "k < length argidx" "distinct argidx" "0 \<le> argidx ! k" "argidx ! k < int (length lvars)" for k
    using that detect_arguments_keeps [OF detect_argidx_position [of cf k]] assms
    by (simp add: nth nat_less_iff lvar_record_def Let_def VariableRecord_new_def detected_def)
  then show ?thesis unfolding Let_def using len rec [OF nth [symmetric]] by blast
qed

definition ex_lvar :: "string \<Rightarrow> string \<Rightarrow> lvar" where
  "ex_lvar name loc = \<lparr>lv_name = name, lv_is_arg_var = Some (Inr False), lv_is_unknown_width = None,
     lv_width = Some (Inr 8), lv_print_vdloc = Some (\<lambda>_. Inr loc), lv_is_reg_var = None, lv_is_stk_var = None,
     lv_tif = None, lv_type = None, lv_defea = None\<rparr>"

definition ex_details :: func_details where
  "ex_details = \<lparr>fd_size = Some (Inr 1), fd_len = Inr 1, fd_at = None, fd_item = (\<lambda>_. Inr ''a1'')\<rparr>"

definition ex_argidx :: int_vector where
  "ex_argidx = \<lparr>iv_size = None, iv_len = Inr 1, iv_item = (\<lambda>_. Inl (TypeError [])), iv_at = (\<lambda>_. Inr 0),
     iv_iter = Inr [0]\<rparr>"

definition ex_cfunc :: cfunc where
  "ex_cfunc = \<lparr>cf_lvars = [ex_lvar ''a1'' ''rcx.8'', ex_lvar ''v2'' ''rax.8''], cf_argidx = Some ex_argidx,
     cf_typeinf = True, cf_get_func_type = Some (Inr True), cf_get_func_details = Inr True,
     cf_details = ex_details, cf_pseudocode = None\<rparr>"

lemma ex_argidx_read: "iter_cfunc_argidx ex_cfunc = [0]"
  by (simp add: iter_cfunc_argidx_def ex_cfunc_def ex_argidx_def read_vector_def)

lemma enumeration_shape_witness:
  "let vs = ve_variables (enumerate_hexrays_variables True (Some 0x1000) (Decompiled ex_cfunc) 0x1000 [])
   in length vs = 2 \<and> vr_arg_index (vs ! 0) = Some 0"
  using enumeration_shape [OF refl ex_argidx_read, where start = "0x1000" and ea = "0x1000" and pc = "[]"]
  by (simp add: ex_cfunc_def Let_def)

section \<open>Stack argument locations\<close>

lemma search_word_absent: "c \<in> set word \<Longrightarrow> c \<notin> set s \<Longrightarrow> \<not> search_word word prev s"
proof (induction s arbitrary: prev)
  case (Cons a s)
  have "\<not> py_startswith (a # s) word"
  proof
    assume "py_startswith (a # s) word"
    then obtain t where "a # s = word @ t" by (auto simp: py_startswith_iff)
    then have "set word \<subseteq> set (a # s)" by (metis set_append sup_ge1)
    with Cons.prems show False by blast
  qed
  with Cons show ?case by simp
qed simp

lemma lower_hex_digit: "d < 16 \<Longrightarrow> is_lower_hex (digit_char d)"
  by (auto simp: is_lower_hex_def digit_char_def)

lemma hex_text_chars:
  assumes "c \<in> set (str_nat_base 16 n)"
  shows "is_lower_hex c" "py_lower_char c = c" "\<not> py_isspace c" "code c \<noteq> 96"
proof -
  show h: "is_lower_hex c"
    using assms nat_digits_bound [of 16 _ n] by (auto simp: str_nat_base_def lower_hex_digit)
  then show "py_lower_char c = c" "\<not> py_isspace c" "code c \<noteq> 96"
    by (auto simp: is_lower_hex_def py_lower_char_def py_isspace_def)
qed

lemma normalize_hex: "normalize_location (CHR ''^'' # str_nat_base 16 n) = CHR ''^'' # str_nat_base 16 n"
proof -
  let ?s = "CHR ''^'' # str_nat_base 16 n"
  have "py_strip ?s = ?s" using hex_text_chars(3) [of _ n] by (intro py_strip_id) (auto simp: py_isspace_def)
  moreover have "py_lower ?s = ?s"
    using hex_text_chars(2) [of _ n] by (auto simp: py_lower_def py_lower_char_def intro: map_idI)
  moreover have "filter (\<lambda>c. code c \<noteq> 96) ?s = ?s"
    using hex_text_chars(4) [of _ n] by (auto simp: filter_id_conv)
  ultimately show ?thesis by (simp add: normalize_location_def)
qed

lemma hex_text_no_register:
  "List.find (\<lambda>(register, i). search_word register False (CHR ''^'' # str_nat_base 16 n)) register_map = None"
proof -
  have absent: "CHR ''x'' \<notin> set (CHR ''^'' # str_nat_base 16 n)" "CHR ''l'' \<notin> set (CHR ''^'' # str_nat_base 16 n)"
    "CHR ''r'' \<notin> set (CHR ''^'' # str_nat_base 16 n)"
    using hex_text_chars(1) [of "CHR ''x''" n] hex_text_chars(1) [of "CHR ''l''" n]
      hex_text_chars(1) [of "CHR ''r''" n] by (auto simp: is_lower_hex_def)
  have "\<not> search_word w False (CHR ''^'' # str_nat_base 16 n)" if "(w, i) \<in> set register_map" for w i
  proof -
    have "CHR ''x'' \<in> set w \<or> CHR ''l'' \<in> set w \<or> CHR ''r'' \<in> set w"
      using that by (auto simp: register_map_def)
    with absent search_word_absent show ?thesis by blast
  qed
  then show ?thesis by (auto simp: find_None_iff)
qed

text \<open>
  The stack locations Hex-Rays prints for the fifth and later arguments map to their argument
  index: the location \<open>^(0xB0 + 8 n)\<close> is argument \<open>4 + n\<close>.
\<close>

lemma abi_stack_argument_index:
  "abi_arg_index_from_location (CHR ''^'' # str_nat_base 16 (176 + 8 * n)) = Some (4 + n)"
proof -
  let ?h = "str_nat_base 16 (176 + 8 * n)"
  have tw: "takeWhile is_lower_hex ?h = ?h" using hex_text_chars(1) by (auto simp: takeWhile_eq_all_conv)
  have "?h \<noteq> []" by (simp add: str_nat_base_def nat_digits_nonempty)
  then have "search_caret (CHR ''^'' # ?h) = Some ?h" by (simp add: tw del: takeWhile_eq_all_conv)
  moreover have "parse_digits 16 0 True ?h = Some (176 + 8 * n)" by (rule parse_str_nat_base) auto
  ultimately show ?thesis
    unfolding abi_arg_index_from_location_def Let_def normalize_hex hex_text_no_register by simp
qed

end
