(* ===== verification/Dynvar_Core.thy ===== *)
theory Dynvar_Core
  imports Hexrays_Variables
begin

text \<open>
  \<^verbatim>\<open>ida_plugin/dynvar_core.py\<close>: the correlation state of the IDA plugin, the plan of runtime
  requests for the arguments of a function, and the application of runtime responses.
\<close>

definition STATUS_FRESH :: string where "STATUS_FRESH = ''fresh''"
definition STATUS_STALE :: string where "STATUS_STALE = ''stale''"
definition STATUS_ERROR :: string where "STATUS_ERROR = ''error''"
definition CONFIDENCE_EXACT_ENTRY :: string where "CONFIDENCE_EXACT_ENTRY = ''exact_entry''"
definition CONFIDENCE_STALE_ENTRY_VALUE :: string where
  "CONFIDENCE_STALE_ENTRY_VALUE = ''stale_entry_value''"
definition CONFIDENCE_READ_FAILED :: string where "CONFIDENCE_READ_FAILED = ''read_failed''"

lemmas status_defs = STATUS_FRESH_def STATUS_STALE_def STATUS_ERROR_def STATUS_UNAVAILABLE_def

definition ENTRY_REGISTERS :: "string list" where
  "ENTRY_REGISTERS = [''rcx'', ''rdx'', ''r8'', ''r9'']"

section \<open>State\<close>

record PcContext =
  px_pc_seq :: int
  px_runtime_pc :: string
  px_ida_ea :: string
  px_function_ea :: string
  px_at_function_entry :: bool

record PendingRequest =
  pr_kind :: string
  pr_pc_seq :: int
  pr_request_id :: string
  pr_runtime_pc :: string
  pr_variable_names :: "string list"
  pr_registers :: "string list"
  pr_address :: string
  pr_size :: int

record RuntimeRequestPlan =
  rp_register_request :: "payload option"
  rp_debug_lines :: "string list"

record DayVarCore =
  dc_next_message_id :: int
  dc_current_pc :: "PcContext option"
  dc_pending_requests :: "(string, PendingRequest) dict"
  dc_rows :: "VariableRecord list"

definition is_current_response :: "int \<Rightarrow> int \<Rightarrow> bool" where
  "is_current_response response_pc_seq current_pc_seq \<longleftrightarrow> response_pc_seq = current_pc_seq"

definition take_message_id :: "DayVarCore \<Rightarrow> int \<times> DayVarCore" where
  "take_message_id c = (dc_next_message_id c, c\<lparr>dc_next_message_id := dc_next_message_id c + 1\<rparr>)"

definition envelope :: "string \<Rightarrow> payload \<Rightarrow> DayVarCore \<Rightarrow> payload \<times> DayVarCore" where
  "envelope message_type p c =
     (case take_message_id c of (i, c') \<Rightarrow>
        ([(''protocol'', JInt 1), (''id'', JInt i), (''type'', JStr message_type), (''role'', JStr ''ida''),
          (''payload'', JObj p)], c'))"

definition make_hello :: "string \<Rightarrow> DayVarCore \<Rightarrow> payload \<times> DayVarCore" where
  "make_hello ida_version =
     envelope ''hello'' [(''client_name'', JStr ''dayvar-ida-plugin''), (''version'', JStr ''0.1''),
       (''ida_version'', JStr ida_version)]"

definition start_pc_context :: "PcContext \<Rightarrow> DayVarCore \<Rightarrow> DayVarCore" where
  "start_pc_context px c = c\<lparr>dc_current_pc := Some px, dc_pending_requests := []\<rparr>"

definition make_ida_pc_mapped ::
    "int \<Rightarrow> string \<Rightarrow> string option \<Rightarrow> string \<Rightarrow> string \<Rightarrow> bool \<Rightarrow> string option \<Rightarrow> DayVarCore \<Rightarrow>
     payload \<times> DayVarCore" where
  "make_ida_pc_mapped pc_seq runtime_pc ida_ea module_name ida_imagebase ok err =
     envelope ''ida_pc_mapped''
       ([(''pc_seq'', JInt pc_seq), (''runtime_pc'', JStr runtime_pc), (''module'', JStr module_name),
         (''ida_imagebase'', JStr ida_imagebase), (''ok'', JBool ok)] @
        (case ida_ea of None \<Rightarrow> [] | Some e \<Rightarrow> [(''ida_ea'', JStr e)]) @
        (case err of None \<Rightarrow> [] | Some e \<Rightarrow> [(''error'', JStr e)]))"

section \<open>Helpers\<close>

text \<open>\<open>STACK_ARG_BASE_OFFSET + STACK_ARG_SLOT_SIZE * (arg_index - 4)\<close>\<close>

definition stack_arg_offset :: "nat \<Rightarrow> int" where
  "stack_arg_offset arg_index = 40 + 8 * (int arg_index - 4)"

definition runtime_read_size :: "int \<Rightarrow> int" where
  "runtime_read_size variable_size = (if variable_size \<in> set [1, 2, 4, 8] then variable_size else 8)"

definition format_hex_value :: "string \<Rightarrow> int \<Rightarrow> string" where
  "format_hex_value value variable_size =
     (case py_int0 value of
        None \<Rightarrow> value
      | Some number \<Rightarrow>
          if variable_size \<in> set [1, 2, 4, 8]
          then hex0x (number AND (push_bit (nat (variable_size * 8)) 1 - 1))
          else hex0x number)"

definition format_memory_value :: "string \<Rightarrow> int \<Rightarrow> string" where
  "format_memory_value bytes_hex sz =
     (if sz \<notin> set [1, 2, 4, 8] then bytes_hex
      else case bytes_fromhex bytes_hex of
             None \<Rightarrow> bytes_hex
           | Some data \<Rightarrow>
               if int (length data) < sz then bytes_hex
               else hex0x (int (from_bytes_little (take (nat sz) data))))"

definition error_reason :: "payload \<Rightarrow> string" where
  "error_reason p =
     (case jget p ''error'' of
        JObj e \<Rightarrow>
          (case jget e ''message'' of
             JStr m \<Rightarrow> if m \<noteq> [] then m else ''runtime read failed''
           | _ \<Rightarrow> ''runtime read failed'')
      | JStr m \<Rightarrow> if m \<noteq> [] then m else ''runtime read failed''
      | _ \<Rightarrow> ''runtime read failed'')"

section \<open>The entry plan\<close>

record plan_acc =
  pa_rows :: "VariableRecord list"
  pa_registers :: "string list"
  pa_reg_variables :: "string list"
  pa_stack_variables :: "string list"
  pa_needs_rsp :: bool
  pa_debug :: "string list"

definition previous_rows :: "VariableRecord list \<Rightarrow> (string \<times> string, VariableRecord) dict" where
  "previous_rows rows = fold (\<lambda>row. dset (vr_function_ea row, vr_name row) row) rows []"

text \<open>One pass of the loop over the variables.\<close>

definition plan_variable ::
    "(string \<times> string, VariableRecord) dict \<Rightarrow> bool \<Rightarrow> string \<Rightarrow> VariableRecord \<Rightarrow> plan_acc \<Rightarrow> plan_acc" where
  "plan_variable prev at_entry runtime_pc variable acc =
     (let row = variable\<lparr>vr_current_pc := runtime_pc\<rparr>
      in case (if vr_is_arg row then vr_arg_index row else None) of
           None \<Rightarrow>
             acc\<lparr>pa_rows := pa_rows acc @
               [row\<lparr>vr_status := STATUS_UNAVAILABLE, vr_confidence := CONFIDENCE_UNSUPPORTED_VARIABLE,
                    vr_location := (if vr_location row = [] then ''unsupported'' else vr_location row),
                    vr_reason := UNSUPPORTED_REASON\<rparr>]\<rparr>
         | Some arg_index \<Rightarrow>
             let acc = acc\<lparr>pa_debug := pa_debug acc @
                   [''detected arg'' @ str_int (int arg_index) @ '' name='' @ vr_name row @
                    '' location='' @ vr_location row]\<rparr>
             in if \<not> at_entry
                then acc\<lparr>pa_rows := pa_rows acc @
                  [case dget prev (vr_function_ea row, vr_name row) of
                     Some prior \<Rightarrow>
                       if vr_value prior \<noteq> []
                       then row\<lparr>vr_value := vr_value prior,
                                vr_last_pc := (if vr_last_pc prior \<noteq> [] then vr_last_pc prior else vr_current_pc prior),
                                vr_status := STATUS_STALE, vr_confidence := CONFIDENCE_STALE_ENTRY_VALUE,
                                vr_location := vr_location prior,
                                vr_reason := ''entry argument value is stale; current PC is not function entry''\<rparr>
                       else row\<lparr>vr_status := STATUS_UNAVAILABLE, vr_confidence := CONFIDENCE_UNKNOWN,
                                vr_reason := ''argument mapping is exact only at function entry''\<rparr>
                   | None \<Rightarrow> row\<lparr>vr_status := STATUS_UNAVAILABLE, vr_confidence := CONFIDENCE_UNKNOWN,
                                 vr_reason := ''argument mapping is exact only at function entry''\<rparr>]\<rparr>
                else if arg_index < length ENTRY_REGISTERS
                then let register = ENTRY_REGISTERS ! arg_index
                     in acc\<lparr>pa_registers := (if register \<in> set (pa_registers acc) then pa_registers acc
                                             else pa_registers acc @ [register]),
                            pa_reg_variables := pa_reg_variables acc @ [vr_name row],
                            pa_rows := pa_rows acc @
                              [row\<lparr>vr_location := register, vr_status := STATUS_UNAVAILABLE,
                                   vr_confidence := CONFIDENCE_UNKNOWN,
                                   vr_reason := ''waiting for '' @ register @ '' at function entry''\<rparr>]\<rparr>
                else acc\<lparr>pa_needs_rsp := True, pa_stack_variables := pa_stack_variables acc @ [vr_name row],
                         pa_rows := pa_rows acc @
                           [row\<lparr>vr_location := ''[rsp + '' @ hex0x (stack_arg_offset arg_index) @ '']'',
                                vr_status := STATUS_UNAVAILABLE, vr_confidence := CONFIDENCE_UNKNOWN,
                                vr_reason := ''waiting for rsp to request stack argument''\<rparr>]\<rparr>)"

definition names_text :: "string list \<Rightarrow> string" where
  "names_text names = py_repr (JList (map JStr names))"

definition plan_variables :: "VariableRecord list \<Rightarrow> PcContext \<Rightarrow> VariableRecord list \<Rightarrow> plan_acc" where
  "plan_variables variables px old_rows =
     fold (plan_variable (previous_rows old_rows) (px_at_function_entry px) (px_runtime_pc px)) variables
       \<lparr>pa_rows = [], pa_registers = [], pa_reg_variables = [], pa_stack_variables = [], pa_needs_rsp = False,
        pa_debug = [''request plan function='' @ px_function_ea px @ '' at_entry='' @
          py_repr (JBool (px_at_function_entry px)) @ '' variables='' @ str_int (int (length variables))]\<rparr>"

definition plan_registers :: "plan_acc \<Rightarrow> string list" where
  "plan_registers acc =
     (if pa_needs_rsp acc \<and> ''rsp'' \<notin> set (pa_registers acc) then pa_registers acc @ [''rsp'']
      else pa_registers acc)"

definition plan_debug :: "plan_acc \<Rightarrow> string list" where
  "plan_debug acc =
     pa_debug acc @ [''registers requested='' @ names_text (plan_registers acc),
       ''stack args requested='' @ names_text (pa_stack_variables acc)]"

text \<open>The pending entry and the message of the register request.\<close>

definition request_registers :: "PcContext \<Rightarrow> plan_acc \<Rightarrow> DayVarCore \<Rightarrow> payload \<times> DayVarCore" where
  "request_registers px acc c =
     (let request_id = ''reg-'' @ str_int (px_pc_seq px) @ ''-entry'';
          pending = \<lparr>pr_kind = ''reg'', pr_pc_seq = px_pc_seq px, pr_request_id = request_id,
             pr_runtime_pc = px_runtime_pc px, pr_variable_names = pa_reg_variables acc,
             pr_registers = plan_registers acc, pr_address = [], pr_size = 0\<rparr>
      in envelope ''reg_request''
           [(''pc_seq'', JInt (px_pc_seq px)), (''request_id'', JStr request_id),
            (''runtime_pc'', JStr (px_runtime_pc px)), (''registers'', JList (map JStr (plan_registers acc))),
            (''reason'', JStr ''auto_live_refresh'')]
           (c\<lparr>dc_pending_requests := dset request_id pending (dc_pending_requests c)\<rparr>))"

definition build_entry_plan ::
    "VariableRecord list \<Rightarrow> PcContext \<Rightarrow> DayVarCore \<Rightarrow> RuntimeRequestPlan \<times> DayVarCore" where
  "build_entry_plan variables px c =
     (let c1 = start_pc_context px c;
          acc = plan_variables variables px (dc_rows c1);
          c2 = c1\<lparr>dc_rows := pa_rows acc\<rparr>
      in if plan_registers acc = []
         then (\<lparr>rp_register_request = None,
                rp_debug_lines = plan_debug acc @ [''no reg_request sent: no supported entry arguments detected'']\<rparr>, c2)
         else case request_registers px acc c2 of
                (message, c3) \<Rightarrow> (\<lparr>rp_register_request = Some message, rp_debug_lines = plan_debug acc\<rparr>, c3))"

section \<open>Responses\<close>

definition take_pending_response ::
    "payload \<Rightarrow> string \<Rightarrow> DayVarCore \<Rightarrow> (PendingRequest option \<times> string) \<times> DayVarCore" where
  "take_pending_response p expected_kind c =
     (case dc_current_pc c of
        None \<Rightarrow> ((None, ''no current pc context''), c)
      | Some px \<Rightarrow>
          if \<not> json_eq_int (jget p ''pc_seq'') (px_pc_seq px)
          then ((None, ''stale pc_seq='' @ py_str (jget p ''pc_seq'') @ '' current='' @ str_int (px_pc_seq px)), c)
          else if json_truthy (jget p ''runtime_pc'') \<and> \<not> json_eq_str (jget p ''runtime_pc'') (px_runtime_pc px)
          then ((None, ''runtime_pc does not match current context''), c)
          else case json_str (jget p ''request_id'') of
                 None \<Rightarrow> ((None, ''missing request_id''), c)
               | Some request_id \<Rightarrow>
                   (case dget (dc_pending_requests c) request_id of
                      None \<Rightarrow> ((None, ''unexpected request_id='' @ repr_str request_id), c)
                    | Some pending \<Rightarrow>
                        if pr_kind pending \<noteq> expected_kind
                        then ((None, ''unexpected response kind for request_id='' @ repr_str request_id), c)
                        else ((Some pending, ''accepted''),
                              c\<lparr>dc_pending_requests := ddel request_id (dc_pending_requests c)\<rparr>)))"

definition set_error :: "string \<Rightarrow> VariableRecord \<Rightarrow> VariableRecord" where
  "set_error reason row =
     row\<lparr>vr_status := STATUS_ERROR, vr_confidence := CONFIDENCE_READ_FAILED, vr_reason := reason\<rparr>"

definition mark_rows_error :: "string list \<Rightarrow> string \<Rightarrow> DayVarCore \<Rightarrow> DayVarCore" where
  "mark_rows_error names reason c =
     c\<lparr>dc_rows := map (\<lambda>row. if vr_name row \<in> set names then set_error reason row else row) (dc_rows c)\<rparr>"

definition stack_index :: "VariableRecord \<Rightarrow> nat option" where
  "stack_index row =
     (case (if vr_is_arg row then vr_arg_index row else None) of
        Some i \<Rightarrow> if length ENTRY_REGISTERS \<le> i then Some i else None
      | None \<Rightarrow> None)"

definition mark_stack_rows_error :: "string \<Rightarrow> DayVarCore \<Rightarrow> DayVarCore" where
  "mark_stack_rows_error reason c =
     c\<lparr>dc_rows := map (\<lambda>row. if stack_index row \<noteq> None then set_error reason row else row) (dc_rows c)\<rparr>"

text \<open>The memory request of one stack argument.\<close>

definition request_stack_row ::
    "int \<Rightarrow> PendingRequest \<Rightarrow> nat \<Rightarrow> VariableRecord \<Rightarrow> DayVarCore \<Rightarrow> payload \<times> DayVarCore" where
  "request_stack_row rsp pending arg_index row c =
     (let address_text = hex0x (rsp + stack_arg_offset arg_index);
          request_id = ''mem-'' @ str_int (pr_pc_seq pending) @ ''-'' @ vr_name row;
          sz = runtime_read_size (vr_size row);
          request = \<lparr>pr_kind = ''mem'', pr_pc_seq = pr_pc_seq pending, pr_request_id = request_id,
             pr_runtime_pc = pr_runtime_pc pending, pr_variable_names = [vr_name row], pr_registers = [],
             pr_address = address_text, pr_size = sz\<rparr>
      in envelope ''mem_request''
           [(''pc_seq'', JInt (pr_pc_seq pending)), (''request_id'', JStr request_id),
            (''runtime_pc'', JStr (pr_runtime_pc pending)), (''address'', JStr address_text),
            (''size'', JInt sz), (''reason'', JStr ''stack_arg''), (''variable'', JStr (vr_name row))]
           (c\<lparr>dc_pending_requests := dset request_id request (dc_pending_requests c)\<rparr>))"

definition waiting_stack_row :: "int \<Rightarrow> nat \<Rightarrow> VariableRecord \<Rightarrow> VariableRecord" where
  "waiting_stack_row rsp arg_index row =
     row\<lparr>vr_location := hex0x (rsp + stack_arg_offset arg_index),
         vr_reason := ''waiting for stack argument memory read''\<rparr>"

text \<open>The loop over the rows in \<open>_build_stack_mem_requests\<close>; the rows done so far come first.\<close>

fun stack_requests ::
    "int \<Rightarrow> PendingRequest \<Rightarrow> VariableRecord list \<Rightarrow> VariableRecord list \<times> payload list \<times> DayVarCore \<Rightarrow>
     VariableRecord list \<times> payload list \<times> DayVarCore" where
  "stack_requests rsp pending [] st = st"
| "stack_requests rsp pending (row # rows) (seen, messages, c) =
     (case stack_index row of
        None \<Rightarrow> stack_requests rsp pending rows (seen @ [row], messages, c)
      | Some arg_index \<Rightarrow>
          (case request_stack_row rsp pending arg_index row c of
             (message, c') \<Rightarrow>
               stack_requests rsp pending rows
                 (seen @ [waiting_stack_row rsp arg_index row], messages @ [message], c')))"

definition build_stack_mem_requests ::
    "payload \<Rightarrow> PendingRequest \<Rightarrow> DayVarCore \<Rightarrow> payload list \<times> DayVarCore" where
  "build_stack_mem_requests registers pending c =
     (case json_str (jget registers ''rsp'') of
        None \<Rightarrow> ([], mark_stack_rows_error ''rsp missing from register response'' c)
      | Some rsp_text \<Rightarrow>
          if rsp_text = [] then ([], mark_stack_rows_error ''rsp missing from register response'' c)
          else case py_int0 rsp_text of
                 None \<Rightarrow> ([], mark_stack_rows_error (''invalid rsp value '' @ repr_str rsp_text) c)
               | Some rsp \<Rightarrow>
                   (case stack_requests rsp pending (dc_rows c) ([], [], c) of
                      (rows, messages, c') \<Rightarrow> (messages, c'\<lparr>dc_rows := rows\<rparr>)))"

text \<open>One row of the loop in \<open>apply_reg_response\<close>.\<close>

definition apply_register_row :: "payload \<Rightarrow> PendingRequest \<Rightarrow> VariableRecord \<Rightarrow> VariableRecord" where
  "apply_register_row registers pending row =
     (case (if vr_is_arg row then vr_arg_index row else None) of
        None \<Rightarrow> row
      | Some i \<Rightarrow>
          if length ENTRY_REGISTERS \<le> i then row
          else let register = ENTRY_REGISTERS ! i
               in case json_str (jget registers register) of
                    Some value \<Rightarrow>
                      if value \<noteq> []
                      then row\<lparr>vr_value := format_hex_value value (vr_size row), vr_status := STATUS_FRESH,
                               vr_confidence := CONFIDENCE_EXACT_ENTRY, vr_location := register,
                               vr_reason := register @ '' at exact function entry'',
                               vr_last_pc := pr_runtime_pc pending\<rparr>
                      else set_error (''register '' @ register @ '' missing from response'') row
                  | None \<Rightarrow> set_error (''register '' @ register @ '' missing from response'') row)"

definition apply_reg_response :: "payload \<Rightarrow> DayVarCore \<Rightarrow> (bool \<times> string \<times> payload list) \<times> DayVarCore" where
  "apply_reg_response p c =
     (case take_pending_response p ''reg'' c of ((pending_opt, reason), c1) \<Rightarrow>
        case pending_opt of
          None \<Rightarrow> ((False, reason, []), c1)
        | Some pending \<Rightarrow>
            if jget p ''ok'' \<noteq> JBool True
            then ((True, ''register read failed'', []),
                  mark_rows_error (pr_variable_names pending) ''register read failed'' c1)
            else case json_obj (jget p ''registers'') of
                   None \<Rightarrow> ((True, ''reg_response missing registers'', []),
                            mark_rows_error (pr_variable_names pending) ''reg_response missing registers'' c1)
                 | Some registers \<Rightarrow>
                     (case build_stack_mem_requests registers pending
                             (c1\<lparr>dc_rows := map (apply_register_row registers pending) (dc_rows c1)\<rparr>) of
                        (messages, c2) \<Rightarrow> ((True, ''accepted'', messages), c2)))"

definition apply_memory_row :: "payload \<Rightarrow> PendingRequest \<Rightarrow> VariableRecord \<Rightarrow> VariableRecord" where
  "apply_memory_row p pending row =
     (if vr_name row \<notin> set (pr_variable_names pending) then row
      else let row = row\<lparr>vr_location := pr_address pending, vr_last_pc := pr_runtime_pc pending\<rparr>
           in if jget p ''ok'' = JBool True
              then let bytes_hex = py_str (jget_or p ''bytes_hex'' (JStr []))
                   in row\<lparr>vr_value := format_memory_value bytes_hex (pr_size pending),
                          vr_status := STATUS_FRESH, vr_confidence := CONFIDENCE_EXACT_ENTRY,
                          vr_reason := ''stack argument memory read at exact function entry raw='' @ bytes_hex\<rparr>
              else set_error (error_reason p) row)"

definition apply_mem_response :: "payload \<Rightarrow> DayVarCore \<Rightarrow> (bool \<times> string) \<times> DayVarCore" where
  "apply_mem_response p c =
     (case take_pending_response p ''mem'' c of ((pending_opt, reason), c1) \<Rightarrow>
        case pending_opt of
          None \<Rightarrow> ((False, reason), c1)
        | Some pending \<Rightarrow>
            ((True, ''accepted''), c1\<lparr>dc_rows := map (apply_memory_row p pending) (dc_rows c1)\<rparr>))"

end
