(* ===== verification/Registers.thy ===== *)
theory Registers
  imports Json "HOL-Library.List_Lexorder" "HOL-Library.Char_ord" "HOL-Library.Product_Lexorder"
begin

text \<open>
  The register table and the value codecs of \<^verbatim>\<open>ida_plugin/v_variable_recovery.py\<close>: register
  aliases as slices of full registers, extraction of a slice from a register read,
  little-endian memory values, stack addresses and constants.
\<close>

section \<open>The register table\<close>

record RegisterSpec =
  rs_alias :: string
  rs_full_register :: string
  rs_width :: int
  rs_bit_offset :: int

definition mk_spec :: "string \<Rightarrow> string \<Rightarrow> int \<Rightarrow> int \<Rightarrow> RegisterSpec" where
  "mk_spec a full width off =
     \<lparr>rs_alias = a, rs_full_register = full, rs_width = width, rs_bit_offset = off\<rparr>"

definition legacy_registers :: "(string \<times> string \<times> string \<times> string \<times> string) list" where
  "legacy_registers =
     [(''rax'', ''eax'', ''ax'', ''al'', ''ah''), (''rbx'', ''ebx'', ''bx'', ''bl'', ''bh''),
      (''rcx'', ''ecx'', ''cx'', ''cl'', ''ch''), (''rdx'', ''edx'', ''dx'', ''dl'', ''dh'')]"

definition index_registers :: "(string \<times> string \<times> string \<times> string) list" where
  "index_registers =
     [(''rsi'', ''esi'', ''si'', ''sil''), (''rdi'', ''edi'', ''di'', ''dil''),
      (''rbp'', ''ebp'', ''bp'', ''bpl''), (''rsp'', ''esp'', ''sp'', ''spl'')]"

definition build_register_specs :: "(string, RegisterSpec) dict" where
  "build_register_specs =
     fold (\<lambda>s. dset (rs_alias s) s)
       (concat (map (\<lambda>(full, dword, wrd, low, high).
            [mk_spec full full 8 0, mk_spec dword full 4 0, mk_spec wrd full 2 0,
             mk_spec low full 1 0, mk_spec high full 1 8]) legacy_registers) @
        concat (map (\<lambda>(full, dword, wrd, byt).
            [mk_spec full full 8 0, mk_spec dword full 4 0, mk_spec wrd full 2 0, mk_spec byt full 1 0])
          index_registers) @
        concat (map (\<lambda>number.
            let full = ''r'' @ str_int number
            in [mk_spec full full 8 0, mk_spec (full @ ''d'') full 4 0,
                mk_spec (full @ ''w'') full 2 0, mk_spec (full @ ''b'') full 1 0]) [8..15]))
       []"

definition FULL_REGISTER_ORDER :: "string list" where
  "FULL_REGISTER_ORDER =
     [''rax'', ''rbx'', ''rcx'', ''rdx'', ''rsi'', ''rdi'', ''rbp'', ''rsp'',
      ''r8'', ''r9'', ''r10'', ''r11'', ''r12'', ''r13'', ''r14'', ''r15'']"

definition SUPPORTED_WIDTHS :: "int list" where
  "SUPPORTED_WIDTHS = [1, 2, 4, 8]"

definition REASON_UNSUPPORTED_WIDTH :: string where
  "REASON_UNSUPPORTED_WIDTH = ''unsupported_value_width''"

definition backtick :: char where
  "backtick = char_of (96::nat)"

definition normalize_register_alias :: "string \<Rightarrow> RegisterSpec option" where
  "normalize_register_alias name =
     dget build_register_specs (py_remove_char backtick (py_lower (py_strip name)))"

text \<open>
  \<open>sorted(registers, key=...)\<close> on a set of names: the architectural order first, then the text. The
  position of a name that is not in the table is the length of the table.
\<close>

definition register_position :: "string \<Rightarrow> nat" where
  "register_position name = length (takeWhile (\<lambda>r. r \<noteq> name) FULL_REGISTER_ORDER)"

definition sort_registers :: "string list \<Rightarrow> string list" where
  "sort_registers registers = sort_key (\<lambda>name. (register_position name, name)) (remdups registers)"

lemma set_sort_registers [simp]: "set (sort_registers rs) = set rs"
  by (simp add: sort_registers_def)

lemma distinct_sort_registers [simp]: "distinct (sort_registers rs)"
  by (simp add: sort_registers_def)

section \<open>Values\<close>

definition parse_runtime_int :: "json \<Rightarrow> int res" where
  "parse_runtime_int value =
     (case value of
        JBool b \<Rightarrow> Inl (ValueError ''boolean is not a runtime integer'')
      | JInt i \<Rightarrow> Inr i
      | JStr s \<Rightarrow> int_base0 s
      | _ \<Rightarrow> Inl (ValueError (''expected an integer-compatible runtime value, got '' @ py_repr value)))"

definition width_mask :: "int \<Rightarrow> int" where
  "width_mask width = push_bit (nat (width * 8)) 1 - 1"

definition extract_register_value :: "json \<Rightarrow> RegisterSpec \<Rightarrow> int \<Rightarrow> string res" where
  "extract_register_value value spec width =
     (if width \<notin> set SUPPORTED_WIDTHS then Inl (ValueError REASON_UNSUPPORTED_WIDTH)
      else if width > rs_width spec
           then Inl (ValueError ''variable width exceeds the proven register location'')
      else res_bind (parse_runtime_int value)
             (\<lambda>number. Inr (hex0x (drop_bit (nat (rs_bit_offset spec)) number AND width_mask width))))"

definition decode_little_endian :: "string \<Rightarrow> int \<Rightarrow> string res" where
  "decode_little_endian bytes_hex width =
     (if width \<notin> set SUPPORTED_WIDTHS then Inl (ValueError REASON_UNSUPPORTED_WIDTH)
      else case bytes_fromhex bytes_hex of
             None \<Rightarrow> Inl (ValueError ''invalid memory response bytes'')
           | Some data \<Rightarrow>
               if int (length data) \<noteq> width
               then Inl (ValueError (''memory response size mismatch expected='' @ str_int width @
                      '' actual='' @ str_int (int (length data))))
               else Inr (hex0x (int (from_bytes_little data))))"

definition concrete_stack_address :: "json \<Rightarrow> int \<Rightarrow> string res" where
  "concrete_stack_address stack_pointer offset =
     res_bind (parse_runtime_int stack_pointer)
       (\<lambda>sp. let address = sp + offset
             in if address < 0 \<or> address > push_bit 64 1 - 1
                then Inl (ValueError ''resolved stack address is outside the x64 address space'')
                else Inr (hex0x address))"

definition format_constant :: "int \<Rightarrow> int \<Rightarrow> string res" where
  "format_constant value width =
     (if width \<notin> set SUPPORTED_WIDTHS then Inl (ValueError REASON_UNSUPPORTED_WIDTH)
      else Inr (hex0x (value AND width_mask width)))"

section \<open>Properties of the table\<close>

definition spec_ok :: "string \<times> RegisterSpec \<Rightarrow> bool" where
  "spec_ok ks \<longleftrightarrow>
     rs_alias (snd ks) = fst ks \<and> rs_full_register (snd ks) \<in> set FULL_REGISTER_ORDER \<and>
     rs_width (snd ks) \<in> set SUPPORTED_WIDTHS \<and> rs_bit_offset (snd ks) \<in> set [0, 8] \<and>
     (rs_bit_offset (snd ks) = 8 \<longrightarrow> rs_width (snd ks) = 1)"

lemma register_specs_ok: "list_all spec_ok build_register_specs"
  by code_simp

lemma normalize_spec_ok: "normalize_register_alias name = Some spec \<Longrightarrow> spec_ok (rs_alias spec, spec)"
  using register_specs_ok
  by (auto simp: normalize_register_alias_def list_all_iff spec_ok_def dest!: map_of_SomeD)

lemma mask_take_bit: "0 \<le> w \<Longrightarrow> x AND width_mask w = x mod 2 ^ nat (w * 8)"
  by (simp add: width_mask_def push_bit_eq_mult take_bit_eq_mod flip: take_bit_eq_mask mask_eq_exp_minus_1)

lemma supported_pos: "w \<in> set SUPPORTED_WIDTHS \<Longrightarrow> 0 < w \<and> w \<le> 8"
  by (auto simp: SUPPORTED_WIDTHS_def)

text \<open>
  Every accepted register spelling names a slice of one of the sixteen full registers: its
  width is 1, 2, 4 or 8 bytes and the slice lies within the 64 bits of that register.
\<close>

lemma register_alias_slice:
  assumes "normalize_register_alias name = Some spec"
  shows "rs_full_register spec \<in> set FULL_REGISTER_ORDER \<and> rs_width spec \<in> set SUPPORTED_WIDTHS \<and>
    0 \<le> rs_bit_offset spec \<and> rs_bit_offset spec + 8 * rs_width spec \<le> 64"
  using normalize_spec_ok [OF assms] by (auto simp: spec_ok_def SUPPORTED_WIDTHS_def)

lemma extract_hex0x:
  assumes "width \<in> set SUPPORTED_WIDTHS" "width \<le> rs_width spec" "0 \<le> v"
  shows "extract_register_value (JStr (hex0x v)) spec width =
    Inr (hex0x (v div 2 ^ nat (rs_bit_offset spec) mod 2 ^ nat (8 * width)))"
  using assms supported_pos [OF assms(1)]
  by (simp add: extract_register_value_def parse_runtime_int_def int_base0_hex0x mask_take_bit
      drop_bit_eq_div mult.commute)

lemma normalize_ah: "normalize_register_alias '' AH '' = Some (mk_spec ''ah'' ''rax'' 1 8)"
  by code_simp

text \<open>
  From a full-register read of value \<open>v\<close>, sent as a hexadecimal text, extraction returns the
  \<open>width\<close> bytes of \<open>v\<close> that begin at the alias' bit offset, in canonical hexadecimal.
\<close>

lemma extract_register_value_exact:
  assumes "normalize_register_alias name = Some spec" "width \<in> set SUPPORTED_WIDTHS"
    "width \<le> rs_width spec" "0 \<le> v"
  shows "extract_register_value (JStr (hex0x v)) spec width =
    Inr (hex0x (v div 2 ^ nat (rs_bit_offset spec) mod 2 ^ nat (8 * width)))"
  using assms(2-4) by (rule extract_hex0x)

section \<open>Memory values\<close>

text \<open>The bytes of a value and their hexadecimal text, as a memory response carries them.\<close>

fun to_bytes_little :: "nat \<Rightarrow> nat \<Rightarrow> nat list" where
  "to_bytes_little 0 v = []"
| "to_bytes_little (Suc n) v = (v mod 256) # to_bytes_little n (v div 256)"

definition hex_of_bytes :: "nat list \<Rightarrow> string" where
  "hex_of_bytes bs = concat (map hex2 bs)"

lemma hex_val_char: "d < 16 \<Longrightarrow> hex_val (digit_char d) = Some d"
  by (simp add: hex_val_def digit_val_char)

lemma digit_not_ascii_space: "d < 16 \<Longrightarrow> \<not> is_ascii_space (digit_char d)"
  by (auto simp: is_ascii_space_def digit_char_def)

lemma fromhex_hex_of_bytes: "\<forall>b \<in> set bs. b < 256 \<Longrightarrow> bytes_fromhex (hex_of_bytes bs) = Some bs"
proof (induction bs)
  case (Cons b bs)
  have "b div 16 < 16" "b mod 16 < 16" using Cons.prems by auto
  with Cons show ?case
    by (simp add: hex_of_bytes_def hex2_def hex_val_char digit_not_ascii_space)
qed (simp add: hex_of_bytes_def)

lemma to_bytes_little_facts:
  "length (to_bytes_little n v) = n" "b \<in> set (to_bytes_little n v) \<Longrightarrow> b < 256"
  "v < 256 ^ n \<Longrightarrow> from_bytes_little (to_bytes_little n v) = v"
  by (induction n v rule: to_bytes_little.induct) auto

lemma decode_value_bytes:
  assumes "int n \<in> set SUPPORTED_WIDTHS" "v < 256 ^ n"
  shows "decode_little_endian (hex_of_bytes (to_bytes_little n v)) (int n) = Inr (hex0x (int v))"
  using assms to_bytes_little_facts(1) [of n v] to_bytes_little_facts(2) [where n = n and v = v]
    to_bytes_little_facts(3) [of v n] fromhex_hex_of_bytes [of "to_bytes_little n v"]
  by (simp add: decode_little_endian_def)

text \<open>
  C39. Decoding is inverse to the little-endian byte encoding: for every supported width and
  every value that fits, the bytes of the value decode to its canonical hexadecimal text.
\<close>

theorem decode_little_endian_roundtrip:
  assumes "int n \<in> set SUPPORTED_WIDTHS" "v < 256 ^ n"
  shows "decode_little_endian (hex_of_bytes (to_bytes_little n v)) (int n) = Inr (hex0x (int v))"
  using assms by (rule decode_value_bytes)

lemma decode_little_endian_roundtrip_witness:
  "decode_little_endian (hex_of_bytes (to_bytes_little 4 0xdeadbeef)) 4 = Inr (hex0x 0xdeadbeef)"
  using decode_little_endian_roundtrip [of 4 "0xdeadbeef"] by (simp add: SUPPORTED_WIDTHS_def)

text \<open>
  A decoded memory value is bounded by its width: whatever text the debugger sends, an
  accepted response of width \<open>w\<close> has exactly \<open>w\<close> bytes and denotes a number below \<open>2^(8w)\<close>
  whose canonical text is the result.
\<close>

lemma decode_little_endian_bounds:
  assumes "decode_little_endian text w = Inr out"
  shows "w \<in> set SUPPORTED_WIDTHS \<and>
    (\<exists>data v. bytes_fromhex text = Some data \<and> int (length data) = w \<and> v = int (from_bytes_little data) \<and>
       v < 2 ^ nat (8 * w) \<and> out = hex0x v \<and> py_int0 out = Some v)"
proof -
  from assms obtain data where d: "w \<in> set SUPPORTED_WIDTHS" "bytes_fromhex text = Some data"
      "int (length data) = w" "out = hex0x (int (from_bytes_little data))"
    by (auto simp: decode_little_endian_def split: if_splits option.splits)
  have "from_bytes_little data < 256 ^ length data"
    using bytes_fromhex_bound [OF d(2)] by (intro from_bytes_little_bound) blast
  then have "int (from_bytes_little data) < 256 ^ length data"
    by (metis of_nat_less_iff of_nat_numeral of_nat_power)
  also have "(256 :: int) ^ length data = 2 ^ nat (8 * w)"
    unfolding d(3) [symmetric] by (simp add: nat_mult_distrib power_mult)
  finally show ?thesis using d by (simp add: parse_hex0x)
qed

text \<open>
  A stack address is produced exactly when the stack pointer plus the offset is a 64-bit
  address, and the produced text denotes that address.
\<close>

lemma concrete_stack_address_bounds:
  assumes "parse_runtime_int sp = Inr n"
  shows "(0 \<le> n + off \<and> n + off < 2 ^ 64 \<longrightarrow>
      (\<exists>out. concrete_stack_address sp off = Inr out \<and> py_int0 out = Some (n + off))) \<and>
    (\<not> (0 \<le> n + off \<and> n + off < 2 ^ 64) \<longrightarrow>
      concrete_stack_address sp off =
        Inl (ValueError ''resolved stack address is outside the x64 address space''))"
  using assms by (auto simp: concrete_stack_address_def Let_def push_bit_eq_mult parse_hex0x)

end
