(* ===== verification/Worklist.thy ===== *)
theory Worklist
  imports Prelude
begin

text \<open>
  The worklist traversal that \<^verbatim>\<open>_find_reaching_definitions\<close>, \<^verbatim>\<open>_find_future_uses\<close> and
  \<^verbatim>\<open>_validate_register_storage_cfg\<close> of \<^verbatim>\<open>v_variable_recovery.py\<close> each spell out, with its
  budget, visited set and recorded edges, and the cycle test \<^verbatim>\<open>_graph_has_cycle\<close> they end
  with. The lemmas characterise the traversal (closure, recorded edges, order of visits) and
  show the cycle test equivalent to the existence of a cycle.
\<close>

section \<open>The traversal loop\<close>

record ('s, 'a) traversal =
  t_pending :: "'s list"
  t_visited :: "'s list"
  t_edges :: "('s, 's list) dict"
  t_acc :: 'a
  t_exhausted :: bool

text \<open>
  \<open>edges.setdefault(state, set())\<close>, and \<open>edges[state].add(next); edges.setdefault(next, set())\<close>
  for each next state.
\<close>

definition setdefault_edges :: "'s \<Rightarrow> ('s, 's list) dict \<Rightarrow> ('s, 's list) dict" where
  "setdefault_edges s es = (case dget es s of Some _ \<Rightarrow> es | None \<Rightarrow> dset s [] es)"

definition add_edge :: "'s \<Rightarrow> 's \<Rightarrow> ('s, 's list) dict \<Rightarrow> ('s, 's list) dict" where
  "add_edge s n es =
     setdefault_edges n
       (dset s (List.insert n (case dget es s of Some ds \<Rightarrow> ds | None \<Rightarrow> [])) es)"

text \<open>
  One iteration: pop a state, skip it when visited, stop with \<open>traversal_exhausted\<close> when the
  budget is used up, otherwise mark it, scan it (\<open>upd\<close> changes the accumulated facts, \<open>nexts\<close>
  gives the neighbour states in the order they are pushed) and push the neighbours that are
  not yet visited. \<open>pending\<close> is a stack whose top is the head of the list.
\<close>

definition visit_state ::
    "('s \<Rightarrow> 'a \<Rightarrow> 'a) \<Rightarrow> ('s \<Rightarrow> 's list) \<Rightarrow> 's \<Rightarrow> 's list \<Rightarrow> ('s, 'a) traversal \<Rightarrow> ('s, 'a) traversal" where
  "visit_state upd nexts s rest t =
     (let visited = t_visited t @ [s];
          es = fold (add_edge s) (nexts s) (setdefault_edges s (t_edges t))
      in t\<lparr>t_pending := rev (filter (\<lambda>n. n \<notin> set visited) (nexts s)) @ rest,
           t_visited := visited, t_edges := es, t_acc := upd s (t_acc t)\<rparr>)"

function traverse ::
    "nat \<Rightarrow> ('s \<Rightarrow> 'a \<Rightarrow> 'a) \<Rightarrow> ('s \<Rightarrow> 's list) \<Rightarrow> ('s, 'a) traversal \<Rightarrow> ('s, 'a) traversal" where
  "traverse budget upd nexts t =
     (case t_pending t of
        [] \<Rightarrow> t
      | s # rest \<Rightarrow>
          if s \<in> set (t_visited t) then traverse budget upd nexts (t\<lparr>t_pending := rest\<rparr>)
          else if budget \<le> length (t_visited t) then t\<lparr>t_pending := rest, t_exhausted := True\<rparr>
          else traverse budget upd nexts (visit_state upd nexts s rest t))"
  by pat_completeness auto
termination
  by (relation "measures [\<lambda>(b, u, n, t). b - length (t_visited t), \<lambda>(b, u, n, t). length (t_pending t)]")
     (auto simp: visit_state_def Let_def)

declare traverse.simps [simp del]

definition start_traversal :: "'s \<Rightarrow> 'a \<Rightarrow> ('s, 'a) traversal" where
  "start_traversal s a =
     \<lparr>t_pending = [s], t_visited = [], t_edges = [], t_acc = a, t_exhausted = False\<rparr>"

section \<open>Recorded edges\<close>

definition edge_rel :: "('s, 's list) dict \<Rightarrow> ('s \<times> 's) set" where
  "edge_rel es = {(s, d). \<exists>ds. dget es s = Some ds \<and> d \<in> set ds}"

lemma edge_rel_setdefault [simp]: "edge_rel (setdefault_edges s es) = edge_rel es"
  by (auto simp: edge_rel_def setdefault_edges_def split: option.splits if_splits)

lemma edge_rel_add_edge [simp]: "edge_rel (add_edge s n es) = insert (s, n) (edge_rel es)"
proof -
  have "edge_rel (dset s (List.insert n (case dget es s of Some ds \<Rightarrow> ds | None \<Rightarrow> [])) es) =
    insert (s, n) (edge_rel es)"
    by (auto simp: edge_rel_def split: option.splits if_splits)
  then show ?thesis
    by (simp add: add_edge_def)
qed

lemma edge_rel_add_edges [simp]:
  "edge_rel (fold (add_edge s) ns es) = (\<lambda>n. (s, n)) ` set ns \<union> edge_rel es"
  by (induction ns arbitrary: es) auto

text \<open>A dictionary of sets: distinct keys, and no element listed twice in a value.\<close>

definition edges_wf :: "('s, 's list) dict \<Rightarrow> bool" where
  "edges_wf es \<longleftrightarrow> dwf es \<and> (\<forall>ds \<in> set (dvals es). distinct ds)"

lemma dvals_dset: "set (dvals (dset k v d)) \<subseteq> insert v (set (dvals d))"
  by (induction d) auto

lemma edges_wf_dset:
  assumes "edges_wf es" "distinct ds"
  shows "edges_wf (dset s ds es)"
proof -
  have "distinct xs" if "xs \<in> set (dvals (dset s ds es))" for xs
    using that dvals_dset [of s ds es] assms unfolding edges_wf_def by blast
  with assms show ?thesis by (simp add: edges_wf_def distinct_update)
qed

lemma edges_wf_dget: "edges_wf es \<Longrightarrow> dget es s = Some ds \<Longrightarrow> distinct ds"
  by (force simp: edges_wf_def dest: map_of_SomeD)

lemma edges_wf_setdefault [inv_intros]: "edges_wf es \<Longrightarrow> edges_wf (setdefault_edges s es)"
  by (auto simp: setdefault_edges_def edges_wf_dset split: option.splits)

lemma edges_wf_add_edge: "edges_wf es \<Longrightarrow> edges_wf (add_edge s n es)"
  by (auto simp: add_edge_def intro!: edges_wf_setdefault edges_wf_dset
      dest: edges_wf_dget split: option.splits)

lemma edges_wf_add_edges [inv_intros]: "edges_wf es \<Longrightarrow> edges_wf (fold (add_edge s) ns es)"
  by (induction ns arbitrary: es) (simp_all add: edges_wf_add_edge)

section \<open>What the traversal computes\<close>

abbreviation next_rel :: "('s \<Rightarrow> 's list) \<Rightarrow> ('s \<times> 's) set" where
  "next_rel nexts \<equiv> {(p, n). n \<in> set (nexts p)}"

text \<open>
  The facts that hold between iterations, for a traversal begun at \<open>start\<close> with the
  accumulated facts \<open>a0\<close>: \<open>trav_core\<close> also holds after the budget stopped the loop,
  \<open>trav_open\<close> says which neighbours are still to be scanned.
\<close>

definition trav_core ::
    "nat \<Rightarrow> ('s \<Rightarrow> 'a \<Rightarrow> 'a) \<Rightarrow> ('s \<Rightarrow> 's list) \<Rightarrow> 's \<Rightarrow> 'a \<Rightarrow> ('s, 'a) traversal \<Rightarrow> bool" where
  "trav_core budget upd nexts start a0 t \<longleftrightarrow>
     distinct (t_visited t) \<and>
     length (t_visited t) \<le> budget \<and>
     set (t_visited t) \<union> set (t_pending t) \<subseteq> (next_rel nexts)\<^sup>* `` {start} \<and>
     edge_rel (t_edges t) = (SIGMA s : set (t_visited t). set (nexts s)) \<and>
     edges_wf (t_edges t) \<and>
     t_acc t = fold upd (t_visited t) a0"

definition trav_open :: "('s \<Rightarrow> 's list) \<Rightarrow> 's \<Rightarrow> ('s, 'a) traversal \<Rightarrow> bool" where
  "trav_open nexts start t \<longleftrightarrow>
     \<not> t_exhausted t \<and>
     start \<in> set (t_visited t) \<union> set (t_pending t) \<and>
     (\<forall>s \<in> set (t_visited t). set (nexts s) \<subseteq> set (t_visited t) \<union> set (t_pending t))"

definition trav_done ::
    "nat \<Rightarrow> ('s \<Rightarrow> 's list) \<Rightarrow> 's \<Rightarrow> ('s, 'a) traversal \<Rightarrow> bool" where
  "trav_done budget nexts start t \<longleftrightarrow>
     (if t_exhausted t
      then budget \<le> length (t_visited t) \<and>
           (\<exists>s. s \<notin> set (t_visited t) \<and> (start, s) \<in> (next_rel nexts)\<^sup>*)
      else set (t_visited t) = (next_rel nexts)\<^sup>* `` {start})"

lemma trav_start:
  "trav_core budget upd nexts s a (start_traversal s a)" "trav_open nexts s (start_traversal s a)"
  by (simp_all add: trav_core_def trav_open_def start_traversal_def edge_rel_def edges_wf_def)

lemma trav_skip:
  assumes "t_pending t = s # rest" "s \<in> set (t_visited t)"
  shows "trav_core budget upd nexts start a0 t \<Longrightarrow>
           trav_core budget upd nexts start a0 (t\<lparr>t_pending := rest\<rparr>)"
    and "trav_open nexts start t \<Longrightarrow> trav_open nexts start (t\<lparr>t_pending := rest\<rparr>)"
  using assms unfolding trav_core_def trav_open_def by auto

lemma trav_visit_core:
  assumes inv: "trav_core budget upd nexts start a0 t" and pend: "t_pending t = s # rest"
    and new: "s \<notin> set (t_visited t)" and room: "\<not> budget \<le> length (t_visited t)"
  shows "trav_core budget upd nexts start a0 (visit_state upd nexts s rest t)"
proof -
  have "edge_rel (t_edges (visit_state upd nexts s rest t)) =
      (SIGMA x : set (t_visited (visit_state upd nexts s rest t)). set (nexts x))"
    using inv by (auto simp: trav_core_def visit_state_def Let_def)
  moreover have "edges_wf (t_edges (visit_state upd nexts s rest t))"
    using inv by (simp add: trav_core_def visit_state_def Let_def edges_wf_add_edges edges_wf_setdefault)
  moreover have "(start, s) \<in> (next_rel nexts)\<^sup>*"
    using inv pend by (auto simp: trav_core_def)
  ultimately show ?thesis
    using inv pend new room
    by (auto simp: trav_core_def visit_state_def Let_def intro: rtrancl_into_rtrancl)
qed

lemma trav_visit_open:
  assumes "trav_open nexts start t" "t_pending t = s # rest"
  shows "trav_open nexts start (visit_state upd nexts s rest t)"
  using assms by (auto simp: trav_open_def visit_state_def Let_def)

lemma trav_stop_core:
  assumes "trav_core budget upd nexts start a0 t" "t_pending t = s # rest"
  shows "trav_core budget upd nexts start a0 (t\<lparr>t_pending := rest, t_exhausted := True\<rparr>)"
  using assms by (auto simp: trav_core_def)

lemma trav_closed:
  assumes "trav_core budget upd nexts start a0 t" "trav_open nexts start t" "t_pending t = []"
  shows "trav_done budget nexts start t"
proof -
  have "s \<in> set (t_visited t)" if "(start, s) \<in> (next_rel nexts)\<^sup>*" for s
    using that assms(2,3) by (induction rule: rtrancl_induct) (auto simp: trav_open_def)
  then show ?thesis
    using assms by (auto simp: trav_done_def trav_core_def trav_open_def)
qed

lemma traverse_correct:
  assumes "trav_core budget upd nexts start a0 t" "trav_open nexts start t"
  shows "trav_core budget upd nexts start a0 (traverse budget upd nexts t) \<and>
         trav_done budget nexts start (traverse budget upd nexts t)"
  using assms
proof (induction budget upd nexts t rule: traverse.induct)
  case (1 budget upd nexts t)
  show ?case
  proof (cases "t_pending t")
    case Nil
    with 1 show ?thesis by (simp add: traverse.simps trav_closed)
  next
    case (Cons s rest)
    note step = traverse.simps [of budget upd nexts t]
    consider "s \<in> set (t_visited t)"
      | "s \<notin> set (t_visited t)" "budget \<le> length (t_visited t)"
      | "s \<notin> set (t_visited t)" "\<not> budget \<le> length (t_visited t)" by blast
    then show ?thesis
    proof cases
      case 1
      with "1.IH"(1) [OF Cons] "1.prems" Cons show ?thesis by (simp add: step trav_skip)
    next
      case 2
      with "1.prems" Cons show ?thesis
        by (auto simp: step trav_done_def trav_core_def)
    next
      case 3
      with "1.IH"(2) [OF Cons] "1.prems" Cons show ?thesis
        by (simp add: step trav_visit_core trav_visit_open)
    qed
  qed
qed

lemmas traverse_from_start = traverse_correct [OF trav_start]

text \<open>A budget that covers the reachable states is never exhausted.\<close>

lemma traverse_not_exhausted:
  assumes fin: "finite A" and sub: "(next_rel nexts)\<^sup>* `` {s} \<subseteq> A" and room: "card A \<le> budget"
  shows "\<not> t_exhausted (traverse budget upd nexts (start_traversal s a))" (is "\<not> t_exhausted ?r")
proof
  assume ex: "t_exhausted ?r"
  have core: "trav_core budget upd nexts s a ?r" and dn: "trav_done budget nexts s ?r"
    by (simp_all add: traverse_from_start)
  from ex dn obtain x where len: "budget \<le> length (t_visited ?r)" and x: "x \<notin> set (t_visited ?r)"
    and reach: "(s, x) \<in> (next_rel nexts)\<^sup>*"
    by (auto simp: trav_done_def)
  have dist: "distinct (t_visited ?r)" and visA: "set (t_visited ?r) \<subseteq> A - {x}" and xA: "x \<in> A"
    using core sub x reach by (auto simp: trav_core_def)
  have "length (t_visited ?r) \<le> card (A - {x})"
    using dist visA fin by (intro finite_measure_less) auto
  moreover have "card (A - {x}) < card A"
    using fin xA by (rule card_Diff1_less)
  ultimately show False using len room by simp
qed

section \<open>The cycle test\<close>

text \<open>
  \<open>indegree\<close> is a dictionary from nodes to ints; \<open>decr\<close> is \<open>indegree[d] -= 1\<close>, followed by
  \<open>ready.append(d)\<close> when the count reaches 0.
\<close>

fun count_edge :: "'s \<Rightarrow> ('s, int) dict \<Rightarrow> ('s, int) dict" where
  "count_edge d ind = dset d ((case dget ind d of Some v \<Rightarrow> v | None \<Rightarrow> 0) + 1) ind"

fun decr :: "'s \<Rightarrow> ('s, int) dict \<times> 's list \<Rightarrow> ('s, int) dict \<times> 's list" where
  "decr d (ind, ready) =
     (case dget ind d of
        None \<Rightarrow> (ind, ready)
      | Some v \<Rightarrow> (dset d (v - 1) ind, if v - 1 = 0 then d # ready else ready))"

definition ind_weight :: "('s, int) dict \<times> 's list \<Rightarrow> nat" where
  "ind_weight p = sum_list (map (nat \<circ> snd) (fst p)) + length (snd p)"

lemma sum_dset: "dget ind d = Some v \<Longrightarrow>
  sum_list (map (nat \<circ> snd) (dset d w ind)) + nat v = sum_list (map (nat \<circ> snd) ind) + nat w"
  by (induction ind) (auto split: if_splits)

lemma ind_weight_decr: "ind_weight (decr d p) \<le> ind_weight p"
proof (cases p)
  case (Pair ind ready)
  show ?thesis
  proof (cases "dget ind d")
    case None
    then show ?thesis by (simp add: Pair)
  next
    case (Some v)
    then show ?thesis using sum_dset [of ind d v "v - 1"] by (auto simp: Pair ind_weight_def)
  qed
qed

lemma ind_weight_decrs: "ind_weight (fold decr ds p) \<le> ind_weight p"
proof (induction ds arbitrary: p)
  case (Cons d ds)
  from Cons [of "decr d p"] ind_weight_decr [of d p] show ?case by simp
qed simp

function remove_ready :: "('s, 's list) dict \<Rightarrow> ('s, int) dict \<Rightarrow> 's list \<Rightarrow> nat \<Rightarrow> nat" where
  "remove_ready es ind [] removed = removed"
| "remove_ready es ind (n # ready) removed =
     (let p = fold decr (case dget es n of Some ds \<Rightarrow> ds | None \<Rightarrow> []) (ind, ready)
      in remove_ready es (fst p) (snd p) (Suc removed))"
  by pat_completeness auto
termination
proof (relation "measure (\<lambda>(es, ind, ready, r). ind_weight (ind, ready))", goal_cases)
  case 1 show ?case by simp
next
  case (2 es ind n ready removed p)
  then have "ind_weight p \<le> ind_weight (ind, ready)"
    by (simp add: ind_weight_decrs)
  then show ?case by (simp add: ind_weight_def)
qed

definition graph_nodes :: "('s, 's list) dict \<Rightarrow> 's list" where
  "graph_nodes es = remdups (dkeys es @ concat (dvals es))"

definition indegrees :: "('s, 's list) dict \<Rightarrow> ('s, int) dict" where
  "indegrees es = fold count_edge (concat (dvals es)) (map (\<lambda>n. (n, 0)) (graph_nodes es))"

definition graph_has_cycle :: "('s, 's list) dict \<Rightarrow> bool" where
  "graph_has_cycle es =
     (if graph_nodes es = [] then False
      else let ind = indegrees es;
               ready = map fst (filter (\<lambda>(n, d). d = 0) ind)
           in remove_ready es ind (rev ready) 0 \<noteq> length (graph_nodes es))"

subsection \<open>The test finds exactly the cycles\<close>

definition open_preds :: "('s, 's list) dict \<Rightarrow> 's set \<Rightarrow> 's \<Rightarrow> 's set" where
  "open_preds es R d = {s. (s, d) \<in> edge_rel es \<and> s \<notin> R}"

lemma edge_relD: "dwf es \<Longrightarrow> (s, d) \<in> edge_rel es \<longleftrightarrow> (\<exists>ds. (s, ds) \<in> set es \<and> d \<in> set ds)"
  by (auto simp: edge_rel_def)

lemma edge_rel_nodes: "edge_rel es \<subseteq> set (graph_nodes es) \<times> set (graph_nodes es)"
  by (force simp: edge_rel_def graph_nodes_def dest: map_of_SomeD)

lemma finite_edge_rel: "finite (edge_rel es)"
  using edge_rel_nodes by (rule finite_subset) auto

lemma finite_open_preds: "finite (open_preds es R d)"
  using finite_imageI [OF finite_edge_rel, of fst es]
  by (rule rev_finite_subset) (force simp: open_preds_def)

lemma dget_count_edges:
  "dget (fold count_edge xs ind) d =
     (case dget ind d of
        Some v \<Rightarrow> Some (v + int (count_list xs d))
      | None \<Rightarrow> if d \<in> set xs then Some (int (count_list xs d)) else None)"
  by (induction xs arbitrary: ind) (auto split: option.splits)

lemma dwf_count_edges: "dwf ind \<Longrightarrow> dwf (fold count_edge xs ind)"
  by (induction xs arbitrary: ind) (auto simp: distinct_update)

lemma count_dests: "edges_wf es \<Longrightarrow>
  count_list (concat (dvals es)) d = card {s. \<exists>ds. (s, ds) \<in> set es \<and> d \<in> set ds}"
proof (induction es)
  case (Cons e es)
  obtain s ds where e: "e = (s, ds)" by (cases e)
  let ?A = "{s. \<exists>ds. (s, ds) \<in> set es \<and> d \<in> set ds}"
  have IH: "count_list (concat (dvals es)) d = card ?A" and dist: "distinct ds"
    and s: "s \<notin> fst ` set es"
    using Cons by (auto simp: edges_wf_def e)
  have "?A \<subseteq> fst ` set es" by force
  then have fin: "finite ?A" and sA: "s \<notin> ?A"
    using s by (auto intro: finite_subset [of ?A "fst ` set es"])
  have "{s'. \<exists>ds'. (s', ds') \<in> set (e # es) \<and> d \<in> set ds'} = (if d \<in> set ds then insert s ?A else ?A)"
    by (auto simp: e)
  moreover have "count_list ds d = (if d \<in> set ds then 1 else 0)"
    using dist by (induction ds) auto
  ultimately show ?case using fin sA IH by (simp add: e)
qed simp

lemma indegrees_correct:
  assumes "edges_wf es"
  shows "dwf (indegrees es)"
    and "dget (indegrees es) d =
           (if d \<in> set (graph_nodes es) then Some (int (card (open_preds es {} d))) else None)"
proof -
  have wf: "dwf es" using assms by (simp add: edges_wf_def)
  have sub: "set (concat (dvals es)) \<subseteq> set (graph_nodes es)" by (auto simp: graph_nodes_def)
  have "open_preds es {} d = {s. \<exists>ds. (s, ds) \<in> set es \<and> d \<in> set ds}"
    by (simp add: open_preds_def edge_relD [OF wf])
  then have cnt: "count_list (concat (dvals es)) d = card (open_preds es {} d)"
    using count_dests [OF assms, of d] by simp
  have zero: "dget (map (\<lambda>n. (n, 0::int)) ns) d = (if d \<in> set ns then Some 0 else None)" for ns
    by (induction ns) auto
  show "dget (indegrees es) d =
      (if d \<in> set (graph_nodes es) then Some (int (card (open_preds es {} d))) else None)"
    using sub unfolding indegrees_def dget_count_edges zero by (auto simp: cnt)
  have "dwf (map (\<lambda>n. (n, 0::int)) (graph_nodes es))"
    by (simp add: comp_def graph_nodes_def)
  then show "dwf (indegrees es)"
    unfolding indegrees_def by (rule dwf_count_edges)
qed

lemma open_preds_insert: "open_preds es (insert n R) d = open_preds es R d - {n}"
  by (auto simp: open_preds_def)

lemma card_open_preds_insert:
  assumes "n \<notin> R"
  shows "int (card (open_preds es (insert n R) d)) =
    (if (n, d) \<in> edge_rel es then int (card (open_preds es R d)) - 1
     else int (card (open_preds es R d)))"
proof -
  have mem: "n \<in> open_preds es R d \<longleftrightarrow> (n, d) \<in> edge_rel es"
    using assms by (simp add: open_preds_def)
  then have "(n, d) \<in> edge_rel es \<Longrightarrow> card (open_preds es R d) > 0"
    using finite_open_preds [of es R d] by (auto simp: card_gt_0_iff)
  then show ?thesis by (auto simp: open_preds_insert mem of_nat_diff Suc_le_eq)
qed

text \<open>The inner loop over the destinations of one removed node.\<close>

lemma decr_fold:
  assumes "distinct ds" "\<forall>d \<in> set ds. dget ind d \<noteq> None"
  shows "snd (fold decr ds (ind, ready)) = rev (filter (\<lambda>d. dget ind d = Some 1) ds) @ ready \<and>
    (\<forall>d. dget (fst (fold decr ds (ind, ready))) d =
       (if d \<in> set ds then map_option (\<lambda>v. v - 1) (dget ind d) else dget ind d))"
  using assms
proof (induction ds arbitrary: ind ready)
  case (Cons x ds)
  obtain v where v: "dget ind x = Some v" using Cons.prems by auto
  let ?ind = "dset x (v - 1) ind"
  have cond: "distinct ds" "\<forall>d \<in> set ds. dget ?ind d \<noteq> None" and x: "x \<notin> set ds"
    using Cons.prems by auto
  have flt: "filter (\<lambda>d. dget ?ind d = Some 1) ds = filter (\<lambda>d. dget ind d = Some 1) ds"
    using x by (intro filter_cong) auto
  have IH1: "snd (fold decr ds (?ind, r)) = rev (filter (\<lambda>d. dget ind d = Some 1) ds) @ r" for r
    using Cons.IH [OF cond, of r] by (simp only: flt)
  have IH2: "dget (fst (fold decr ds (?ind, r))) d =
      (if d \<in> set ds then map_option (\<lambda>v. v - 1) (dget ?ind d) else dget ?ind d)" for r d
    using Cons.IH [OF cond, of r] by blast
  show ?case
    using x by (auto simp: v IH1 IH2)
qed auto

definition kahn_inv ::
    "('s, 's list) dict \<Rightarrow> 's set \<Rightarrow> ('s, int) dict \<Rightarrow> 's list \<Rightarrow> bool" where
  "kahn_inv es R ind ready \<longleftrightarrow>
     finite R \<and> distinct ready \<and> set ready \<inter> R = {} \<and>
     set ready \<union> R = {d \<in> set (graph_nodes es). open_preds es R d = {}} \<and>
     set ready \<union> R \<subseteq> Wellfounded.acc (edge_rel es) \<and>
     (\<forall>d. dget ind d =
        (if d \<in> set (graph_nodes es) then Some (int (card (open_preds es R d))) else None))"

lemma kahn_invD:
  assumes "kahn_inv es R ind ready"
  shows "set ready \<union> R \<subseteq> Wellfounded.acc (edge_rel es)" "distinct ready" "set ready \<inter> R = {}"
    "x \<in> set ready \<or> x \<in> R \<longleftrightarrow> x \<in> set (graph_nodes es) \<and> open_preds es R x = {}"
    "dget ind d = (if d \<in> set (graph_nodes es) then Some (int (card (open_preds es R d))) else None)"
  using assms unfolding kahn_inv_def by blast+

text \<open>The destinations whose counter reaches zero are those that lose their last open predecessor.\<close>

lemma newly_ready:
  assumes inv: "kahn_inv es R ind (n # ready)"
  shows "dget ind d = Some 1 \<and> (n, d) \<in> edge_rel es \<longleftrightarrow>
    d \<in> set (graph_nodes es) \<and> open_preds es (insert n R) d = {} \<and> open_preds es R d \<noteq> {}"
proof -
  have "n \<notin> R" using kahn_invD(3) [OF inv] by auto
  moreover have "open_preds es (insert n R) d = {} \<longleftrightarrow> card (open_preds es (insert n R) d) = 0"
    "open_preds es R d = {} \<longleftrightarrow> card (open_preds es R d) = 0"
    by (simp_all add: finite_open_preds)
  ultimately show ?thesis
    using card_open_preds_insert [of n R es d] by (auto simp: kahn_invD(5) [OF inv] split: if_splits)
qed

lemma no_open_preds_acc:
  assumes "R \<subseteq> Wellfounded.acc (edge_rel es)" "open_preds es R d = {}"
  shows "d \<in> Wellfounded.acc (edge_rel es)"
proof (rule accI)
  fix y assume "(y, d) \<in> edge_rel es"
  with assms show "y \<in> Wellfounded.acc (edge_rel es)" by (auto simp: open_preds_def)
qed

lemma kahn_step:
  assumes wf: "edges_wf es" and inv: "kahn_inv es R ind (n # ready)"
    and p: "p = fold decr (case dget es n of Some ds \<Rightarrow> ds | None \<Rightarrow> []) (ind, ready)"
  shows "kahn_inv es (insert n R) (fst p) (snd p)"
proof -
  define ds where "ds = (case dget es n of Some ds \<Rightarrow> ds | None \<Rightarrow> [])"
  have ds_E: "d \<in> set ds \<longleftrightarrow> (n, d) \<in> edge_rel es" for d
    by (cases "dget es n") (auto simp: ds_def edge_rel_def)
  have dist: "distinct ds"
    using wf by (force simp: ds_def edges_wf_def split: option.splits dest: map_of_SomeD)
  note old = kahn_invD [OF inv]
  have nR: "n \<notin> R" "n \<notin> set ready" using old(2,3) by auto
  have some: "\<forall>d \<in> set ds. dget ind d \<noteq> None" using edge_rel_nodes [of es] by (auto simp: old(5) ds_E)
  note folded = decr_fold [OF dist some, of ready]
  have snd_p: "snd p = rev (filter (\<lambda>d. dget ind d = Some 1) ds) @ ready" using folded by (simp add: p ds_def)
  have fst_p: "dget (fst p) d =
      (if d \<in> set (graph_nodes es) then Some (int (card (open_preds es (insert n R) d))) else None)" for d
  proof -
    have "dget (fst p) d = (if d \<in> set ds then map_option (\<lambda>v. v - 1) (dget ind d) else dget ind d)"
      using folded by (simp add: p ds_def [symmetric])
    then show ?thesis by (simp add: old(5) ds_E card_open_preds_insert [OF nR(1)])
  qed
  note new = newly_ready [OF inv, folded ds_E]
  have closed: "x \<in> set (snd p) \<or> x \<in> insert n R \<longleftrightarrow>
      x \<in> set (graph_nodes es) \<and> open_preds es (insert n R) x = {}" for x
    using new [of x] old(4) [of x] by (cases "open_preds es R x = {}") (auto simp: snd_p open_preds_insert)
  have fresh: "dget ind x = Some 1 \<and> x \<in> set ds \<Longrightarrow> x \<notin> insert n (set ready \<union> R)" for x
    using new [of x] old(4) [of x] by auto
  have "distinct (snd p)" "set (snd p) \<inter> insert n R = {}"
    using old(2,3) nR dist fresh by (auto simp: snd_p)
  moreover have "insert n R \<subseteq> Wellfounded.acc (edge_rel es)" using old(1) by auto
  then have "x \<in> Wellfounded.acc (edge_rel es)" if "x \<in> set (snd p) \<or> x \<in> insert n R" for x
    using no_open_preds_acc that [unfolded closed] by (elim conjE)
  then have "set (snd p) \<union> insert n R \<subseteq> Wellfounded.acc (edge_rel es)" by blast
  moreover have "finite (insert n R)" using inv by (simp add: kahn_inv_def)
  moreover have "set (snd p) \<union> insert n R = {d \<in> set (graph_nodes es). open_preds es (insert n R) d = {}}"
    by (rule set_eqI) (unfold Un_iff mem_Collect_eq closed, rule refl)
  ultimately show ?thesis unfolding kahn_inv_def using fst_p by blast
qed

lemma remove_ready_inv:
  assumes "edges_wf es" "kahn_inv es R ind ready" "removed = card R"
  shows "\<exists>R' ind'. kahn_inv es R' ind' [] \<and> remove_ready es ind ready removed = card R'"
  using assms
proof (induction es ind ready removed arbitrary: R rule: remove_ready.induct)
  case (1 es ind removed)
  then show ?case by auto
next
  case (2 es ind n ready removed)
  define p where "p = fold decr (case dget es n of Some ds \<Rightarrow> ds | None \<Rightarrow> []) (ind, ready)"
  have step: "kahn_inv es (insert n R) (fst p) (snd p)"
    using "2.prems"(1,2) p_def by (rule kahn_step)
  have "Suc removed = card (insert n R)"
    using "2.prems"(2,3) by (simp add: kahn_inv_def)
  with "2.IH" [OF p_def "2.prems"(1) step] show ?case
    by (simp add: p_def Let_def)
qed

lemma kahn_final:
  assumes "kahn_inv es R ind []"
  shows "card R \<noteq> length (graph_nodes es) \<longleftrightarrow> \<not> acyclic (edge_rel es)"
proof
  let ?N = "set (graph_nodes es)"
  have R: "R = {d \<in> ?N. open_preds es R d = {}}" and R_acc: "R \<subseteq> Wellfounded.acc (edge_rel es)"
    using assms by (auto simp: kahn_inv_def)
  have len: "length (graph_nodes es) = card ?N"
    by (simp add: graph_nodes_def length_remdups_card_conv)
  have sub: "R \<subseteq> ?N" using R by blast
  {
    assume ne: "card R \<noteq> length (graph_nodes es)"
    show "\<not> acyclic (edge_rel es)"
    proof
      assume "acyclic (edge_rel es)"
      with finite_edge_rel have "wf (edge_rel es)" by (rule finite_acyclic_wf)
      moreover obtain x where "x \<in> ?N - R" using ne len sub by (cases "R = ?N") auto
      ultimately obtain z where z: "z \<in> ?N - R" and min: "\<And>y. (y, z) \<in> edge_rel es \<Longrightarrow> y \<notin> ?N - R"
        by (metis wfE_min)
      have "open_preds es R z = {}"
        using min edge_rel_nodes [of es] by (auto simp: open_preds_def)
      with z R show False by blast
    qed
  next
    assume cyc: "\<not> acyclic (edge_rel es)"
    show "card R \<noteq> length (graph_nodes es)"
    proof
      assume "card R = length (graph_nodes es)"
      with len sub have "R = ?N" by (simp add: card_subset_eq)
      then have "x \<in> Wellfounded.acc (edge_rel es)" for x
        using R_acc edge_rel_nodes [of es] by (cases "x \<in> ?N") (auto intro: accI)
      then have "wf (edge_rel es)" by (simp add: acc_wfI)
      with cyc show False by (simp add: wf_acyclic)
    qed
  }
qed

lemma graph_has_cycle_iff:
  assumes wf: "edges_wf es"
  shows "graph_has_cycle es \<longleftrightarrow> \<not> acyclic (edge_rel es)"
proof (cases "graph_nodes es = []")
  case True
  then have "edge_rel es = {}" using edge_rel_nodes [of es] by auto
  with True show ?thesis by (simp add: graph_has_cycle_def acyclic_def)
next
  case False
  let ?ready = "rev (map fst (filter (\<lambda>(n, d). d = 0) (indegrees es)))"
  note ind = indegrees_correct [OF wf]
  have "x \<in> set ?ready \<longleftrightarrow> dget (indegrees es) x = Some 0" for x
    using ind(1) by (force simp: map_of_eq_Some_iff)
  then have mem: "set ?ready = {d \<in> set (graph_nodes es). open_preds es {} d = {}}"
    unfolding set_eq_iff by (simp add: ind(2) finite_open_preds)
  have "distinct ?ready"
    using ind(1) by (simp add: distinct_map_filter)
  moreover have "set ?ready \<subseteq> Wellfounded.acc (edge_rel es)"
    unfolding mem by (auto simp: open_preds_def intro: accI)
  ultimately have "kahn_inv es {} (indegrees es) ?ready"
    using mem ind(2) by (simp add: kahn_inv_def)
  then obtain R ind' where "kahn_inv es R ind' []"
      and "remove_ready es (indegrees es) ?ready 0 = card R"
    using remove_ready_inv [OF wf, of "{}" "indegrees es" ?ready 0] by (metis card.empty)
  then show ?thesis
    using False kahn_final [of es R ind'] by (simp add: graph_has_cycle_def Let_def)
qed

end
