(* ===== verification/Flow_Graph.thy ===== *)
theory Flow_Graph
  imports Worklist
begin

text \<open>
  Executions of a control-flow graph, seen as sequences of executed instructions, and the
  argument that a backward scan over block prefixes covers all of them. The microcode
  analysis and the native register-storage check are both instances.
\<close>

text \<open>
  A point \<open>(b, i)\<close> of block \<open>b\<close> lies just before instruction \<open>i\<close>; with \<open>i\<close> the number of
  instructions it is the end of the block. \<open>flow_run sz sc p xs q\<close>: from \<open>p\<close> the
  instructions \<open>xs\<close> are executed and \<open>q\<close> is reached.
\<close>

inductive flow_run ::
    "('b \<Rightarrow> nat option) \<Rightarrow> ('b \<Rightarrow> 'b list) \<Rightarrow> 'b \<times> nat \<Rightarrow> ('b \<times> nat) list \<Rightarrow> 'b \<times> nat \<Rightarrow> bool"
  for sz sc p where
  run_refl: "flow_run sz sc p [] p"
| run_instr: "flow_run sz sc p xs (b, i) \<Longrightarrow> sz b = Some n \<Longrightarrow> i < n \<Longrightarrow>
    flow_run sz sc p (xs @ [(b, i)]) (b, Suc i)"
| run_edge: "flow_run sz sc p xs (b, n) \<Longrightarrow> sz b = Some n \<Longrightarrow> s \<in> set (sc b) \<Longrightarrow>
    flow_run sz sc p xs (s, 0)"

lemma flow_run_trans:
  "flow_run sz sc q ys r \<Longrightarrow> flow_run sz sc p xs q \<Longrightarrow> flow_run sz sc p (xs @ ys) r"
  by (induction rule: flow_run.induct)
     (auto intro: flow_run.intros simp flip: append_assoc)

lemma flow_run_block:
  assumes "sz b = Some n"
  shows "j \<le> n \<Longrightarrow> i \<le> j \<Longrightarrow> flow_run sz sc (b, i) (map (Pair b) [i..<j]) (b, j)"
proof (induction j)
  case (Suc j)
  show ?case
  proof (cases "i = Suc j")
    case False
    with Suc assms show ?thesis by (auto intro: run_instr)
  qed (auto intro: run_refl)
qed (auto intro: run_refl)

text \<open>
  The contract between a flow graph and a backward scan: \<open>stop\<close> says which instructions end the scan of a block prefix. \<open>scan\<close> is the
  index found by scanning \<open>(b, l)\<close> backwards, if any.
\<close>

locale backward_scan =
  fixes sz :: "'b \<Rightarrow> nat option"
    and sc :: "'b \<Rightarrow> 'b list"
    and pr :: "'b \<Rightarrow> 'b list"
    and stop :: "'b \<times> nat \<Rightarrow> bool"
    and scan :: "'b \<Rightarrow> nat \<Rightarrow> nat option"
  assumes scan_None: "scan b l = None \<Longrightarrow> k < l \<Longrightarrow> \<not> stop (b, k)"
    and scan_Some: "scan b l = Some k \<Longrightarrow> k < l \<and> stop (b, k) \<and> (\<forall>j. k < j \<and> j < l \<longrightarrow> \<not> stop (b, j))"
begin

definition reciprocal :: bool where
  "reciprocal \<longleftrightarrow> (\<forall>b n s. sz b = Some n \<longrightarrow> s \<in> set (sc b) \<longrightarrow> b \<in> set (pr s))"

text \<open>
  \<open>V\<close> is closed: a scanned state whose scan passes through has its predecessor end states
  in \<open>V\<close>. A point is covered when some scanned state of its block passes over it.
\<close>

definition closed_states :: "('b \<times> nat) set \<Rightarrow> bool" where
  "closed_states V \<longleftrightarrow>
     (\<forall>b l. (b, l) \<in> V \<longrightarrow> scan b l = None \<longrightarrow>
        (\<forall>p \<in> set (pr b). \<forall>n. sz p = Some n \<longrightarrow> (p, n) \<in> V))"

definition covered :: "('b \<times> nat) set \<Rightarrow> 'b \<times> nat \<Rightarrow> bool" where
  "covered V p \<longleftrightarrow> (\<exists>l. (fst p, l) \<in> V \<and> snd p \<le> l \<and> (\<forall>k. snd p \<le> k \<and> k < l \<longrightarrow> \<not> stop (fst p, k)))"

lemma covered_state: "(b, l) \<in> V \<Longrightarrow> covered V (b, l)"
  by (auto simp: covered_def intro!: exI [of _ l])

lemma scan_of_stop:
  assumes "k < l" "stop (b, k)" "\<forall>j. Suc k \<le> j \<and> j < l \<longrightarrow> \<not> stop (b, j)"
  shows "scan b l = Some k"
proof (cases "scan b l")
  case None
  with scan_None assms show ?thesis by blast
next
  case (Some k')
  with scan_Some have "k' < l" "stop (b, k')" "\<forall>j. k' < j \<and> j < l \<longrightarrow> \<not> stop (b, j)" by blast+
  with assms have "k' = k" by (metis Suc_le_eq linorder_neqE_nat)
  with Some show ?thesis by simp
qed

lemma scan_through: "\<forall>k. 0 \<le> k \<and> k < l \<longrightarrow> \<not> stop (b, k) \<Longrightarrow> scan b l = None"
  using scan_Some by (cases "scan b l") auto

text \<open>
  Every run to a covered point either executes a stopping instruction, the last of which
  is found by the scan of some state of \<open>V\<close>, or starts at a covered point.
\<close>

lemma run_covered:
  assumes recip: reciprocal and closed: "closed_states V" and run: "flow_run sz sc p xs q" and "covered V q"
  shows "(\<forall>x \<in> set xs. \<not> stop x) \<and> covered V p \<or>
     (\<exists>ys b k zs l. xs = ys @ (b, k) # zs \<and> (\<forall>z \<in> set zs. \<not> stop z) \<and> (b, l) \<in> V \<and> scan b l = Some k)"
  using run \<open>covered V q\<close>
proof (induction rule: flow_run.induct)
  case run_refl
  then show ?case by simp
next
  case (run_instr xs b i n)
  then obtain l where l: "(b, l) \<in> V" "Suc i \<le> l" "\<forall>k. Suc i \<le> k \<and> k < l \<longrightarrow> \<not> stop (b, k)"
    by (auto simp: covered_def)
  show ?case
  proof (cases "stop (b, i)")
    case True
    with l have "scan b l = Some i" by (intro scan_of_stop) auto
    with l show ?thesis
      by - (rule disjI2, rule exI [of _ xs], rule exI [of _ b], rule exI [of _ i],
        rule exI [of _ "[]"], auto)
  next
    case False
    with l have "covered V (b, i)"
      by (auto simp: covered_def intro!: exI [of _ l]) (metis Suc_leI le_neq_implies_less)
    from run_instr.IH [OF this] show ?thesis
    proof (elim disjE exE conjE, goal_cases)
      case 1
      with False show ?case by auto
    next
      case (2 ys b' k zs l')
      with False show ?case
        by - (rule disjI2, rule exI [of _ ys], rule exI [of _ b'], rule exI [of _ k],
          rule exI [of _ "zs @ [(b, i)]"], auto)
    qed
  qed
next
  case (run_edge xs b n s)
  then obtain l where l: "(s, l) \<in> V" "\<forall>k. 0 \<le> k \<and> k < l \<longrightarrow> \<not> stop (s, k)"
    by (auto simp: covered_def)
  have "b \<in> set (pr s)" using run_edge.hyps recip by (auto simp: reciprocal_def)
  with l run_edge.hyps(2) closed have "(b, n) \<in> V"
    using scan_through [OF l(2)] by (auto simp: closed_states_def)
  then show ?case using run_edge.IH covered_state by blast
qed

end

end
