(* ===== verification/Cfg_Analysis.thy ===== *)
theory Cfg_Analysis
  imports Flow_Graph Py_Text "HOL-Library.Product_Lexorder"
begin

text \<open>
  The microcode control-flow analysis of \<^verbatim>\<open>ida_plugin/v_variable_recovery.py\<close>: the reaching
  definitions of one lvar at a program point, the future uses that make it live there, and
  the reasons for which either proof is rejected.
\<close>

section \<open>Data\<close>

record CfgInstructionFact =
  ci_ea :: "int option"
  ci_whole_definition :: bool
  ci_overlapping_definition :: bool
  ci_use :: bool

record CfgBlockFacts =
  cb_block_id :: int
  cb_instructions :: "CfgInstructionFact list"
  cb_predecessors :: "int list"
  cb_successors :: "int list"

record DefinitionSite =
  ds_block_id :: int
  ds_instruction_index :: int
  ds_ea :: "int option"
  ds_crossed_block :: bool

record ReachingDefinitionResult =
  rd_definitions :: "DefinitionSite list"
  rd_unresolved_path :: bool
  rd_overlapping_definition :: bool
  rd_loop_detected :: bool
  rd_traversal_exhausted :: bool
  rd_visited_states :: nat

record FutureUseResult =
  fu_use_sites :: "DefinitionSite list"
  fu_redefinition_paths :: nat
  fu_unresolved_use :: bool
  fu_loop_detected :: bool
  fu_traversal_exhausted :: bool
  fu_visited_states :: nat

type_synonym point = "int \<times> int"
type_synonym micro_cfg = "(int, CfgBlockFacts) dict"

definition rd_count :: "ReachingDefinitionResult \<Rightarrow> nat" where
  "rd_count r = length (rd_definitions r)"

definition fu_has_use :: "FutureUseResult \<Rightarrow> bool" where
  "fu_has_use r \<longleftrightarrow> fu_use_sites r \<noteq> []"

definition REASON_NOT_LIVE :: string where
  "REASON_NOT_LIVE = ''not_live_at_current_pc''"
definition REASON_NO_DEFINITION :: string where
  "REASON_NO_DEFINITION = ''no_reaching_definition''"
definition REASON_AMBIGUOUS_REACHING_DEFINITION :: string where
  "REASON_AMBIGUOUS_REACHING_DEFINITION = ''ambiguous_reaching_definition''"
definition REASON_CROSS_BLOCK_LIVENESS_UNPROVEN :: string where
  "REASON_CROSS_BLOCK_LIVENESS_UNPROVEN = ''cross_block_liveness_unproven''"

lemmas cfg_reasons = REASON_NOT_LIVE_def REASON_NO_DEFINITION_def
  REASON_AMBIGUOUS_REACHING_DEFINITION_def REASON_CROSS_BLOCK_LIVENESS_UNPROVEN_def

text \<open>\<open>max(64, len(blocks) * 4 + 4)\<close>, unless the caller gives \<open>max_states\<close>.\<close>

definition state_budget :: "nat option \<Rightarrow> nat \<Rightarrow> nat" where
  "state_budget max_states n = (case max_states of Some m \<Rightarrow> m | None \<Rightarrow> max 64 (n * 4 + 4))"

section \<open>Reaching definitions\<close>

datatype back_scan = BackThrough | BackOverlap nat | BackDef nat

text \<open>\<open>for position in range(limit - 1, -1, -1)\<close> with its two \<open>break\<close>s.\<close>

fun scan_back :: "CfgInstructionFact list \<Rightarrow> nat \<Rightarrow> back_scan" where
  "scan_back facts 0 = BackThrough"
| "scan_back facts (Suc position) =
     (let fc = facts ! position
      in if ci_overlapping_definition fc \<and> \<not> ci_whole_definition fc then BackOverlap position
         else if ci_whole_definition fc then BackDef position
         else scan_back facts position)"

record reach_acc =
  ra_definitions :: "(point, DefinitionSite) dict"
  ra_unresolved_path :: bool
  ra_overlapping_definition :: bool

definition state_block :: "micro_cfg \<Rightarrow> point \<Rightarrow> CfgBlockFacts option" where
  "state_block blocks st =
     (case dget blocks (fst st) of
        None \<Rightarrow> None
      | Some block \<Rightarrow>
          if snd st < 0 \<or> int (length (cb_instructions block)) < snd st then None else Some block)"

definition reach_upd :: "micro_cfg \<Rightarrow> point \<Rightarrow> reach_acc \<Rightarrow> reach_acc" where
  "reach_upd blocks st a =
     (case state_block blocks st of
        None \<Rightarrow> a\<lparr>ra_unresolved_path := True\<rparr>
      | Some block \<Rightarrow>
          (case scan_back (cb_instructions block) (nat (snd st)) of
             BackOverlap position \<Rightarrow> a\<lparr>ra_overlapping_definition := True\<rparr>
           | BackDef position \<Rightarrow>
               let fc = cb_instructions block ! position;
                   site = \<lparr>ds_block_id = fst st, ds_instruction_index = int position,
                           ds_ea = ci_ea fc, ds_crossed_block = False\<rparr>
               in a\<lparr>ra_overlapping_definition :=
                      (ra_overlapping_definition a \<or> ci_overlapping_definition fc),
                    ra_definitions := dset (fst st, int position) site (ra_definitions a)\<rparr>
           | BackThrough \<Rightarrow>
               if cb_predecessors block = [] \<or> (\<exists>p \<in> set (cb_predecessors block). dget blocks p = None)
               then a\<lparr>ra_unresolved_path := True\<rparr> else a))"

definition reach_next :: "micro_cfg \<Rightarrow> point \<Rightarrow> point list" where
  "reach_next blocks st =
     (case state_block blocks st of
        None \<Rightarrow> []
      | Some block \<Rightarrow>
          (case scan_back (cb_instructions block) (nat (snd st)) of
             BackThrough \<Rightarrow>
               List.map_filter
                 (\<lambda>p. map_option (\<lambda>pb. (p, int (length (cb_instructions pb)))) (dget blocks p))
                 (cb_predecessors block)
           | _ \<Rightarrow> []))"

definition find_reaching_definitions ::
    "micro_cfg \<Rightarrow> int \<Rightarrow> int \<Rightarrow> nat option \<Rightarrow> ReachingDefinitionResult" where
  "find_reaching_definitions blocks current_block_id current_instruction max_states =
     (let t = traverse (state_budget max_states (length blocks)) (reach_upd blocks) (reach_next blocks)
                (start_traversal (current_block_id, current_instruction)
                  \<lparr>ra_definitions = [], ra_unresolved_path = False, ra_overlapping_definition = False\<rparr>)
      in \<lparr>rd_definitions =
            sort_key (\<lambda>site. (ds_block_id site, ds_instruction_index site))
              (dvals (ra_definitions (t_acc t))),
          rd_unresolved_path = ra_unresolved_path (t_acc t),
          rd_overlapping_definition = ra_overlapping_definition (t_acc t),
          rd_loop_detected = graph_has_cycle (t_edges t),
          rd_traversal_exhausted = t_exhausted t,
          rd_visited_states = length (t_visited t)\<rparr>)"

definition reaching_definition_rejection_reason :: "ReachingDefinitionResult \<Rightarrow> string option" where
  "reaching_definition_rejection_reason r =
     (if rd_overlapping_definition r then Some REASON_AMBIGUOUS_REACHING_DEFINITION
      else if rd_count r = 0 then Some REASON_NO_DEFINITION
      else if rd_count r > 1 then Some REASON_AMBIGUOUS_REACHING_DEFINITION
      else if rd_unresolved_path r then Some REASON_NO_DEFINITION
      else if rd_loop_detected r \<or> rd_traversal_exhausted r
           then Some REASON_AMBIGUOUS_REACHING_DEFINITION
      else None)"

section \<open>Future uses\<close>

datatype fwd_scan = FwdThrough | FwdUse nat | FwdRedef nat

text \<open>
  \<open>for position in range(start, len(block.instructions))\<close>: a use with an address ends the
  scan, a use without one is only noted, and any definition ends it. The flag is the noted
  use.
\<close>

fun scan_fwd :: "CfgInstructionFact list \<Rightarrow> nat \<Rightarrow> fwd_scan \<times> bool" where
  "scan_fwd [] position = (FwdThrough, False)"
| "scan_fwd (fc # facts) position =
     (if ci_use fc \<and> ci_ea fc \<noteq> None then (FwdUse position, False)
      else let unresolved = ci_use fc
           in if ci_whole_definition fc \<or> ci_overlapping_definition fc
              then (FwdRedef position, unresolved)
              else case scan_fwd facts (Suc position) of (r, u) \<Rightarrow> (r, unresolved \<or> u))"

record use_acc =
  ua_use_sites :: "(point, DefinitionSite) dict"
  ua_redefinition_paths :: nat
  ua_unresolved_use :: bool
  ua_traversal_exhausted :: bool

definition block_scan_fwd :: "CfgBlockFacts \<Rightarrow> int \<Rightarrow> fwd_scan \<times> bool" where
  "block_scan_fwd block start = scan_fwd (drop (nat start) (cb_instructions block)) (nat start)"

definition use_upd :: "micro_cfg \<Rightarrow> point \<Rightarrow> point \<Rightarrow> use_acc \<Rightarrow> use_acc" where
  "use_upd blocks initial_state st a =
     (case state_block blocks st of
        None \<Rightarrow> a\<lparr>ua_traversal_exhausted := True\<rparr>
      | Some block \<Rightarrow>
          (case block_scan_fwd block (snd st) of (r, u) \<Rightarrow>
             let a' = a\<lparr>ua_unresolved_use := (ua_unresolved_use a \<or> u)\<rparr>
             in case r of
                  FwdUse position \<Rightarrow>
                    a'\<lparr>ua_use_sites := dset (fst st, int position)
                         \<lparr>ds_block_id = fst st, ds_instruction_index = int position,
                          ds_ea = ci_ea (cb_instructions block ! position),
                          ds_crossed_block = (st \<noteq> initial_state)\<rparr> (ua_use_sites a)\<rparr>
                | FwdRedef position \<Rightarrow> a'\<lparr>ua_redefinition_paths := Suc (ua_redefinition_paths a)\<rparr>
                | FwdThrough \<Rightarrow>
                    if \<exists>s \<in> set (cb_successors block). dget blocks s = None
                    then a'\<lparr>ua_traversal_exhausted := True\<rparr> else a'))"

definition use_next :: "micro_cfg \<Rightarrow> point \<Rightarrow> point list" where
  "use_next blocks st =
     (case state_block blocks st of
        None \<Rightarrow> []
      | Some block \<Rightarrow>
          (case fst (block_scan_fwd block (snd st)) of
             FwdThrough \<Rightarrow>
               List.map_filter (\<lambda>s. map_option (\<lambda>_. (s, 0)) (dget blocks s)) (cb_successors block)
           | _ \<Rightarrow> []))"

definition find_future_uses ::
    "micro_cfg \<Rightarrow> int \<Rightarrow> int \<Rightarrow> nat option \<Rightarrow> FutureUseResult" where
  "find_future_uses blocks current_block_id current_instruction max_states =
     (let initial_state = (current_block_id, current_instruction);
          t = traverse (state_budget max_states (length blocks)) (use_upd blocks initial_state)
                (use_next blocks)
                (start_traversal initial_state
                  \<lparr>ua_use_sites = [], ua_redefinition_paths = 0, ua_unresolved_use = False,
                   ua_traversal_exhausted = False\<rparr>)
      in \<lparr>fu_use_sites =
            sort_key (\<lambda>site. (ds_block_id site, ds_instruction_index site))
              (dvals (ua_use_sites (t_acc t))),
          fu_redefinition_paths = ua_redefinition_paths (t_acc t),
          fu_unresolved_use = ua_unresolved_use (t_acc t),
          fu_loop_detected = graph_has_cycle (t_edges t),
          fu_traversal_exhausted = (ua_traversal_exhausted (t_acc t) \<or> t_exhausted t),
          fu_visited_states = length (t_visited t)\<rparr>)"

definition future_use_rejection_reason :: "FutureUseResult \<Rightarrow> string option" where
  "future_use_rejection_reason r =
     (if fu_has_use r then None
      else if fu_unresolved_use r \<or> fu_loop_detected r \<or> fu_traversal_exhausted r
           then Some REASON_CROSS_BLOCK_LIVENESS_UNPROVEN
      else Some REASON_NOT_LIVE)"

section \<open>Reciprocity of recorded edges\<close>

text \<open>
  \<^verbatim>\<open>_validate_cfg_reciprocity\<close>, over any block type that has predecessor and successor
  lists; the error carries the message of the first edge that fails.
\<close>

definition check_edge ::
    "string \<Rightarrow> ('b \<Rightarrow> int list) \<Rightarrow> (int, 'b) dict \<Rightarrow> int \<Rightarrow> int \<Rightarrow> int \<Rightarrow> int \<Rightarrow> unit res" where
  "check_edge label back blocks block_id other a b =
     (if (case dget blocks other of None \<Rightarrow> False | Some ob \<Rightarrow> block_id \<in> set (back ob)) then Inr ()
      else Inl (RuntimeError
        (label @ '' CFG edge '' @ str_int a @ ''->'' @ str_int b @ '' is not reciprocal'')))"

definition validate_cfg_reciprocity ::
    "('b \<Rightarrow> int list) \<Rightarrow> ('b \<Rightarrow> int list) \<Rightarrow> (int, 'b) dict \<Rightarrow> string \<Rightarrow> unit res" where
  "validate_cfg_reciprocity preds succs blocks label =
     check_all (\<lambda>(block_id, block).
        res_bind
          (check_all (\<lambda>s. check_edge label preds blocks block_id s block_id s) (succs block))
          (\<lambda>_. check_all (\<lambda>p. check_edge label succs blocks block_id p p block_id) (preds block)))
      blocks"

lemma check_edge_ok: "check_edge label back blocks b s x y = Inr u \<longleftrightarrow>
    (\<exists>sb. dget blocks s = Some sb \<and> b \<in> set (back sb))"
  by (auto simp: check_edge_def split: option.splits)

lemma validate_cfg_reciprocity_ok:
  assumes "validate_cfg_reciprocity preds succs blocks label = Inr u" "dget blocks b = Some bl"
  shows validated_succ: "s \<in> set (succs bl) \<Longrightarrow> \<exists>sb. dget blocks s = Some sb \<and> b \<in> set (preds sb)"
    and validated_pred: "p \<in> set (preds bl) \<Longrightarrow> \<exists>pb. dget blocks p = Some pb \<and> b \<in> set (succs pb)"
proof -
  have "(b, bl) \<in> set blocks" using assms(2) by (rule map_of_SomeD)
  with assms(1) have "\<forall>s \<in> set (succs bl). check_edge label preds blocks b s b s = Inr ()"
    and "\<forall>p \<in> set (preds bl). check_edge label succs blocks b p p b = Inr ()"
    by (auto simp: validate_cfg_reciprocity_def check_all_Inr res_bind_Inr_iff)
  then show "s \<in> set (succs bl) \<Longrightarrow> \<exists>sb. dget blocks s = Some sb \<and> b \<in> set (preds sb)"
    and "p \<in> set (preds bl) \<Longrightarrow> \<exists>pb. dget blocks p = Some pb \<and> b \<in> set (succs pb)"
    by (auto simp: check_edge_ok)
qed

section \<open>Properties of the scans\<close>

definition ci_defines :: "CfgInstructionFact \<Rightarrow> bool" where
  "ci_defines i \<longleftrightarrow> ci_whole_definition i \<or> ci_overlapping_definition i"

definition micro_len :: "micro_cfg \<Rightarrow> int \<Rightarrow> nat option" where
  "micro_len blocks b = map_option (\<lambda>bl. length (cb_instructions bl)) (dget blocks b)"

definition micro_succs :: "micro_cfg \<Rightarrow> int \<Rightarrow> int list" where
  "micro_succs blocks b = (case dget blocks b of None \<Rightarrow> [] | Some bl \<Rightarrow> cb_successors bl)"

definition micro_preds :: "micro_cfg \<Rightarrow> int \<Rightarrow> int list" where
  "micro_preds blocks b = (case dget blocks b of None \<Rightarrow> [] | Some bl \<Rightarrow> cb_predecessors bl)"

definition micro_fact :: "micro_cfg \<Rightarrow> int \<times> nat \<Rightarrow> CfgInstructionFact option" where
  "micro_fact blocks x =
     (case dget blocks (fst x) of
        None \<Rightarrow> None
      | Some bl \<Rightarrow> if snd x < length (cb_instructions bl) then Some (cb_instructions bl ! snd x) else None)"

definition micro_defines :: "micro_cfg \<Rightarrow> int \<times> nat \<Rightarrow> bool" where
  "micro_defines blocks x \<longleftrightarrow> (case micro_fact blocks x of None \<Rightarrow> False | Some i \<Rightarrow> ci_defines i)"

text \<open>The index at which the backward scan of a valid state stops.\<close>

definition micro_scan :: "micro_cfg \<Rightarrow> int \<Rightarrow> nat \<Rightarrow> nat option" where
  "micro_scan blocks b l =
     (case dget blocks b of
        None \<Rightarrow> None
      | Some bl \<Rightarrow>
          (case scan_back (cb_instructions bl) (min l (length (cb_instructions bl))) of
             BackThrough \<Rightarrow> None | BackOverlap k \<Rightarrow> Some k | BackDef k \<Rightarrow> Some k))"

lemma scan_back_spec:
  "case scan_back ins l of
     BackThrough \<Rightarrow> \<forall>k < l. \<not> ci_defines (ins ! k)
   | BackOverlap k \<Rightarrow> k < l \<and> ci_overlapping_definition (ins ! k) \<and> \<not> ci_whole_definition (ins ! k) \<and>
       (\<forall>j. k < j \<and> j < l \<longrightarrow> \<not> ci_defines (ins ! j))
   | BackDef k \<Rightarrow> k < l \<and> ci_whole_definition (ins ! k) \<and> (\<forall>j. k < j \<and> j < l \<longrightarrow> \<not> ci_defines (ins ! j))"
proof (induction l)
  case (Suc l)
  have "(\<forall>k < l. P k) \<Longrightarrow> P l \<Longrightarrow> \<forall>k < Suc l. P k" for P by (auto simp: less_Suc_eq)
  with Suc show ?case
    by (auto simp: ci_defines_def Let_def less_Suc_eq split: back_scan.splits)
qed simp

lemma micro_scan_None:
  assumes "micro_scan blocks b l = None" "k < l"
  shows "\<not> micro_defines blocks (b, k)"
proof (cases "dget blocks b")
  case (Some bl)
  let ?n = "min l (length (cb_instructions bl))"
  have "\<forall>k < ?n. \<not> ci_defines (cb_instructions bl ! k)"
    using assms(1) scan_back_spec [where ins = "cb_instructions bl" and l = ?n]
    by (auto simp: micro_scan_def Some split: back_scan.splits)
  with assms(2) show ?thesis by (auto simp: micro_defines_def micro_fact_def Some)
qed (simp add: micro_defines_def micro_fact_def)

lemma micro_scan_Some:
  assumes "micro_scan blocks b l = Some k"
  shows "k < l \<and> micro_defines blocks (b, k) \<and> (\<forall>j. k < j \<and> j < l \<longrightarrow> \<not> micro_defines blocks (b, j))"
proof -
  from assms obtain bl where bl: "dget blocks b = Some bl"
    by (auto simp: micro_scan_def split: option.splits)
  let ?n = "min l (length (cb_instructions bl))"
  have "k < ?n \<and> ci_defines (cb_instructions bl ! k) \<and>
      (\<forall>j. k < j \<and> j < ?n \<longrightarrow> \<not> ci_defines (cb_instructions bl ! j))"
    using assms scan_back_spec [where ins = "cb_instructions bl" and l = ?n] bl
    by (auto simp: micro_scan_def ci_defines_def split: back_scan.splits)
  then show ?thesis
    using bl by (auto simp: micro_defines_def micro_fact_def)
qed

interpretation micro: backward_scan "micro_len blocks" "micro_succs blocks" "micro_preds blocks"
    "micro_defines blocks" "micro_scan blocks" for blocks
  by unfold_locales (auto dest: micro_scan_None micro_scan_Some)

section \<open>What the backward traversal accumulates\<close>

definition state_scan :: "micro_cfg \<Rightarrow> point \<Rightarrow> back_scan option" where
  "state_scan blocks st =
     map_option (\<lambda>bl. scan_back (cb_instructions bl) (nat (snd st))) (state_block blocks st)"

definition reach_unresolved :: "micro_cfg \<Rightarrow> point \<Rightarrow> bool" where
  "reach_unresolved blocks st \<longleftrightarrow>
     (case state_block blocks st of
        None \<Rightarrow> True
      | Some bl \<Rightarrow> state_scan blocks st = Some BackThrough \<and>
          (cb_predecessors bl = [] \<or> (\<exists>p \<in> set (cb_predecessors bl). dget blocks p = None)))"

definition reach_overlap :: "micro_cfg \<Rightarrow> point \<Rightarrow> bool" where
  "reach_overlap blocks st \<longleftrightarrow>
     (case state_block blocks st of
        None \<Rightarrow> False
      | Some bl \<Rightarrow> (case scan_back (cb_instructions bl) (nat (snd st)) of
            BackThrough \<Rightarrow> False
          | BackOverlap k \<Rightarrow> True
          | BackDef k \<Rightarrow> ci_overlapping_definition (cb_instructions bl ! k)))"

lemma reach_upd_unresolved:
  "ra_unresolved_path (reach_upd blocks st a) \<longleftrightarrow> ra_unresolved_path a \<or> reach_unresolved blocks st"
  by (auto simp: reach_upd_def reach_unresolved_def state_scan_def Let_def
      split: option.splits back_scan.splits)

lemma reach_upd_overlap:
  "ra_overlapping_definition (reach_upd blocks st a) \<longleftrightarrow>
     ra_overlapping_definition a \<or> reach_overlap blocks st"
  by (auto simp: reach_upd_def reach_overlap_def Let_def split: option.splits back_scan.splits)

lemma reach_upd_keys:
  "fst ` set (ra_definitions (reach_upd blocks st a)) =
     fst ` set (ra_definitions a) \<union> {(fst st, int k) |k. state_scan blocks st = Some (BackDef k)}"
  by (auto simp: reach_upd_def state_scan_def Let_def dom_update
      split: option.splits back_scan.splits simp flip: dom_map_of_conv_image_fst)

definition site_of_key :: "point \<times> DefinitionSite \<Rightarrow> bool" where
  "site_of_key ks \<longleftrightarrow> fst ks = (ds_block_id (snd ks), ds_instruction_index (snd ks))"

lemma reach_upd_sites:
  "\<forall>x \<in> set (ra_definitions a). site_of_key x \<Longrightarrow>
   x \<in> set (ra_definitions (reach_upd blocks st a)) \<Longrightarrow> site_of_key x"
  by (auto simp: reach_upd_def Let_def site_of_key_def
      split: option.splits back_scan.splits if_splits dest!: set_dset)

lemma reach_upd_dwf: "dwf (ra_definitions a) \<Longrightarrow> dwf (ra_definitions (reach_upd blocks st a))"
  by (auto simp: reach_upd_def Let_def distinct_update split: option.splits back_scan.splits)

lemma reach_fold:
  "ra_unresolved_path (fold (reach_upd blocks) vs a) \<longleftrightarrow>
     ra_unresolved_path a \<or> (\<exists>st \<in> set vs. reach_unresolved blocks st)"
  "ra_overlapping_definition (fold (reach_upd blocks) vs a) \<longleftrightarrow>
     ra_overlapping_definition a \<or> (\<exists>st \<in> set vs. reach_overlap blocks st)"
  "fst ` set (ra_definitions (fold (reach_upd blocks) vs a)) =
     fst ` set (ra_definitions a) \<union>
     {(fst st, int k) |st k. st \<in> set vs \<and> state_scan blocks st = Some (BackDef k)}"
  "dwf (ra_definitions a) \<Longrightarrow> dwf (ra_definitions (fold (reach_upd blocks) vs a))"
  by (induction vs arbitrary: a)
     (auto simp: reach_upd_unresolved reach_upd_overlap reach_upd_keys reach_upd_dwf)

lemma reach_fold_sites:
  assumes "\<forall>x \<in> set (ra_definitions a). site_of_key x"
  shows "\<forall>x \<in> set (ra_definitions (fold (reach_upd blocks) vs a)). site_of_key x"
  using assms
proof (induction vs arbitrary: a)
  case (Cons st vs)
  have "\<forall>x \<in> set (ra_definitions (reach_upd blocks st a)). site_of_key x"
    using Cons.prems reach_upd_sites by blast
  from Cons.IH [OF this] show ?case by simp
qed simp

definition scanned :: "micro_cfg \<Rightarrow> point list \<Rightarrow> (int \<times> nat) set" where
  "scanned blocks vs = {(b, nat l) |b l. (b, l) \<in> set vs \<and> state_block blocks (b, l) \<noteq> None}"

lemma state_block_Some:
  "state_block blocks (b, l) = Some bl \<longleftrightarrow>
     dget blocks b = Some bl \<and> 0 \<le> l \<and> l \<le> int (length (cb_instructions bl))"
  by (auto simp: state_block_def split: option.splits)

lemma state_scan_micro_scan:
  "state_block blocks (b, l) = Some bl \<Longrightarrow>
   micro_scan blocks b (nat l) =
     (case scan_back (cb_instructions bl) (nat l) of
        BackThrough \<Rightarrow> None | BackOverlap k \<Rightarrow> Some k | BackDef k \<Rightarrow> Some k)"
  by (auto simp: micro_scan_def state_block_Some min_absorb1 nat_le_iff)

lemma reach_next_mem:
  "(p, n) \<in> set (reach_next blocks (b, l)) \<longleftrightarrow>
     (\<exists>bl pb. state_block blocks (b, l) = Some bl \<and> state_scan blocks (b, l) = Some BackThrough \<and>
        p \<in> set (cb_predecessors bl) \<and> dget blocks p = Some pb \<and> n = int (length (cb_instructions pb)))"
  by (cases "state_block blocks (b, l)")
     (auto simp: reach_next_def state_scan_def set_map_filter_iff split: back_scan.splits)

lemma scanned_closed:
  assumes "\<forall>st \<in> set vs. set (reach_next blocks st) \<subseteq> set vs"
  shows "micro.closed_states blocks (scanned blocks vs)"
  unfolding micro.closed_states_def
proof (intro allI impI ballI)
  fix b l p n
  assume V: "(b, l) \<in> scanned blocks vs" and none: "micro_scan blocks b l = None"
    and p: "p \<in> set (micro_preds blocks b)" and n: "micro_len blocks p = Some n"
  from V obtain l' bl where l': "(b, l') \<in> set vs" "l = nat l'" "state_block blocks (b, l') = Some bl"
    by (auto simp: scanned_def)
  from n obtain pb where pb: "dget blocks p = Some pb" "n = length (cb_instructions pb)"
    by (auto simp: micro_len_def)
  have "state_scan blocks (b, l') = Some BackThrough"
    using none state_scan_micro_scan [OF l'(3)] l'
    by (auto simp: state_scan_def split: back_scan.splits)
  moreover have "p \<in> set (cb_predecessors bl)"
    using p l'(3) by (simp add: micro_preds_def state_block_Some)
  ultimately have "(p, int n) \<in> set (reach_next blocks (b, l'))"
    using l'(3) pb by (auto simp: reach_next_mem)
  then have "(p, int n) \<in> set vs" using assms l'(1) by blast
  moreover have "state_block blocks (p, int n) = Some pb"
    using pb by (simp add: state_block_Some)
  ultimately show "(p, n) \<in> scanned blocks vs"
    by (force simp: scanned_def)
qed

lemma micro_reciprocal:
  assumes "validate_cfg_reciprocity cb_predecessors cb_successors blocks label = Inr u"
  shows "micro.reciprocal blocks"
  unfolding micro.reciprocal_def
  using validated_succ [OF assms] by (force simp: micro_len_def micro_succs_def micro_preds_def)

section \<open>Correctness of the reaching-definition query\<close>

definition reach_trav :: "micro_cfg \<Rightarrow> point \<Rightarrow> nat option \<Rightarrow> (point, reach_acc) traversal" where
  "reach_trav blocks st m =
     traverse (state_budget m (length blocks)) (reach_upd blocks) (reach_next blocks)
       (start_traversal st
         \<lparr>ra_definitions = [], ra_unresolved_path = False, ra_overlapping_definition = False\<rparr>)"

lemma reach_trav_facts:
  fixes blocks st m
  defines "t \<equiv> reach_trav blocks st m"
  shows "distinct (t_visited t)"
    and "t_acc t = fold (reach_upd blocks) (t_visited t)
           \<lparr>ra_definitions = [], ra_unresolved_path = False, ra_overlapping_definition = False\<rparr>"
    and "set (t_visited t) \<subseteq> (next_rel (reach_next blocks))\<^sup>* `` {st}"
    and "\<not> t_exhausted t \<Longrightarrow> set (t_visited t) = (next_rel (reach_next blocks))\<^sup>* `` {st}"
    and "edges_wf (t_edges t)"
    and "edge_rel (t_edges t) = (SIGMA s : set (t_visited t). set (reach_next blocks s))"
  using traverse_from_start [of "state_budget m (length blocks)" "reach_upd blocks" "reach_next blocks" st
      "\<lparr>ra_definitions = [], ra_unresolved_path = False, ra_overlapping_definition = False\<rparr>"]
  by (auto simp: t_def reach_trav_def trav_core_def trav_done_def)

lemma find_reaching_definitions_trav:
  "find_reaching_definitions blocks cb ci m =
     (let t = reach_trav blocks (cb, ci) m
      in \<lparr>rd_definitions =
            sort_key (\<lambda>site. (ds_block_id site, ds_instruction_index site)) (dvals (ra_definitions (t_acc t))),
          rd_unresolved_path = ra_unresolved_path (t_acc t),
          rd_overlapping_definition = ra_overlapping_definition (t_acc t),
          rd_loop_detected = graph_has_cycle (t_edges t),
          rd_traversal_exhausted = t_exhausted t,
          rd_visited_states = length (t_visited t)\<rparr>)"
  by (simp add: find_reaching_definitions_def reach_trav_def Let_def)

definition site_keys :: "DefinitionSite list \<Rightarrow> point set" where
  "site_keys sites = (\<lambda>site. (ds_block_id site, ds_instruction_index site)) ` set sites"

lemma reach_site_keys:
  "site_keys (rd_definitions (find_reaching_definitions blocks cb ci m)) =
     {(fst st, int k) |st k. st \<in> set (t_visited (reach_trav blocks (cb, ci) m)) \<and>
        state_scan blocks st = Some (BackDef k)}"
proof -
  let ?t = "reach_trav blocks (cb, ci) m"
  have sites: "\<forall>x \<in> set (ra_definitions (t_acc ?t)). site_of_key x"
    unfolding reach_trav_facts(2) by (rule reach_fold_sites) simp
  have "site_keys (rd_definitions (find_reaching_definitions blocks cb ci m)) =
      (\<lambda>x. (ds_block_id (snd x), ds_instruction_index (snd x))) ` set (ra_definitions (t_acc ?t))"
    by (simp add: site_keys_def find_reaching_definitions_trav Let_def image_image)
  also have "\<dots> = fst ` set (ra_definitions (t_acc ?t))"
    using sites by (intro image_cong) (auto simp: site_of_key_def)
  finally show ?thesis
    unfolding reach_trav_facts(2) reach_fold(3) by simp
qed

lemma reach_flags:
  "rd_unresolved_path (find_reaching_definitions blocks cb ci m) \<longleftrightarrow>
     (\<exists>st \<in> set (t_visited (reach_trav blocks (cb, ci) m)). reach_unresolved blocks st)"
  "rd_overlapping_definition (find_reaching_definitions blocks cb ci m) \<longleftrightarrow>
     (\<exists>st \<in> set (t_visited (reach_trav blocks (cb, ci) m)). reach_overlap blocks st)"
  by (simp_all add: find_reaching_definitions_trav Let_def reach_trav_facts(2) reach_fold)

text \<open>Every scanned state lies on a definition-free run to the point the query began at.\<close>

lemma reach_state_run:
  assumes recip: "validate_cfg_reciprocity cb_predecessors cb_successors blocks label = Inr u"
    and start: "state_block blocks (cb, ci) \<noteq> None"
    and reach: "((cb, ci), (b, l)) \<in> (next_rel (reach_next blocks))\<^sup>*"
  shows "state_block blocks (b, l) \<noteq> None \<and>
    (\<exists>xs. flow_run (micro_len blocks) (micro_succs blocks) (b, nat l) xs (cb, nat ci) \<and>
       (\<forall>x \<in> set xs. \<not> micro_defines blocks x))"
  using reach
proof (induction "(b, l)" arbitrary: b l rule: rtrancl_induct)
  case base
  then show ?case using start by (auto intro: run_refl)
next
  case (step q)
  obtain b' l' where q: "q = (b', l')" by (cases q)
  from step(2) q obtain bl pb where bl: "state_block blocks (b', l') = Some bl"
    and thr: "state_scan blocks (b', l') = Some BackThrough"
    and p: "b \<in> set (cb_predecessors bl)" "dget blocks b = Some pb" "l = int (length (cb_instructions pb))"
    by (auto simp: reach_next_mem)
  from step(3) [of b' l'] q obtain xs where
    run: "flow_run (micro_len blocks) (micro_succs blocks) (b', nat l') xs (cb, nat ci)"
    and free: "\<forall>x \<in> set xs. \<not> micro_defines blocks x" by blast
  have dl: "dget blocks b' = Some bl" "l' \<le> int (length (cb_instructions bl))"
    using bl by (simp_all add: state_block_Some)
  have inner: "flow_run (micro_len blocks) (micro_succs blocks) (b', 0)
      (map (Pair b') [0..<nat l']) (b', nat l')"
    using dl by (intro flow_run_block [of _ _ "length (cb_instructions bl)"]) (auto simp: micro_len_def)
  have "b' \<in> set (micro_succs blocks b)"
    using validated_pred [OF recip dl(1) p(1)] p(2) by (auto simp: micro_succs_def)
  then have "flow_run (micro_len blocks) (micro_succs blocks) (b, nat l) [] (b', 0)"
    using p by (intro run_edge [OF run_refl]) (auto simp: micro_len_def)
  from flow_run_trans [OF flow_run_trans [OF run inner] this]
  have "flow_run (micro_len blocks) (micro_succs blocks) (b, nat l)
      (map (Pair b') [0..<nat l'] @ xs) (cb, nat ci)" by simp
  moreover have "\<not> micro_defines blocks (b', k)" if "k < nat l'" for k
    using that micro_scan_None [of blocks b' "nat l'" k] state_scan_micro_scan [OF bl] thr bl
    by (auto simp: state_scan_def)
  ultimately show ?case
    using free p by (auto simp: state_block_Some intro!: exI [of _ "map (Pair b') [0..<nat l'] @ xs"])
qed

lemma state_scan_def_at:
  assumes "state_scan blocks (b, l) = Some (BackDef k)"
  shows "k < nat l" and "\<exists>i. micro_fact blocks (b, k) = Some i \<and> ci_whole_definition i"
    and "k < j \<Longrightarrow> j < nat l \<Longrightarrow> \<not> micro_defines blocks (b, j)"
proof -
  from assms obtain bl where bl: "dget blocks b = Some bl" "0 \<le> l" "l \<le> int (length (cb_instructions bl))"
    and sc: "scan_back (cb_instructions bl) (nat l) = BackDef k"
    by (auto simp: state_scan_def state_block_Some)
  then show "k < nat l" and "\<exists>i. micro_fact blocks (b, k) = Some i \<and> ci_whole_definition i"
    and "k < j \<Longrightarrow> j < nat l \<Longrightarrow> \<not> micro_defines blocks (b, j)"
    using scan_back_spec [where ins = "cb_instructions bl" and l = "nat l"]
    by (auto simp: micro_fact_def micro_defines_def)
qed

lemma reach_found:
  assumes recip: "validate_cfg_reciprocity cb_predecessors cb_successors blocks label = Inr u"
    and ex: "\<not> t_exhausted (reach_trav blocks (cb, ci) m)" and start: "state_block blocks (cb, ci) \<noteq> None"
    and run: "flow_run (micro_len blocks) (micro_succs blocks) p xs (cb, nat ci)"
  shows "(\<forall>x \<in> set xs. \<not> micro_defines blocks x) \<and>
           micro.covered blocks (scanned blocks (t_visited (reach_trav blocks (cb, ci) m))) p \<or>
     (\<exists>ys b k zs l. xs = ys @ (b, k) # zs \<and> (\<forall>z \<in> set zs. \<not> micro_defines blocks z) \<and>
        (b, l) \<in> set (t_visited (reach_trav blocks (cb, ci) m)) \<and> state_block blocks (b, l) \<noteq> None \<and>
        micro_scan blocks b (nat l) = Some k)"
proof -
  let ?vs = "t_visited (reach_trav blocks (cb, ci) m)"
  have vis: "set ?vs = (next_rel (reach_next blocks))\<^sup>* `` {(cb, ci)}"
    using reach_trav_facts(4) ex by blast
  then have "\<forall>st \<in> set ?vs. set (reach_next blocks st) \<subseteq> set ?vs"
    by (auto intro: rtrancl_into_rtrancl)
  then have closed: "micro.closed_states blocks (scanned blocks ?vs)" by (rule scanned_closed)
  have "(cb, nat ci) \<in> scanned blocks ?vs" using start vis by (auto simp: scanned_def)
  then have "micro.covered blocks (scanned blocks ?vs) (cb, nat ci)" by (rule micro.covered_state)
  from micro.run_covered [OF micro_reciprocal [OF recip] closed run this] show ?thesis
  proof (elim disjE exE conjE, goal_cases)
    case (2 ys b k zs l)
    then obtain l' where "(b, l') \<in> set ?vs" "l = nat l'" "state_block blocks (b, l') \<noteq> None"
      by (auto simp: scanned_def)
    with 2 show ?case by blast
  qed blast
qed

lemma found_site_run:
  assumes recip: "validate_cfg_reciprocity cb_predecessors cb_successors blocks label = Inr u"
    and start: "state_block blocks (cb, ci) \<noteq> None"
    and found: "(b, int k) \<in> site_keys (rd_definitions (find_reaching_definitions blocks cb ci m))"
  shows "\<exists>zs. flow_run (micro_len blocks) (micro_succs blocks) (b, k) ((b, k) # zs) (cb, nat ci) \<and>
    (\<forall>z \<in> set zs. \<not> micro_defines blocks z)"
proof -
  from found obtain l where l: "(b, l) \<in> set (t_visited (reach_trav blocks (cb, ci) m))"
    and sc: "state_scan blocks (b, l) = Some (BackDef k)"
    by (auto simp: reach_site_keys)
  note d = state_scan_def_at [OF sc]
  have "((cb, ci), (b, l)) \<in> (next_rel (reach_next blocks))\<^sup>*"
    using l reach_trav_facts(3) [where st = "(cb, ci)"] by blast
  from reach_state_run [OF recip start this] obtain xs lb where
    lb: "state_block blocks (b, l) = Some lb"
    and xs: "flow_run (micro_len blocks) (micro_succs blocks) (b, nat l) xs (cb, nat ci)"
      "\<forall>x \<in> set xs. \<not> micro_defines blocks x" by blast
  have "flow_run (micro_len blocks) (micro_succs blocks) (b, k) (map (Pair b) [k..<nat l]) (b, nat l)"
    using lb d(1) by (intro flow_run_block [of _ _ "length (cb_instructions lb)"])
      (auto simp: state_block_Some micro_len_def)
  from flow_run_trans [OF xs(1) this] d(1)
  have "flow_run (micro_len blocks) (micro_succs blocks) (b, k)
      ((b, k) # map (Pair b) [Suc k..<nat l] @ xs) (cb, nat ci)"
    by (simp add: upt_conv_Cons)
  moreover have "\<forall>z \<in> set (map (Pair b) [Suc k..<nat l] @ xs). \<not> micro_defines blocks z"
    using d(3) xs(2) by auto
  ultimately show ?thesis by blast
qed

lemma scan_whole_site:
  assumes "state_block blocks (b, l) \<noteq> None" "micro_scan blocks b (nat l) = Some k"
    "micro_fact blocks (b, k) = Some i" "ci_whole_definition i"
  shows "state_scan blocks (b, l) = Some (BackDef k)"
proof -
  from assms(1) obtain lb where lb: "state_block blocks (b, l) = Some lb" by blast
  with assms(2-4) state_scan_micro_scan [OF lb]
    scan_back_spec [where ins = "cb_instructions lb" and l = "nat l"]
  show ?thesis
    by (auto simp: state_scan_def micro_fact_def state_block_Some split: back_scan.splits if_splits)
qed

lemma run_found_site:
  assumes recip: "validate_cfg_reciprocity cb_predecessors cb_successors blocks label = Inr u"
    and ex: "\<not> t_exhausted (reach_trav blocks (cb, ci) m)" and start: "state_block blocks (cb, ci) \<noteq> None"
    and whole: "micro_fact blocks (b, k) = Some i" "ci_whole_definition i"
    and run: "flow_run (micro_len blocks) (micro_succs blocks) (b, k) ((b, k) # zs) (cb, nat ci)"
    and free: "\<forall>z \<in> set zs. \<not> micro_defines blocks z"
  shows "(b, int k) \<in> site_keys (rd_definitions (find_reaching_definitions blocks cb ci m))"
proof -
  have stop: "micro_defines blocks (b, k)" using whole by (simp add: micro_defines_def ci_defines_def)
  from reach_found [OF recip ex start run] stop obtain ys b' k' zs' l where
    eq: "(b, k) # zs = ys @ (b', k') # zs'"
    and l: "(b', l) \<in> set (t_visited (reach_trav blocks (cb, ci) m))"
    and sb: "state_block blocks (b', l) \<noteq> None" and sc: "micro_scan blocks b' (nat l) = Some k'"
    by auto
  have "micro_defines blocks (b', k')" using micro_scan_Some [OF sc] by blast
  with eq free have same: "b' = b" "k' = k" by (cases ys; auto)+
  with scan_whole_site [of blocks b l k i] sb sc whole l show ?thesis
    by (force simp: reach_site_keys)
qed

text \<open>
  C2. The query reports exactly the whole definitions from which some run reaches the
  current point without executing another defining instruction.
\<close>

theorem reaching_definitions_exact:
  assumes recip: "validate_cfg_reciprocity cb_predecessors cb_successors blocks label = Inr ()"
    and point: "dget blocks cb = Some bl" "0 \<le> ci" "ci \<le> int (length (cb_instructions bl))"
    and ex: "\<not> rd_traversal_exhausted (find_reaching_definitions blocks cb ci m)"
  shows "(b, int k) \<in> site_keys (rd_definitions (find_reaching_definitions blocks cb ci m)) \<longleftrightarrow>
    (\<exists>i. micro_fact blocks (b, k) = Some i \<and> ci_whole_definition i) \<and>
    (\<exists>zs. flow_run (micro_len blocks) (micro_succs blocks) (b, k) ((b, k) # zs) (cb, nat ci) \<and>
       (\<forall>z \<in> set zs. \<not> micro_defines blocks z))"
proof -
  have start: "state_block blocks (cb, ci) \<noteq> None" using point by (simp add: state_block_Some)
  have nex: "\<not> t_exhausted (reach_trav blocks (cb, ci) m)"
    using ex by (simp add: find_reaching_definitions_trav Let_def)
  have "\<exists>i. micro_fact blocks (b, k) = Some i \<and> ci_whole_definition i"
    if "(b, int k) \<in> site_keys (rd_definitions (find_reaching_definitions blocks cb ci m))"
    using that state_scan_def_at(2) by (fastforce simp: reach_site_keys)
  then show ?thesis
    using found_site_run [OF recip start] run_found_site [OF recip nex start] by blast
qed

definition ex_insn :: "int \<Rightarrow> bool \<Rightarrow> bool \<Rightarrow> CfgInstructionFact" where
  "ex_insn ea whole use =
     \<lparr>ci_ea = Some ea, ci_whole_definition = whole, ci_overlapping_definition = False, ci_use = use\<rparr>"

text \<open>Two blocks in sequence: a definition and a neutral instruction, then a use.\<close>

definition ex_blocks :: micro_cfg where
  "ex_blocks =
     [(0, \<lparr>cb_block_id = 0, cb_instructions = [ex_insn 100 True False, ex_insn 104 False False],
           cb_predecessors = [], cb_successors = [1]\<rparr>),
      (1, \<lparr>cb_block_id = 1, cb_instructions = [ex_insn 108 False True],
           cb_predecessors = [0], cb_successors = []\<rparr>)]"

lemma ex_blocks_recip:
  "validate_cfg_reciprocity cb_predecessors cb_successors ex_blocks ''microcode'' = Inr ()"
  by (simp add: ex_blocks_def validate_cfg_reciprocity_def check_edge_def)

lemma ex_reach:
  "find_reaching_definitions ex_blocks 1 0 None =
     \<lparr>rd_definitions = [\<lparr>ds_block_id = 0, ds_instruction_index = 0, ds_ea = Some 100,
                          ds_crossed_block = False\<rparr>],
      rd_unresolved_path = False, rd_overlapping_definition = False, rd_loop_detected = False,
      rd_traversal_exhausted = False, rd_visited_states = 2\<rparr>"
  by code_simp

lemma reaching_definitions_exact_witness:
  "\<exists>zs. flow_run (micro_len ex_blocks) (micro_succs ex_blocks) (0, 0) ((0, 0) # zs) (1, 0) \<and>
     (\<forall>z \<in> set zs. \<not> micro_defines ex_blocks z)"
proof -
  have "dget ex_blocks 1 = Some \<lparr>cb_block_id = 1, cb_instructions = [ex_insn 108 False True],
      cb_predecessors = [0], cb_successors = []\<rparr>" by (simp add: ex_blocks_def)
  from reaching_definitions_exact [OF ex_blocks_recip this, of 0 None 0 0] show ?thesis
    by (simp add: ex_reach site_keys_def)
qed

lemma rejection_None:
  assumes "reaching_definition_rejection_reason r = None"
  shows "\<exists>site. rd_definitions r = [site]" "\<not> rd_overlapping_definition r" "\<not> rd_unresolved_path r"
    "\<not> rd_traversal_exhausted r" "\<not> rd_loop_detected r"
  using assms
  by (cases "rd_definitions r"; simp add: reaching_definition_rejection_reason_def rd_count_def
      split: if_splits)+

lemma entry_not_covered:
  assumes "\<And>st. st \<in> set vs \<Longrightarrow> \<not> reach_unresolved blocks st"
    and "dget blocks e = Some eb" "cb_predecessors eb = []"
  shows "\<not> micro.covered blocks (scanned blocks vs) (e, 0)"
proof
  assume "micro.covered blocks (scanned blocks vs) (e, 0)"
  then obtain l where l: "(e, l) \<in> set vs" and sb: "state_block blocks (e, l) \<noteq> None"
    and free: "\<forall>k < nat l. \<not> micro_defines blocks (e, k)"
    by (auto simp: micro.covered_def scanned_def)
  from sb assms(2) have sb: "state_block blocks (e, l) = Some eb" by (auto simp: state_block_Some)
  have "micro_scan blocks e (nat l) = None"
    using free by (intro micro.scan_through) auto
  with sb have "state_scan blocks (e, l) = Some BackThrough"
    using state_scan_micro_scan [OF sb] by (auto simp: state_scan_def split: back_scan.splits)
  with sb assms(3) have "reach_unresolved blocks (e, l)" by (simp add: reach_unresolved_def)
  with assms(1) l show False by blast
qed

lemma no_overlap_whole:
  assumes "state_block blocks (b, l) \<noteq> None" "micro_scan blocks b (nat l) = Some k"
    "\<not> reach_overlap blocks (b, l)"
  shows "\<exists>i. state_scan blocks (b, l) = Some (BackDef k) \<and> micro_fact blocks (b, k) = Some i \<and>
    ci_whole_definition i \<and> \<not> ci_overlapping_definition i"
proof -
  from assms(1) obtain bl where bl: "state_block blocks (b, l) = Some bl" by blast
  with assms(2,3) state_scan_micro_scan [OF bl]
  have sc: "scan_back (cb_instructions bl) (nat l) = BackDef k"
    and ov: "\<not> ci_overlapping_definition (cb_instructions bl ! k)"
    by (auto simp: reach_overlap_def split: back_scan.splits)
  then have st: "state_scan blocks (b, l) = Some (BackDef k)" using bl by (simp add: state_scan_def)
  from state_scan_def_at(1,2) [OF this] ov bl st show ?thesis
    by (auto simp: micro_fact_def state_block_Some split: if_splits)
qed

lemma reach_site_ea:
  assumes "site \<in> set (rd_definitions (find_reaching_definitions blocks cb ci m))"
    and "micro_fact blocks (ds_block_id site, nat (ds_instruction_index site)) = Some i"
  shows "ds_ea site = ci_ea i"
proof -
  define P where "P = (\<lambda>a :: reach_acc. \<forall>x \<in> set (ra_definitions a). \<forall>i.
    micro_fact blocks (ds_block_id (snd x), nat (ds_instruction_index (snd x))) = Some i \<longrightarrow> ds_ea (snd x) = ci_ea i)"
  have "P (reach_upd blocks st a)" if "P a" for st a
    using that unfolding P_def
    by (auto simp: reach_upd_def Let_def micro_fact_def state_block_def dest!: set_dset
        split: option.splits back_scan.splits if_splits)
  then have fold: "P (fold (reach_upd blocks) sts a)" if "P a" for sts a
    using that by (induction sts arbitrary: a) auto
  have "P (t_acc (reach_trav blocks (cb, ci) m))"
    unfolding reach_trav_facts(2) by (rule fold) (simp add: P_def)
  with assms show ?thesis by (auto simp: P_def find_reaching_definitions_trav Let_def)
qed

lemma reaching_run:
  assumes recip: "validate_cfg_reciprocity cb_predecessors cb_successors blocks label = Inr ()"
    and entry: "dget blocks e = Some eb" "cb_predecessors eb = []"
    and ok: "reaching_definition_rejection_reason (find_reaching_definitions blocks cb ci m) = None"
    and run: "flow_run (micro_len blocks) (micro_succs blocks) (e, 0) xs (cb, nat ci)"
  shows "\<exists>site ys k zs i.
    rd_definitions (find_reaching_definitions blocks cb ci m) = [site] \<and>
    ds_instruction_index site = int k \<and> xs = ys @ (ds_block_id site, k) # zs \<and>
    micro_fact blocks (ds_block_id site, k) = Some i \<and>
    ci_whole_definition i \<and> \<not> ci_overlapping_definition i \<and>
    (\<forall>z \<in> set zs. \<not> micro_defines blocks z)"
proof -
  let ?r = "find_reaching_definitions blocks cb ci m" and ?t = "reach_trav blocks (cb, ci) m"
  note rej = rejection_None [OF ok]
  have nex: "\<not> t_exhausted ?t" using rej(4) by (simp add: find_reaching_definitions_trav Let_def)
  have resolved: "st \<in> set (t_visited ?t) \<Longrightarrow> \<not> reach_unresolved blocks st" for st
    using rej(3) by (auto simp: reach_flags)
  have "(cb, ci) \<in> set (t_visited ?t)"
    using reach_trav_facts(4) [where st = "(cb, ci)" and m = m] nex by auto
  with resolved [of "(cb, ci)"] have start: "state_block blocks (cb, ci) \<noteq> None"
    by (auto simp: reach_unresolved_def split: option.splits)
  have "\<not> micro.covered blocks (scanned blocks (t_visited ?t)) (e, 0)"
    using resolved entry by (rule entry_not_covered)
  with reach_found [OF recip nex start run] obtain ys b k zs l where xs: "xs = ys @ (b, k) # zs"
    and free: "\<forall>z \<in> set zs. \<not> micro_defines blocks z" and l: "(b, l) \<in> set (t_visited ?t)"
    and sb: "state_block blocks (b, l) \<noteq> None" and sc: "micro_scan blocks b (nat l) = Some k"
    by blast
  have "\<not> reach_overlap blocks (b, l)" using rej(2) l by (auto simp: reach_flags)
  from no_overlap_whole [OF sb sc this] obtain i where
    st: "state_scan blocks (b, l) = Some (BackDef k)" and
    i: "micro_fact blocks (b, k) = Some i" "ci_whole_definition i" "\<not> ci_overlapping_definition i"
    by blast
  from rej(1) obtain site where site: "rd_definitions ?r = [site]" by blast
  have "(b, int k) \<in> site_keys (rd_definitions ?r)" using l st by (force simp: reach_site_keys)
  with site have "ds_block_id site = b" "ds_instruction_index site = int k"
    by (auto simp: site_keys_def)
  with site xs i free show ?thesis by blast
qed

text \<open>
  C1. When the query is not rejected, every run from a function entry (a block without
  predecessors) to the current point executes the single reported definition, that
  definition writes the whole variable and nothing else overlapping it, and no later
  instruction of the run defines the variable.
\<close>

theorem reaching_definition_sound:
  assumes recip: "validate_cfg_reciprocity cb_predecessors cb_successors blocks label = Inr ()"
    and entry: "dget blocks e = Some eb" "cb_predecessors eb = []"
    and ok: "reaching_definition_rejection_reason (find_reaching_definitions blocks cb ci m) = None"
    and run: "flow_run (micro_len blocks) (micro_succs blocks) (e, 0) xs (cb, nat ci)"
  shows "\<exists>site ys k zs i.
    rd_definitions (find_reaching_definitions blocks cb ci m) = [site] \<and>
    ds_instruction_index site = int k \<and> xs = ys @ (ds_block_id site, k) # zs \<and>
    micro_fact blocks (ds_block_id site, k) = Some i \<and>
    ci_whole_definition i \<and> \<not> ci_overlapping_definition i \<and>
    (\<forall>z \<in> set zs. \<not> micro_defines blocks z)"
  using assms by (rule reaching_run)

lemma ex_run: "flow_run (micro_len ex_blocks) (micro_succs ex_blocks) (0, 0) [(0, 0), (0, 1)] (1, 0)"
proof -
  have "flow_run (micro_len ex_blocks) (micro_succs ex_blocks) (0, 0) (map (Pair 0) [0..<2]) (0, 2)"
    by (rule flow_run_block [of _ _ 2]) (simp_all add: ex_blocks_def micro_len_def)
  then have "flow_run (micro_len ex_blocks) (micro_succs ex_blocks) (0, 0) [(0, 0), (0, 1)] (0, 2)"
    by (simp add: upt_conv_Cons)
  then show ?thesis
    by (rule run_edge) (simp_all add: ex_blocks_def micro_len_def micro_succs_def)
qed

lemma reaching_definition_sound_witness:
  "\<exists>ys k zs i. [(0, 0), (0, 1)] = ys @ (0::int, k) # zs \<and> micro_fact ex_blocks (0, k) = Some i \<and>
     ci_whole_definition i \<and> (\<forall>z \<in> set zs. \<not> micro_defines ex_blocks z)"
proof -
  have e: "dget ex_blocks 0 = Some \<lparr>cb_block_id = 0,
      cb_instructions = [ex_insn 100 True False, ex_insn 104 False False],
      cb_predecessors = [], cb_successors = [1]\<rparr>" by (simp add: ex_blocks_def)
  have ok: "reaching_definition_rejection_reason (find_reaching_definitions ex_blocks 1 0 None) = None"
    by (simp add: ex_reach reaching_definition_rejection_reason_def rd_count_def)
  have "flow_run (micro_len ex_blocks) (micro_succs ex_blocks) (0, 0) [(0, 0), (0, 1)] (1, nat 0)"
    using ex_run by simp
  from reaching_definition_sound [OF ex_blocks_recip e _ ok this] show ?thesis
    by (auto simp: ex_reach)
qed

section \<open>Bounds\<close>

lemma card_block_states: "card ((\<lambda>(b, bl). f b bl) ` set (blocks :: ('k, 'b) dict)) \<le> length blocks"
  by (metis card_image_le card_length finite_set le_trans)

text \<open>
  C37. With the default budget the backward query always explores its whole state space: it
  is never cut off, and scans at most one state per block besides the initial one.
\<close>

theorem reaching_budget_suffices:
  "\<not> rd_traversal_exhausted (find_reaching_definitions blocks cb ci None) \<and>
   rd_visited_states (find_reaching_definitions blocks cb ci None) \<le> Suc (length blocks)"
proof -
  let ?A = "insert (cb, ci) ((\<lambda>(b, bl). (b, int (length (cb_instructions bl)))) ` set blocks)"
  let ?t = "reach_trav blocks (cb, ci) None"
  have cA: "card ?A \<le> Suc (length blocks)"
    using card_block_states [of "\<lambda>b bl. (b, int (length (cb_instructions bl)))" blocks]
    by (simp add: card_insert_if)
  have "st \<in> ?A" if "((cb, ci), st) \<in> (next_rel (reach_next blocks))\<^sup>*" for st
    using that
    by (induction rule: rtrancl_induct) (force simp: reach_next_mem dest!: map_of_SomeD)+
  then have sub: "(next_rel (reach_next blocks))\<^sup>* `` {(cb, ci)} \<subseteq> ?A" by blast
  have "\<not> t_exhausted ?t"
    unfolding reach_trav_def
    using sub cA by (intro traverse_not_exhausted [of ?A]) (auto simp: state_budget_def)
  moreover have "length (t_visited ?t) \<le> card ?A"
    using sub reach_trav_facts(1,3) [where st = "(cb, ci)" and m = None]
    by (intro finite_measure_less) auto
  ultimately show ?thesis
    using cA by (simp add: find_reaching_definitions_trav Let_def)
qed

end
