(* ===== verification/V_Recovery.thy ===== *)
theory V_Recovery
  imports Dynvar_Core Registers Cfg_Analysis
begin

text \<open>
  The runtime side of \<^verbatim>\<open>ida_plugin/v_variable_recovery.py\<close>: the class \<^verbatim>\<open>VVariableRecovery\<close>, which
  plans register and memory reads for the non-argument lvars of the current function,
  correlates the responses and keeps the last successful values. The static analysis and the
  message factory are arguments, as they are in the code.
\<close>

definition CONFIDENCE_EXACT_REGISTER_LOCATION :: string where
  "CONFIDENCE_EXACT_REGISTER_LOCATION = ''exact_register_location''"
definition CONFIDENCE_EXACT_STACK_LOCATION :: string where
  "CONFIDENCE_EXACT_STACK_LOCATION = ''exact_stack_location''"
definition CONFIDENCE_EXACT_CONSTANT :: string where "CONFIDENCE_EXACT_CONSTANT = ''exact_constant''"
definition CONFIDENCE_STALE_RUNTIME_VALUE :: string where
  "CONFIDENCE_STALE_RUNTIME_VALUE = ''stale_runtime_value''"
definition REASON_UNRESOLVED_STACK :: string where "REASON_UNRESOLVED_STACK = ''unresolved_stack_location''"
definition REASON_MICROCODE :: string where "REASON_MICROCODE = ''microcode_unavailable''"

definition REASON_ANALYSIS_DEFERRED :: string where "REASON_ANALYSIS_DEFERRED = ''analysis_deferred''"

section \<open>Data\<close>

record RecoveryEvidence =
  re_lvar_index :: int
  re_storage_kind :: string
  re_storage :: string
  re_source_ea :: "int option"
  re_confidence :: string
  re_reason :: string
  re_register :: "RegisterSpec option"
  re_stack_pointer_offset :: "int option"
  re_constant_value :: "int option"
  re_width :: int

definition RecoveryEvidence_new :: "int \<Rightarrow> RecoveryEvidence" where
  "RecoveryEvidence_new index =
     \<lparr>re_lvar_index = index, re_storage_kind = ''unknown'', re_storage = [], re_source_ea = None,
      re_confidence = CONFIDENCE_UNKNOWN, re_reason = REASON_NO_DEFINITION, re_register = None,
      re_stack_pointer_offset = None, re_constant_value = None, re_width = 0\<rparr>"

record RecoveryAnalysis =
  ra_ok :: bool
  ra_evidence_by_index :: "(int, RecoveryEvidence) dict"
  ra_error :: string
  ra_debug_lines :: "string list"

record VVariableRecoveryRecord =
  vv_lvar_index :: int
  vv_name :: string
  vv_type_string :: string
  vv_width :: int
  vv_printed_location :: string
  vv_function_ea :: int
  vv_current_ea :: int
  vv_candidate_storage_kind :: string
  vv_recovery_status :: string
  vv_confidence :: string
  vv_reason :: string
  vv_storage :: string
  vv_source_ea :: "int option"
  vv_value :: string
  vv_current_runtime_pc :: string
  vv_current_pc_seq :: int
  vv_last_successful_value :: string
  vv_last_successful_pc_seq :: "int option"
  vv_last_update_pc :: string

record HistoryValue =
  hv_name :: string
  hv_width :: int
  hv_type_string :: string
  hv_lvar_defea :: string
  hv_value :: string
  hv_pc_seq :: int
  hv_runtime_pc :: string
  hv_source_ea :: "int option"

record PendingVRequest =
  vp_kind :: string
  vp_pc_seq :: int
  vp_request_id :: string
  vp_runtime_pc :: string
  vp_lvar_indexes :: "int list"
  vp_registers :: "string list"
  vp_address :: string
  vp_size :: int

record VRecoveryPlan =
  vl_register_request :: "payload option"
  vl_debug_lines :: "string list"

record VVariableRecovery =
  vs_max_history :: int
  vs_history :: "(int \<times> int, HistoryValue) dict"
  vs_records :: "(int, VVariableRecoveryRecord) dict"
  vs_evidence :: "(int, RecoveryEvidence) dict"
  vs_pending :: "(string, PendingVRequest) dict"
  vs_pc_seq :: "int option"
  vs_runtime_pc :: string
  vs_function_ea :: int
  vs_current_ea :: int
  vs_source_variables :: "VariableRecord list"

text \<open>
  The static analysis: a function of the function, the current address, the lvars to analyse and
  the decompiled function, which may raise (\<open>Inl\<close>, with the text of the exception). The message
  factory builds a message and advances its own state.
\<close>

type_synonym 'cf AnalysisProvider =
  "int \<Rightarrow> int \<Rightarrow> VariableRecord list \<Rightarrow> 'cf option \<Rightarrow> string + RecoveryAnalysis"
type_synonym 'e EnvelopeFactory = "string \<Rightarrow> payload \<Rightarrow> 'e \<Rightarrow> payload \<times> 'e"

definition VVariableRecovery_init :: "int \<Rightarrow> VVariableRecovery" where
  "VVariableRecovery_init max_history =
     \<lparr>vs_max_history = max 1 max_history, vs_history = [], vs_records = [], vs_evidence = [], vs_pending = [],
      vs_pc_seq = None, vs_runtime_pc = [], vs_function_ea = 0, vs_current_ea = 0, vs_source_variables = []\<rparr>"

definition v_records :: "VVariableRecovery \<Rightarrow> VVariableRecoveryRecord list" where
  "v_records s = map (\<lambda>index. the (dget (vs_records s) index)) (sort (dkeys (vs_records s)))"

definition is_v_request_id :: "json \<Rightarrow> bool" where
  "is_v_request_id request_id =
     (case json_str request_id of Some s \<Rightarrow> py_startswith s ''v-'' | None \<Rightarrow> False)"

section \<open>Contexts\<close>

definition v_start_context :: "int \<Rightarrow> int \<Rightarrow> string \<Rightarrow> int \<Rightarrow> VVariableRecovery \<Rightarrow> VVariableRecovery" where
  "v_start_context function_ea current_ea runtime_pc pc_seq s =
     s\<lparr>vs_function_ea := function_ea, vs_current_ea := current_ea, vs_runtime_pc := runtime_pc,
       vs_pc_seq := Some pc_seq, vs_pending := [], vs_records := [], vs_evidence := [],
       vs_source_variables := []\<rparr>"

definition invalidate_pc :: "int \<Rightarrow> string \<Rightarrow> VVariableRecovery \<Rightarrow> VVariableRecovery" where
  "invalidate_pc pc_seq runtime_pc = v_start_context 0 0 runtime_pc pc_seq"

definition clear_runtime_state :: "VVariableRecovery \<Rightarrow> VVariableRecovery" where
  "clear_runtime_state s =
     s\<lparr>vs_pc_seq := None, vs_runtime_pc := [], vs_function_ea := 0, vs_current_ea := 0, vs_pending := [],
       vs_records := [], vs_evidence := [], vs_source_variables := []\<rparr>"

section \<open>Records\<close>

definition matching_history :: "VariableRecord \<Rightarrow> VVariableRecovery \<Rightarrow> HistoryValue option" where
  "matching_history variable s =
     (case dget (vs_history s) (vr_function_start_ea variable, vr_lvar_index variable) of
        None \<Rightarrow> None
      | Some history \<Rightarrow>
          if hv_name history \<noteq> vr_name variable \<or> hv_width history \<noteq> vr_size variable \<or>
             hv_type_string history \<noteq> vr_type_string variable \<or> hv_lvar_defea history \<noteq> vr_lvar_defea variable
          then None else Some history)"

definition new_record ::
    "VariableRecord \<Rightarrow> RecoveryEvidence \<Rightarrow> int \<Rightarrow> string \<Rightarrow> int \<Rightarrow> VVariableRecovery \<Rightarrow> VVariableRecoveryRecord" where
  "new_record variable evidence pc_seq runtime_pc current_ea s =
     (let history = matching_history variable s
      in \<lparr>vv_lvar_index = vr_lvar_index variable, vv_name = vr_name variable,
          vv_type_string = vr_type_string variable, vv_width = vr_size variable,
          vv_printed_location =
            (if vr_printed_location variable \<noteq> [] then vr_printed_location variable else vr_location variable),
          vv_function_ea = vr_function_start_ea variable, vv_current_ea = current_ea,
          vv_candidate_storage_kind = re_storage_kind evidence, vv_recovery_status = STATUS_UNAVAILABLE,
          vv_confidence = CONFIDENCE_UNKNOWN, vv_reason = re_reason evidence, vv_storage = re_storage evidence,
          vv_source_ea = re_source_ea evidence, vv_value = [], vv_current_runtime_pc = runtime_pc,
          vv_current_pc_seq = pc_seq,
          vv_last_successful_value = (case history of None \<Rightarrow> [] | Some h \<Rightarrow> hv_value h),
          vv_last_successful_pc_seq = map_option hv_pc_seq history,
          vv_last_update_pc = (case history of None \<Rightarrow> [] | Some h \<Rightarrow> hv_runtime_pc h)\<rparr>)"

definition set_stale_or_unavailable :: "bool \<Rightarrow> string \<Rightarrow> VVariableRecoveryRecord \<Rightarrow> VVariableRecoveryRecord" where
  "set_stale_or_unavailable stale reason r =
     (if stale
      then r\<lparr>vv_value := vv_last_successful_value r, vv_recovery_status := STATUS_STALE,
             vv_confidence := CONFIDENCE_STALE_RUNTIME_VALUE, vv_reason := reason\<rparr>
      else r\<lparr>vv_value := [], vv_recovery_status := STATUS_UNAVAILABLE, vv_confidence := CONFIDENCE_UNKNOWN,
             vv_reason := reason\<rparr>)"

definition set_waiting :: "string \<Rightarrow> VVariableRecoveryRecord \<Rightarrow> VVariableRecoveryRecord" where
  "set_waiting reason r = set_stale_or_unavailable (vv_last_successful_value r \<noteq> []) reason r"

definition set_unavailable :: "string \<Rightarrow> bool \<Rightarrow> VVariableRecoveryRecord \<Rightarrow> VVariableRecoveryRecord" where
  "set_unavailable reason preserve_stale r =
     set_stale_or_unavailable (preserve_stale \<and> vv_last_successful_value r \<noteq> []) reason r"

definition v_set_error :: "string \<Rightarrow> VVariableRecoveryRecord \<Rightarrow> VVariableRecoveryRecord" where
  "v_set_error reason r =
     r\<lparr>vv_value := [], vv_recovery_status := STATUS_ERROR, vv_confidence := CONFIDENCE_READ_FAILED,
       vv_reason := reason\<rparr>"

section \<open>History\<close>

definition prune_history :: "VVariableRecovery \<Rightarrow> VVariableRecovery" where
  "prune_history s =
     (let overflow = int (length (vs_history s)) - vs_max_history s
      in if overflow \<le> 0 then s
         else let oldest = sort_key (\<lambda>key. hv_pc_seq (the (dget (vs_history s) key))) (dkeys (vs_history s))
              in s\<lparr>vs_history := fold (\<lambda>key. ddel key) (take (nat overflow) oldest) (vs_history s)\<rparr>)"

definition row_lvar_defea :: "int \<Rightarrow> VVariableRecovery \<Rightarrow> string" where
  "row_lvar_defea lvar_index s =
     (case find (\<lambda>row. vr_lvar_index row = lvar_index) (vs_source_variables s) of
        None \<Rightarrow> [] | Some row \<Rightarrow> vr_lvar_defea row)"

text \<open>The record after \<open>_mark_fresh\<close>, and the history entry it leaves.\<close>

definition fresh_record :: "string \<Rightarrow> string \<Rightarrow> VVariableRecoveryRecord \<Rightarrow> VVariableRecoveryRecord" where
  "fresh_record value confidence r =
     r\<lparr>vv_value := value, vv_recovery_status := STATUS_FRESH, vv_confidence := confidence,
       vv_reason := (if vv_candidate_storage_kind r = ''constant''
                     then ''current reaching definition is an exact constant''
                     else if vv_candidate_storage_kind r = ''register''
                     then ''register location is proven live at current PC''
                     else vv_reason r),
       vv_last_successful_value := value, vv_last_successful_pc_seq := Some (vv_current_pc_seq r),
       vv_last_update_pc := vv_current_runtime_pc r\<rparr>"

definition history_of :: "VVariableRecoveryRecord \<Rightarrow> string \<Rightarrow> VVariableRecovery \<Rightarrow> HistoryValue" where
  "history_of r value s =
     \<lparr>hv_name = vv_name r, hv_width = vv_width r, hv_type_string = vv_type_string r,
      hv_lvar_defea = row_lvar_defea (vv_lvar_index r) s, hv_value = value, hv_pc_seq = vv_current_pc_seq r,
      hv_runtime_pc = vv_current_runtime_pc r, hv_source_ea = vv_source_ea r\<rparr>"

definition mark_fresh ::
    "VVariableRecoveryRecord \<Rightarrow> string \<Rightarrow> string \<Rightarrow> VVariableRecovery \<Rightarrow>
     VVariableRecoveryRecord \<times> VVariableRecovery" where
  "mark_fresh r value confidence s =
     (let r' = fresh_record value confidence r
      in (r', prune_history (s\<lparr>vs_history :=
            dset (vv_function_ea r', vv_lvar_index r') (history_of r' value s) (vs_history s)\<rparr>)))"

section \<open>Diagnostics\<close>

definition result_log_line :: "VVariableRecoveryRecord \<Rightarrow> string" where
  "result_log_line r =
     (let source = (if vv_storage r \<noteq> [] then vv_storage r
                    else if vv_candidate_storage_kind r \<noteq> [] then vv_candidate_storage_kind r else ''none'');
          source = (if vv_candidate_storage_kind r = ''register'' \<and> source \<noteq> ''none'' \<and>
                       \<not> py_startswith source ''register:''
                    then ''register:'' @ source else source);
          result = (if py_startswith (vv_reason r) ''waiting for '' then ''pending'' else vv_recovery_status r)
      in ''v-recovery name='' @ vv_name r @ '' result='' @ result @ '' source='' @ source @
         '' reason='' @ vv_reason r)"

section \<open>A new program counter\<close>

text \<open>The evidence of one variable, and what the loop of \<open>begin_pc\<close> decides from it.\<close>

definition variable_evidence ::
    "bool \<Rightarrow> int list \<Rightarrow> (int, RecoveryEvidence) dict \<Rightarrow> VariableRecord \<Rightarrow> RecoveryEvidence" where
  "variable_evidence ok selected evidence variable =
     (let i = vr_lvar_index variable
      in if \<not> ok then (RecoveryEvidence_new i)\<lparr>re_reason := REASON_MICROCODE\<rparr>
         else if i \<in> set selected
         then (case dget evidence i of Some e \<Rightarrow> e | None \<Rightarrow> RecoveryEvidence_new i)
         else (RecoveryEvidence_new i)\<lparr>re_reason := REASON_ANALYSIS_DEFERRED\<rparr>)"

datatype decision =
    Unavailable string bool
  | Constant string
  | ReadRegister string
  | ReadStack

definition decide :: "bool \<Rightarrow> VariableRecord \<Rightarrow> RecoveryEvidence \<Rightarrow> decision" where
  "decide ok variable e =
     (if \<not> ok then Unavailable REASON_MICROCODE False
      else case (re_storage_kind e = ''constant'', re_constant_value e) of
        (True, Some c) \<Rightarrow>
          (case format_constant c (vr_size variable) of
             Inl _ \<Rightarrow> Unavailable REASON_UNSUPPORTED_WIDTH True
           | Inr value \<Rightarrow> Constant value)
      | _ \<Rightarrow> (case (re_storage_kind e = ''register'', re_register e) of
          (True, Some spec) \<Rightarrow>
            if vr_size variable \<notin> set SUPPORTED_WIDTHS \<or> vr_size variable > rs_width spec
            then Unavailable REASON_UNSUPPORTED_WIDTH True
            else ReadRegister (rs_full_register spec)
        | _ \<Rightarrow> (case (re_storage_kind e = ''stack'', re_stack_pointer_offset e) of
            (True, Some _) \<Rightarrow>
              if vr_size variable \<notin> set SUPPORTED_WIDTHS then Unavailable REASON_UNSUPPORTED_WIDTH True
              else ReadStack
          | _ \<Rightarrow> Unavailable (re_reason e) True)))"

record begin_acc =
  ba_state :: VVariableRecovery
  ba_registers :: "string list"
  ba_indexes :: "int list"
  ba_debug :: "string list"

definition candidate_line :: "VariableRecord \<Rightarrow> int \<Rightarrow> string" where
  "candidate_line variable current_ea =
     ''v-candidate name='' @ vr_name variable @ '' index='' @ str_int (vr_lvar_index variable) @ '' location='' @
     (if vr_printed_location variable \<noteq> [] then vr_printed_location variable
      else if vr_location variable \<noteq> [] then vr_location variable else ''unknown'') @
     '' current_ea='' @ hex0x current_ea"

text \<open>The record and the state after the decision on one variable.\<close>

definition decide_record ::
    "decision \<Rightarrow> string \<Rightarrow> VVariableRecoveryRecord \<Rightarrow> VVariableRecovery \<Rightarrow>
     VVariableRecoveryRecord \<times> VVariableRecovery" where
  "decide_record d confidence r s =
     (case d of
        Unavailable reason preserve_stale \<Rightarrow> (set_unavailable reason preserve_stale r, s)
      | Constant value \<Rightarrow> mark_fresh r value confidence s
      | ReadRegister full \<Rightarrow> (set_waiting (''waiting for register '' @ full) r, s)
      | ReadStack \<Rightarrow> (set_waiting ''waiting for rsp to resolve exact stack location'' r, s))"

fun decision_registers :: "decision \<Rightarrow> string list" where
  "decision_registers (ReadRegister full) = [full]"
| "decision_registers ReadStack = [''rsp'']"
| "decision_registers _ = []"

definition begin_variable ::
    "bool \<Rightarrow> int list \<Rightarrow> int \<Rightarrow> string \<Rightarrow> int \<Rightarrow> VariableRecord \<Rightarrow> begin_acc \<Rightarrow> begin_acc" where
  "begin_variable ok selected current_ea runtime_pc pc_seq variable acc =
     (let i = vr_lvar_index variable; s = ba_state acc;
          e = variable_evidence ok selected (vs_evidence s) variable;
          d = decide ok variable e
      in case decide_record d (re_confidence e) (new_record variable e pc_seq runtime_pc current_ea s) s of
           (r, s') \<Rightarrow>
             \<lparr>ba_state = s'\<lparr>vs_records := dset i r (vs_records s')\<rparr>,
              ba_registers = ba_registers acc @ decision_registers d,
              ba_indexes = ba_indexes acc @ (if decision_registers d = [] then [] else [i]),
              ba_debug = ba_debug acc @ [candidate_line variable current_ea, result_log_line r]\<rparr>)"

definition v_reg_id :: "int \<Rightarrow> string" where
  "v_reg_id pc_seq = ''v-reg-'' @ str_int pc_seq @ ''-runtime''"

definition request_v_registers ::
    "'e EnvelopeFactory \<Rightarrow> int \<Rightarrow> string \<Rightarrow> int list \<Rightarrow> string list \<Rightarrow> VVariableRecovery \<Rightarrow> 'e \<Rightarrow>
     payload \<times> VVariableRecovery \<times> 'e" where
  "request_v_registers env pc_seq runtime_pc indexes registers s x =
     (let pending = \<lparr>vp_kind = ''reg'', vp_pc_seq = pc_seq, vp_request_id = v_reg_id pc_seq,
            vp_runtime_pc = runtime_pc, vp_lvar_indexes = indexes, vp_registers = registers,
            vp_address = [], vp_size = 0\<rparr>
      in case env ''reg_request''
           [(''pc_seq'', JInt pc_seq), (''request_id'', JStr (v_reg_id pc_seq)), (''runtime_pc'', JStr runtime_pc),
            (''registers'', JList (map JStr registers)), (''reason'', JStr ''v_variable_recovery'')] x of
           (message, x') \<Rightarrow> (message, s\<lparr>vs_pending := dset (v_reg_id pc_seq) pending (vs_pending s)\<rparr>, x'))"

definition run_analysis ::
    "'cf AnalysisProvider \<Rightarrow> int \<Rightarrow> int \<Rightarrow> VariableRecord list \<Rightarrow> 'cf option \<Rightarrow> RecoveryAnalysis" where
  "run_analysis provider function_ea current_ea analysis_variables cfunc =
     (case provider function_ea current_ea analysis_variables cfunc of
        Inl exc \<Rightarrow> \<lparr>ra_ok = False, ra_evidence_by_index = [], ra_error = REASON_MICROCODE @ '': '' @ exc,
                    ra_debug_lines = []\<rparr>
      | Inr analysis \<Rightarrow> analysis)"

definition analysis_lines :: "RecoveryAnalysis \<Rightarrow> int \<Rightarrow> string list" where
  "analysis_lines analysis function_ea =
     ra_debug_lines analysis @
     (if ra_ok analysis then []
      else [''v-microcode failure function='' @ hex0x function_ea @ '' reason='' @
            (if ra_error analysis \<noteq> [] then ra_error analysis else REASON_MICROCODE)])"

text \<open>The loop over the local variables, from the context the call starts.\<close>

definition selected_indexes :: "VariableRecord list \<Rightarrow> int list option \<Rightarrow> int list" where
  "selected_indexes locals analysis_lvar_indexes =
     (case analysis_lvar_indexes of None \<Rightarrow> map vr_lvar_index locals | Some xs \<Rightarrow> xs)"

definition begin_loop ::
    "'cf AnalysisProvider \<Rightarrow> VariableRecord list \<Rightarrow> int \<Rightarrow> int \<Rightarrow> string \<Rightarrow> int \<Rightarrow> 'cf option \<Rightarrow> int list option \<Rightarrow>
     VVariableRecovery \<Rightarrow> begin_acc" where
  "begin_loop provider variables function_ea current_ea runtime_pc pc_seq cfunc analysis_lvar_indexes s =
     (let locals = filter (\<lambda>v. \<not> vr_is_arg v) variables;
          selected = selected_indexes locals analysis_lvar_indexes;
          analysis = run_analysis provider function_ea current_ea
            (filter (\<lambda>v. vr_lvar_index v \<in> set selected) locals) cfunc;
          s1 = (v_start_context function_ea current_ea runtime_pc pc_seq s)
                 \<lparr>vs_source_variables := locals, vs_evidence := ra_evidence_by_index analysis\<rparr>
      in fold (begin_variable (ra_ok analysis) selected current_ea runtime_pc pc_seq) locals
           \<lparr>ba_state = s1, ba_registers = [], ba_indexes = [], ba_debug = analysis_lines analysis function_ea\<rparr>)"

definition begin_pc ::
    "'cf AnalysisProvider \<Rightarrow> 'e EnvelopeFactory \<Rightarrow> VariableRecord list \<Rightarrow> int \<Rightarrow> int \<Rightarrow> string \<Rightarrow> int \<Rightarrow>
     'cf option \<Rightarrow> int list option \<Rightarrow> VVariableRecovery \<Rightarrow> 'e \<Rightarrow> VRecoveryPlan \<times> VVariableRecovery \<times> 'e" where
  "begin_pc provider env variables function_ea current_ea runtime_pc pc_seq cfunc analysis_lvar_indexes s x =
     (let acc = begin_loop provider variables function_ea current_ea runtime_pc pc_seq cfunc
                  analysis_lvar_indexes s;
          ordered = sort_registers (ba_registers acc);
          debug = ba_debug acc @ [''v-request pc_seq='' @ str_int pc_seq @ '' registers='' @ names_text ordered @
                    '' memory=[]'']
      in if ordered = [] then (\<lparr>vl_register_request = None, vl_debug_lines = debug\<rparr>, ba_state acc, x)
         else case request_v_registers env pc_seq runtime_pc (ba_indexes acc) ordered (ba_state acc) x of
                (request, s', x') \<Rightarrow> (\<lparr>vl_register_request = Some request, vl_debug_lines = debug\<rparr>, s', x'))"

section \<open>Responses\<close>

definition v_take_pending ::
    "payload \<Rightarrow> string \<Rightarrow> VVariableRecovery \<Rightarrow> (PendingVRequest option \<times> string) \<times> VVariableRecovery" where
  "v_take_pending p expected_kind s =
     (case vs_pc_seq s of
        None \<Rightarrow> ((None, ''no current v recovery context''), s)
      | Some current \<Rightarrow>
          if \<not> json_eq_int (jget p ''pc_seq'') current
          then ((None, ''stale pc_seq='' @ py_str (jget p ''pc_seq'') @ '' current='' @ str_int current), s)
          else if json_truthy (jget p ''runtime_pc'') \<and> \<not> json_eq_str (jget p ''runtime_pc'') (vs_runtime_pc s)
          then ((None, ''runtime_pc does not match current v recovery context''), s)
          else case json_str (jget p ''request_id'') of
                 None \<Rightarrow> ((None, ''missing request_id''), s)
               | Some request_id \<Rightarrow>
                   (case dget (vs_pending s) request_id of
                      None \<Rightarrow> ((None, ''unexpected request_id='' @ repr_str request_id), s)
                    | Some pending \<Rightarrow>
                        if vp_kind pending \<noteq> expected_kind
                        then ((None, ''unexpected response kind for request_id='' @ repr_str request_id), s)
                        else ((Some pending, ''accepted''),
                              s\<lparr>vs_pending := ddel request_id (vs_pending s)\<rparr>)))"

definition put_record :: "int \<Rightarrow> VVariableRecoveryRecord \<Rightarrow> VVariableRecovery \<Rightarrow> VVariableRecovery" where
  "put_record i r s = s\<lparr>vs_records := dset i r (vs_records s)\<rparr>"

definition mark_index_error ::
    "string \<Rightarrow> int \<Rightarrow> VVariableRecovery \<times> string list \<Rightarrow> VVariableRecovery \<times> string list" where
  "mark_index_error reason i st =
     (case dget (vs_records (fst st)) i of
        None \<Rightarrow> st
      | Some r \<Rightarrow> (put_record i (v_set_error reason r) (fst st),
                  snd st @ [result_log_line (v_set_error reason r)]))"

definition mark_read_error ::
    "int list \<Rightarrow> string \<Rightarrow> VVariableRecovery \<Rightarrow> VVariableRecovery \<times> string list" where
  "mark_read_error indexes reason s = fold (mark_index_error reason) indexes (s, [])"

text \<open>The text of an exception the value codecs raise.\<close>

fun exc_text :: "py_error \<Rightarrow> string" where
  "exc_text (ValueError m) = m"
| "exc_text (TypeError m) = m"
| "exc_text _ = []"

definition runtime_error_reason :: "payload \<Rightarrow> string" where
  "runtime_error_reason p =
     (case jget p ''error'' of
        JObj e \<Rightarrow>
          (case jget e ''message'' of
             JStr m \<Rightarrow> if m \<noteq> [] then m else ''runtime read failed''
           | _ \<Rightarrow> ''runtime read failed'')
      | JStr m \<Rightarrow> if m \<noteq> [] then m else ''runtime read failed''
      | _ \<Rightarrow> ''runtime read failed'')"

record 'e reg_acc =
  ga_state :: VVariableRecovery
  ga_env :: 'e
  ga_requests :: "payload list"
  ga_summaries :: "string list"
  ga_debug :: "string list"

definition v_mem_id :: "int \<Rightarrow> int \<Rightarrow> string" where
  "v_mem_id pc_seq lvar_index = ''v-mem-'' @ str_int pc_seq @ ''-'' @ str_int lvar_index"

text \<open>A register value arrives: the record becomes fresh, or an error when it cannot be read.\<close>

definition apply_register_value ::
    "payload \<Rightarrow> RegisterSpec \<Rightarrow> int \<Rightarrow> VVariableRecoveryRecord \<Rightarrow> 'e reg_acc \<Rightarrow> 'e reg_acc" where
  "apply_register_value registers spec i r acc =
     (case (case extract_register_value (jget registers (rs_full_register spec)) spec (vv_width r) of
              Inl exc \<Rightarrow> (v_set_error (''register read failed: '' @ exc_text exc) r, ga_state acc)
            | Inr value \<Rightarrow> mark_fresh r value CONFIDENCE_EXACT_REGISTER_LOCATION (ga_state acc)) of
        (r', s') \<Rightarrow> acc\<lparr>ga_state := put_record i r' s', ga_debug := ga_debug acc @ [result_log_line r']\<rparr>)"

text \<open>\<open>rsp\<close> arrives: the slot of the record gets a concrete address and a memory request.\<close>

definition request_v_memory ::
    "'e EnvelopeFactory \<Rightarrow> PendingVRequest \<Rightarrow> int \<Rightarrow> VVariableRecoveryRecord \<Rightarrow> string \<Rightarrow> 'e reg_acc \<Rightarrow>
     'e reg_acc" where
  "request_v_memory env pending i r address acc =
     (let request_id = v_mem_id (vp_pc_seq pending) i;
          request = \<lparr>vp_kind = ''mem'', vp_pc_seq = vp_pc_seq pending, vp_request_id = request_id,
            vp_runtime_pc = vp_runtime_pc pending, vp_lvar_indexes = [i], vp_registers = [],
            vp_address = address, vp_size = vv_width r\<rparr>;
          r' = r\<lparr>vv_storage := ''stack:'' @ address, vv_reason := ''waiting for exact stack memory read''\<rparr>;
          s = ga_state acc
      in case env ''mem_request''
           [(''pc_seq'', JInt (vp_pc_seq pending)), (''request_id'', JStr request_id),
            (''runtime_pc'', JStr (vp_runtime_pc pending)), (''address'', JStr address),
            (''size'', JInt (vv_width r)), (''reason'', JStr ''v_variable_stack''),
            (''variable'', JStr (vv_name r)), (''lvar_index'', JInt i)] (ga_env acc) of
           (message, x') \<Rightarrow>
             acc\<lparr>ga_state := put_record i r' (s\<lparr>vs_pending := dset request_id request (vs_pending s)\<rparr>),
                 ga_env := x', ga_requests := ga_requests acc @ [message],
                 ga_summaries := ga_summaries acc @
                   [vv_name r @ ''@'' @ address @ ''/'' @ str_int (vv_width r)]\<rparr>)"

definition apply_stack_pointer ::
    "'e EnvelopeFactory \<Rightarrow> payload \<Rightarrow> PendingVRequest \<Rightarrow> int \<Rightarrow> int \<Rightarrow> VVariableRecoveryRecord \<Rightarrow> 'e reg_acc \<Rightarrow>
     'e reg_acc" where
  "apply_stack_pointer env registers pending offset i r acc =
     (case concrete_stack_address (jget registers ''rsp'') offset of
        Inl exc \<Rightarrow>
          let r' = v_set_error (REASON_UNRESOLVED_STACK @ '': '' @ exc_text exc) r
          in acc\<lparr>ga_state := put_record i r' (ga_state acc), ga_debug := ga_debug acc @ [result_log_line r']\<rparr>
      | Inr address \<Rightarrow> request_v_memory env pending i r address acc)"

definition apply_reg_index ::
    "'e EnvelopeFactory \<Rightarrow> payload \<Rightarrow> PendingVRequest \<Rightarrow> int \<Rightarrow> 'e reg_acc \<Rightarrow> 'e reg_acc" where
  "apply_reg_index env registers pending i acc =
     (case (dget (vs_records (ga_state acc)) i, dget (vs_evidence (ga_state acc)) i) of
        (Some r, Some e) \<Rightarrow>
          (case (re_storage_kind e = ''register'', re_register e) of
             (True, Some spec) \<Rightarrow> apply_register_value registers spec i r acc
           | _ \<Rightarrow> (case (re_storage_kind e = ''stack'', re_stack_pointer_offset e) of
               (True, Some offset) \<Rightarrow> apply_stack_pointer env registers pending offset i r acc
             | _ \<Rightarrow> acc))
      | _ \<Rightarrow> acc)"

definition v_apply_reg_response ::
    "'e EnvelopeFactory \<Rightarrow> payload \<Rightarrow> VVariableRecovery \<Rightarrow> 'e \<Rightarrow>
     (bool \<times> string \<times> payload list \<times> string list) \<times> VVariableRecovery \<times> 'e" where
  "v_apply_reg_response env p s x =
     (case v_take_pending p ''reg'' s of ((pending_opt, reason), s1) \<Rightarrow>
        case pending_opt of
          None \<Rightarrow> ((False, reason, [], []), s1, x)
        | Some pending \<Rightarrow>
            if jget p ''ok'' \<noteq> JBool True
            then (case mark_read_error (vp_lvar_indexes pending) ''register read failed'' s1 of
                    (s2, lines) \<Rightarrow> ((True, ''register read failed'', [], lines), s2, x))
            else case json_obj (jget p ''registers'') of
                   None \<Rightarrow>
                     (case mark_read_error (vp_lvar_indexes pending) ''reg_response missing registers'' s1 of
                        (s2, lines) \<Rightarrow> ((True, ''reg_response missing registers'', [], lines), s2, x))
                 | Some registers \<Rightarrow>
                     let acc = fold (apply_reg_index env registers pending) (vp_lvar_indexes pending)
                           \<lparr>ga_state = s1, ga_env = x, ga_requests = [], ga_summaries = [], ga_debug = []\<rparr>
                     in ((True, ''accepted'', ga_requests acc,
                          ga_debug acc @ [''v-request pc_seq='' @ str_int (vp_pc_seq pending) @
                            '' registers=[] memory='' @ names_text (ga_summaries acc)]),
                         ga_state acc, ga_env acc))"

definition apply_mem_record ::
    "payload \<Rightarrow> PendingVRequest \<Rightarrow> VVariableRecoveryRecord \<Rightarrow> VVariableRecovery \<Rightarrow>
     VVariableRecoveryRecord \<times> VVariableRecovery" where
  "apply_mem_record p pending r s =
     (if jget p ''ok'' \<noteq> JBool True then (v_set_error (runtime_error_reason p) r, s)
      else let bytes_hex = py_str (jget_or p ''bytes_hex'' (JStr []))
           in case decode_little_endian bytes_hex (vp_size pending) of
                Inl exc \<Rightarrow> (v_set_error (''memory read failed: '' @ exc_text exc) r, s)
              | Inr value \<Rightarrow>
                  (case mark_fresh r value CONFIDENCE_EXACT_STACK_LOCATION s of
                     (r', s') \<Rightarrow> (r'\<lparr>vv_storage := ''stack:'' @ vp_address pending,
                                    vv_reason := ''exact stack memory read raw='' @ bytes_hex\<rparr>, s')))"

definition apply_mem_index ::
    "payload \<Rightarrow> PendingVRequest \<Rightarrow> int \<Rightarrow> VVariableRecovery \<times> string list \<Rightarrow> VVariableRecovery \<times> string list" where
  "apply_mem_index p pending i st =
     (case dget (vs_records (fst st)) i of
        None \<Rightarrow> st
      | Some r \<Rightarrow>
          (case apply_mem_record p pending r (fst st) of
             (r', s') \<Rightarrow> (put_record i r' s', snd st @ [result_log_line r'])))"

definition address_matches :: "json \<Rightarrow> string \<Rightarrow> bool" where
  "address_matches j address \<longleftrightarrow> j = JNull \<or> json_eq_str j [] \<or> json_eq_str j address"

definition size_matches :: "json \<Rightarrow> int \<Rightarrow> bool" where
  "size_matches j sz \<longleftrightarrow> j = JNull \<or> json_eq_int j sz"

definition v_apply_mem_response ::
    "payload \<Rightarrow> VVariableRecovery \<Rightarrow> (bool \<times> string \<times> string list) \<times> VVariableRecovery" where
  "v_apply_mem_response p s =
     (case v_take_pending p ''mem'' s of ((pending_opt, reason), s1) \<Rightarrow>
        case pending_opt of
          None \<Rightarrow> ((False, reason, []), s1)
        | Some pending \<Rightarrow>
            let restored = s1\<lparr>vs_pending := dset (vp_request_id pending) pending (vs_pending s1)\<rparr>
            in if \<not> address_matches (jget p ''address'') (vp_address pending)
               then ((False, ''memory response address does not match pending request'', []), restored)
               else if \<not> size_matches (jget p ''size'') (vp_size pending)
               then ((False, ''memory response size does not match pending request'', []), restored)
               else case fold (apply_mem_index p pending) (vp_lvar_indexes pending) (s1, []) of
                      (s2, lines) \<Rightarrow> ((True, ''accepted'', lines), s2))"

section \<open>Overlay\<close>

definition overlay_row :: "VVariableRecoveryRecord \<Rightarrow> VariableRecord \<Rightarrow> VariableRecord" where
  "overlay_row r row =
     row\<lparr>vr_value := vv_value r, vr_status := vv_recovery_status r, vr_confidence := vv_confidence r,
         vr_reason := vv_reason r, vr_last_pc := vv_last_update_pc r, vr_current_pc := vv_current_runtime_pc r,
         vr_current_ea := hex0x (vv_current_ea r),
         vr_source_ea := (case vv_source_ea r of None \<Rightarrow> [] | Some ea \<Rightarrow> hex0x ea),
         vr_storage_kind := vv_candidate_storage_kind r, vr_storage := vv_storage r,
         vr_current_pc_seq := Some (vv_current_pc_seq r), vr_last_success_value := vv_last_successful_value r,
         vr_last_success_pc_seq := vv_last_successful_pc_seq r\<rparr>"

definition overlay_rows :: "VVariableRecovery \<Rightarrow> VariableRecord list \<Rightarrow> VariableRecord list" where
  "overlay_rows s rows =
     map (\<lambda>row. if vr_is_arg row then row
                else case dget (vs_records s) (vr_lvar_index row) of
                       None \<Rightarrow> row | Some r \<Rightarrow> overlay_row r row) rows"

end
