(* ===== verification/Protocol_Client.thy ===== *)
theory Protocol_Client
  imports Framing
begin

text \<open>
  \<^verbatim>\<open>ida_plugin/protocol_client.py\<close>: the IDA-side broker client with its send queue, the worker
  that owns the socket, and the receive buffer. The outcome of socket calls is given by the
  environment; a status line about an undecodable line carries the exception.
\<close>

datatype client_status = StatusText string | StatusIgnored py_error

record client =
  pc_queue :: "message option list"
  pc_alive :: bool
  pc_sock :: bool
  pc_stop :: bool
  pc_connected :: bool
  pc_hello :: message
  pc_sent :: "string list"
  pc_buffer :: string
  pc_messages :: "message list"
  pc_status :: "client_status list"

definition on_status :: "string \<Rightarrow> client \<Rightarrow> client" where
  "on_status t c = c\<lparr>pc_status := pc_status c @ [StatusText t]\<rparr>"

text \<open>The client has its own copy of the encoder.\<close>

definition client_encode_jsonl :: "message \<Rightarrow> string" where
  "client_encode_jsonl message = json_dumps (JObj message) @ [newline]"

lemma client_encode_jsonl [simp]: "client_encode_jsonl = encode_jsonl"
  by (simp add: fun_eq_iff client_encode_jsonl_def encode_jsonl_def)

definition client_decode_line :: "string \<Rightarrow> message res" where
  "client_decode_line line =
     res_bind (utf8_decode line) (\<lambda>decoded.
       res_bind (json_loads (py_strip decoded)) (\<lambda>v.
         case v of JObj d \<Rightarrow> Inr d | _ \<Rightarrow> Inl (ValueError ''message is not a JSON object'')))"

definition client_connect :: "message \<Rightarrow> client \<Rightarrow> client" where
  "client_connect hello_message c =
     (if pc_alive c then on_status ''already connected or connecting'' c
      else c\<lparr>pc_stop := False, pc_alive := True, pc_hello := hello_message\<rparr>)"

definition client_send :: "message \<Rightarrow> client \<Rightarrow> client" where
  "client_send message c =
     (if pc_stop c then on_status (''drop send while disconnected type='' @ py_str (jget message ''type'')) c
      else c\<lparr>pc_queue := pc_queue c @ [Some message]\<rparr>)"

definition client_disconnect :: "client \<Rightarrow> client" where
  "client_disconnect c = c\<lparr>pc_stop := True, pc_queue := pc_queue c @ [None], pc_connected := False\<rparr>"

text \<open>\<open>_drain_send_queue\<close>; \<open>fails\<close> gives the error text of a \<open>sendall\<close> that raises.\<close>

function drain_send_queue :: "(message \<Rightarrow> string option) \<Rightarrow> client \<Rightarrow> client" where
  "drain_send_queue fails c =
     (case pc_queue c of
        [] \<Rightarrow> c
      | None # q \<Rightarrow> c\<lparr>pc_queue := q\<rparr>
      | Some message # q \<Rightarrow>
          (case fails message of
             None \<Rightarrow> drain_send_queue fails (c\<lparr>pc_queue := q, pc_sent := pc_sent c @ [client_encode_jsonl message]\<rparr>)
           | Some err \<Rightarrow> (on_status (''send failed: '' @ err) (c\<lparr>pc_queue := q\<rparr>))\<lparr>pc_stop := True\<rparr>))"
  by pat_completeness auto
termination by (relation "measure (length \<circ> pc_queue \<circ> snd)") auto

declare drain_send_queue.simps [simp del]

text \<open>One line of \<open>_drain_receive_buffer\<close>: an undecodable line is reported and skipped.\<close>

definition client_line :: "string \<Rightarrow> client \<Rightarrow> client res" where
  "client_line line c =
     (if list_all is_ascii_space line then Inr c
      else case client_decode_line line of
             Inl e \<Rightarrow> Inr (c\<lparr>pc_status := pc_status c @ [StatusIgnored e]\<rparr>)
           | Inr message \<Rightarrow> Inr (c\<lparr>pc_messages := pc_messages c @ [message]\<rparr>))"

definition drain_receive_buffer :: "string \<Rightarrow> client \<Rightarrow> (string \<times> client) res" where
  "drain_receive_buffer = drain_lines client_line"

section \<open>The worker\<close>

text \<open>The \<open>finally\<close> block of \<open>_run\<close>.\<close>

definition worker_exit :: "client \<Rightarrow> client" where
  "worker_exit c =
     (on_status ''disconnected'' (c\<lparr>pc_connected := False, pc_sock := False, pc_stop := True\<rparr>))
       \<lparr>pc_alive := False\<rparr>"

definition worker_connected :: "string \<Rightarrow> client \<Rightarrow> client" where
  "worker_connected peer c =
     on_status (''connected to broker '' @ peer)
       (c\<lparr>pc_sock := True, pc_buffer := [], pc_sent := [client_encode_jsonl (pc_hello c)], pc_connected := True\<rparr>)"

definition worker_connect_failed :: "string \<Rightarrow> client \<Rightarrow> client" where
  "worker_connect_failed err c = worker_exit (on_status (''connect failed: '' @ err) c)"

datatype recv_result = RecvTimeout | RecvError string | RecvEof | RecvData string

text \<open>One iteration of the loop; the flag says whether the loop goes on.\<close>

definition worker_iteration :: "(message \<Rightarrow> string option) \<Rightarrow> recv_result \<Rightarrow> client \<Rightarrow> client" where
  "worker_iteration fails result c =
     (if pc_stop c then worker_exit c
      else let c1 = drain_send_queue fails c
           in case result of
                RecvTimeout \<Rightarrow> c1
              | RecvError err \<Rightarrow>
                  worker_exit (if pc_stop c1 then c1 else on_status (''socket receive failed: '' @ err) c1)
              | RecvEof \<Rightarrow> worker_exit (on_status ''broker disconnected'' c1)
              | RecvData chunk \<Rightarrow>
                  (case drain_receive_buffer (pc_buffer c1 @ chunk) c1 of
                     Inr (rest, c2) \<Rightarrow> c2\<lparr>pc_buffer := rest\<rparr>
                   | Inl e \<Rightarrow> c1))"

section \<open>Sending\<close>

text \<open>
  While no send fails, one drain writes the queued messages in the order they were queued, up
  to the first stop marker, and keeps exactly what comes after that marker.
\<close>

lemma client_sends_fifo:
  assumes "pc_queue c = map Some ms @ rest" "rest = [] \<or> hd rest = None" "\<forall>m \<in> set ms. fails m = None"
  shows "pc_sent (drain_send_queue fails c) = pc_sent c @ map encode_jsonl ms \<and>
    pc_queue (drain_send_queue fails c) = tl rest \<and>
    pc_stop (drain_send_queue fails c) = pc_stop c"
  using assms(1,3)
proof (induction ms arbitrary: c)
  case Nil
  with assms(2) show ?case
    by (cases rest) (auto simp: drain_send_queue.simps)
next
  case (Cons m ms)
  let ?c = "c\<lparr>pc_queue := map Some ms @ rest, pc_sent := pc_sent c @ [encode_jsonl m]\<rparr>"
  have "drain_send_queue fails c = drain_send_queue fails ?c"
    using Cons.prems by (subst drain_send_queue.simps) simp
  with Cons.IH [of ?c] Cons.prems show ?case by simp
qed

section \<open>Receiving\<close>

lemma client_decode_dumped:
  "json_plain (JObj m) \<Longrightarrow> client_decode_line (json_dumps (JObj m)) = Inr m"
proof -
  assume plain: "json_plain (JObj m)"
  let ?line = "json_dumps (JObj m)"
  have "utf8_decode ?line = Inr ?line" using utf8_decode_ascii [OF json_dumps_ascii [OF plain]] .
  moreover have "py_strip ?line = ?line" by (simp add: py_strip_def py_isspace_def)
  ultimately show ?thesis
    using json_loads_dumps [OF plain] by (simp add: client_decode_line_def del: json_dumps.simps)
qed

lemma drain_receive_messages:
  "list_all (\<lambda>m. json_plain (JObj m)) ms \<Longrightarrow>
   drain_receive_buffer (concat (map encode_jsonl ms)) c = Inr ([], c\<lparr>pc_messages := pc_messages c @ ms\<rparr>)"
proof (induction ms arbitrary: c)
  case Nil
  show ?case by (simp add: drain_receive_buffer_def drain_lines.simps)
next
  case (Cons m ms)
  then have "client_line (json_dumps (JObj m)) c = Inr (c\<lparr>pc_messages := pc_messages c @ [m]\<rparr>)"
    using client_decode_dumped dumped_line(3) by (simp add: client_line_def del: json_dumps.simps)
  with Cons show ?case
    by (simp add: drain_receive_buffer_def drain_encoded del: json_dumps.simps)
qed

text \<open>
  C32. Whatever chunks the byte stream of a sequence of messages arrives in, the client hands
  exactly those messages to its callback, in order, and reports nothing.
\<close>

theorem client_receives_exactly:
  assumes "list_all (\<lambda>m. json_plain (JObj m)) ms" "concat chunks = concat (map encode_jsonl ms)"
  shows "feed_chunks client_line chunks ([], c) = Inr ([], c\<lparr>pc_messages := pc_messages c @ ms\<rparr>)"
  using feed_chunks_concat [of "[]" client_line chunks c] drain_receive_messages [OF assms(1), of c] assms(2)
  by (simp add: drain_receive_buffer_def)

lemma client_receives_exactly_witness:
  "\<exists>c'. feed_chunks client_line [take 5 (encode_jsonl [(''id'', JInt 1)]), drop 5 (encode_jsonl [(''id'', JInt 1)])]
     ([], \<lparr>pc_queue = [], pc_alive = True, pc_sock = True, pc_stop = False, pc_connected = True, pc_hello = [],
        pc_sent = [], pc_buffer = [], pc_messages = [], pc_status = []\<rparr>) = Inr ([], c') \<and>
     pc_messages c' = [[(''id'', JInt 1)]]"
  using client_receives_exactly [of "[[(''id'', JInt 1)]]"
      "[take 5 (encode_jsonl [(''id'', JInt 1)]), drop 5 (encode_jsonl [(''id'', JInt 1)])]"]
  by (simp add: append_take_drop_id del: feed_chunks.simps)

end
