(* ===== verification/Address_Mapping.thy ===== *)
theory Address_Mapping
  imports Json
begin

text \<open>
  \<^verbatim>\<open>ida_plugin/address_mapping.py\<close>: integers of the protocol and the module-relative mapping of a
  runtime program counter to an address of the IDA database.
\<close>

record PcMapping =
  pm_pc_seq :: int
  pm_runtime_pc :: int
  pm_runtime_module_base :: int
  pm_ida_imagebase :: int
  pm_ida_ea :: int
  pm_module :: string

definition parse_int :: "json \<Rightarrow> int res" where
  "parse_int value =
     (case json_int value of
        Some i \<Rightarrow> Inr i
      | None \<Rightarrow>
          (case json_str value of
             Some s \<Rightarrow> int_base0 s
           | None \<Rightarrow> Inl (ValueError (''expected integer-compatible value, got '' @ py_repr value))))"

definition format_hex :: "int \<Rightarrow> string" where
  "format_hex value = hex0x value"

definition runtime_pc_to_ida_ea :: "int \<Rightarrow> int \<Rightarrow> int \<Rightarrow> int" where
  "runtime_pc_to_ida_ea runtime_pc runtime_module_base ida_imagebase =
     ida_imagebase + (runtime_pc - runtime_module_base)"

text \<open>\<open>payload[key]\<close>\<close>

definition payload_item :: "payload \<Rightarrow> string \<Rightarrow> json res" where
  "payload_item p k = (case dget p k of Some v \<Rightarrow> Inr v | None \<Rightarrow> Inl (KeyError k))"

definition map_pc_update :: "payload \<Rightarrow> int \<Rightarrow> PcMapping res" where
  "map_pc_update p ida_imagebase =
     res_bind (res_bind (payload_item p ''pc_seq'') parse_int) (\<lambda>pc_seq.
     res_bind (res_bind (payload_item p ''pc'') parse_int) (\<lambda>runtime_pc.
     res_bind (res_bind (payload_item p ''runtime_module_base'') parse_int) (\<lambda>runtime_module_base.
       Inr \<lparr>pm_pc_seq = pc_seq, pm_runtime_pc = runtime_pc, pm_runtime_module_base = runtime_module_base,
            pm_ida_imagebase = ida_imagebase,
            pm_ida_ea = runtime_pc_to_ida_ea runtime_pc runtime_module_base ida_imagebase,
            pm_module = py_str (jget_or p ''module'' (JStr []))\<rparr>)))"

section \<open>Properties\<close>

text \<open>The mapping only raises the exceptions its caller catches.\<close>

lemma parse_int_errors: "parse_int v = Inl e \<Longrightarrow> \<exists>m. e = ValueError m"
  by (auto simp: parse_int_def int_base0_def split: option.splits)

lemma map_pc_update_errors:
  assumes "map_pc_update p base = Inl e"
  shows "(\<exists>k. e = KeyError k) \<or> (\<exists>m. e = ValueError m)"
proof -
  have "(\<exists>k. e = KeyError k) \<or> (\<exists>m. e = ValueError m)"
    if "res_bind (payload_item p k) parse_int = Inl e" for k
    using that parse_int_errors by (auto simp: res_bind_Inl_iff payload_item_def split: option.splits)
  with assms show ?thesis by (auto simp: map_pc_update_def res_bind_Inl_iff)
qed

lemma parse_int_hex0x: "0 \<le> v \<Longrightarrow> parse_int (JStr (hex0x v)) = Inr v"
  by (simp add: parse_int_def int_base0_hex0x)

text \<open>Runtime addresses and database addresses determine each other, and keep their distances.\<close>

lemma mapping_injective:
  "runtime_pc_to_ida_ea a base img = runtime_pc_to_ida_ea b base img \<longleftrightarrow> a = b"
  "runtime_pc_to_ida_ea a base img - runtime_pc_to_ida_ea b base img = a - b"
  "runtime_pc_to_ida_ea (runtime_pc_to_ida_ea a base img) img base = a"
  by (simp_all add: runtime_pc_to_ida_ea_def)

lemma map_pc_update_hex:
  assumes "dget p ''pc_seq'' = Some (JInt q)" "dget p ''pc'' = Some (JStr (hex0x pc))" "0 \<le> pc"
    "dget p ''runtime_module_base'' = Some (JStr (hex0x base))" "0 \<le> base"
  shows "\<exists>m. map_pc_update p img = Inr m \<and> pm_pc_seq m = q \<and> pm_runtime_pc m = pc \<and>
    pm_ida_ea m = img + (pc - base)"
proof -
  have "parse_int (JInt q) = Inr q" by (simp add: parse_int_def)
  then show ?thesis
    using assms by (simp add: map_pc_update_def payload_item_def parse_int_hex0x runtime_pc_to_ida_ea_def)
qed

end
