(* ===== verification/Live_View.thy ===== *)
theory Live_View
  imports Hexrays_Variables
begin

text \<open>
  \<^verbatim>\<open>ida_plugin/live_variables_view.py\<close>: the filters and labels of the Live Variables table and the
  view that holds its rows. Output is the list of logged lines; whether the code runs inside IDA
  is an argument.
\<close>

definition FILTER_ALL :: string where "FILTER_ALL = ''All''"
definition FILTER_FRESH :: string where "FILTER_FRESH = ''Fresh''"
definition FILTER_RECOVERABLE :: string where "FILTER_RECOVERABLE = ''Recoverable''"
definition FILTER_ARGUMENTS :: string where "FILTER_ARGUMENTS = ''Arguments''"
definition FILTER_NAMED_LOCALS :: string where "FILTER_NAMED_LOCALS = ''Named locals''"
definition FILTER_UNAVAILABLE :: string where "FILTER_UNAVAILABLE = ''Unavailable''"

definition FILTERS :: "string list" where
  "FILTERS = [FILTER_ALL, FILTER_FRESH, FILTER_RECOVERABLE, FILTER_ARGUMENTS, FILTER_NAMED_LOCALS,
     FILTER_UNAVAILABLE]"

lemmas filter_defs = FILTER_ALL_def FILTER_FRESH_def FILTER_RECOVERABLE_def FILTER_ARGUMENTS_def
  FILTER_NAMED_LOCALS_def FILTER_UNAVAILABLE_def

section \<open>Rows\<close>

definition is_exact_row :: "VariableRecord \<Rightarrow> bool" where
  "is_exact_row row \<longleftrightarrow> vr_status row = ''fresh'' \<and> py_startswith (vr_confidence row) ''exact_''"

definition is_recoverable_row :: "VariableRecord \<Rightarrow> bool" where
  "is_recoverable_row row \<longleftrightarrow>
     vr_status row = ''fresh'' \<and> vr_value row \<noteq> [] \<or>
     vr_status row = ''stale'' \<and>
       (vr_value row \<noteq> [] \<or> vr_last_success_value row \<noteq> [] \<or> vr_last_success_pc_seq row \<noteq> None)"

definition is_named_local_row :: "VariableRecord \<Rightarrow> bool" where
  "is_named_local_row row \<longleftrightarrow>
     \<not> vr_is_arg row \<and> vr_name row \<noteq> [] \<and> vr_name row \<noteq> ''<unnamed>'' \<and> \<not> is_v_temporary_name (vr_name row)"

definition row_matches_filter :: "VariableRecord \<Rightarrow> string \<Rightarrow> bool" where
  "row_matches_filter row filter_name =
     (if filter_name = FILTER_ALL then True
      else if filter_name = FILTER_FRESH then vr_status row = ''fresh''
      else if filter_name = FILTER_RECOVERABLE then is_recoverable_row row
      else if filter_name = FILTER_ARGUMENTS then vr_is_arg row
      else if filter_name = FILTER_NAMED_LOCALS then is_named_local_row row
      else if filter_name = FILTER_UNAVAILABLE then vr_status row = ''unavailable''
      else True)"

definition presented_status :: "VariableRecord \<Rightarrow> string" where
  "presented_status row =
     (let reason = vr_reason row; confidence = vr_confidence row
      in if is_exact_row row then ''exact''
         else if vr_status row = ''stale'' then ''stale / last observed''
         else if reason = ''no_reaching_definition'' then ''not yet defined''
         else if reason \<in> set [''ambiguous_register_location'', ''ambiguous_reaching_definition'',
                               ''cross_block_liveness_unproven''] then ''ambiguous''
         else if reason \<in> set [''unsupported_scattered_location'', ''unsupported_value_width'']
         then ''unsupported storage''
         else if py_contains reason ''alias'' \<or> py_contains reason ''byref'' \<or>
                 py_contains reason ''address'' \<and> \<not> py_contains reason ''match''
         then ''address taken / alias unknown''
         else if confidence = ''unsupported_variable'' \<and>
                 reason = ''variable does not have a reliable runtime location in v1''
         then ''optimized away / not materialized''
         else if vr_status row = ''unavailable'' then ''unavailable''
         else vr_status row)"

definition COLUMNS :: "string list" where
  "COLUMNS = [''Name'', ''Kind'', ''ArgIndex'', ''Size'', ''Location'', ''Value'', ''Status'', ''Confidence'', ''Reason'',
     ''LvarIndex'', ''Type'', ''Source EA'', ''Storage'', ''Last Update PC'']"

definition row_to_columns :: "VariableRecord \<Rightarrow> string list" where
  "row_to_columns row =
     [vr_name row, vr_hexrays_kind row,
      (case vr_arg_index row of None \<Rightarrow> [] | Some i \<Rightarrow> str_int (int i)),
      (if vr_size row = 0 then [] else str_int (vr_size row)),
      vr_location row, vr_value row, presented_status row, vr_confidence row, vr_reason row,
      str_int (vr_lvar_index row), vr_type_string row, vr_source_ea row, vr_storage row, vr_last_pc row]"

section \<open>The view\<close>

record LiveVariablesView =
  lw_all_rows :: "VariableRecord list"
  lw_rows :: "VariableRecord list"
  lw_active_filter :: string
  lw_chooser :: bool
  lw_log :: "string list"

definition LiveVariablesView_init :: LiveVariablesView where
  "LiveVariablesView_init = \<lparr>lw_all_rows = [], lw_rows = [], lw_active_filter = FILTER_ALL, lw_chooser = False, lw_log = []\<rparr>"

definition view_log :: "string \<Rightarrow> LiveVariablesView \<Rightarrow> LiveVariablesView" where
  "view_log message v = v\<lparr>lw_log := lw_log v @ [''[DayVarSync] '' @ message @ [char_of (10::nat)]]\<rparr>"

definition view_show :: "bool \<Rightarrow> LiveVariablesView \<Rightarrow> LiveVariablesView" where
  "view_show in_ida v =
     (if \<not> in_ida then view_log ''outside IDA: Live Variables chooser not available'' v
      else v\<lparr>lw_chooser := True\<rparr>)"

text \<open>
  The chooser reads the rows of its view; \<open>None\<close> is \<^verbatim>\<open>IndexError\<close>, and a negative index counts from the end.
\<close>

definition chooser_cols :: "(string \<times> nat) list" where
  "chooser_cols =
     [(''Name'', 16), (''Kind'', 12), (''ArgIndex'', 8), (''Size'', 6), (''Location'', 18), (''Value'', 22),
      (''Status'', 12), (''Confidence'', 20), (''Reason'', 44), (''LvarIndex'', 9), (''Type'', 24),
      (''Source EA'', 16), (''Storage'', 24), (''Last Update PC'', 20)]"

definition OnGetSize :: "LiveVariablesView \<Rightarrow> nat" where
  "OnGetSize v = length (lw_rows v)"

definition OnGetLine :: "LiveVariablesView \<Rightarrow> int \<Rightarrow> string list option" where
  "OnGetLine v n =
     (let rows = lw_rows v; i = (if n < 0 then n + int (length rows) else n)
      in if 0 \<le> i \<and> i < int (length rows) then Some (row_to_columns (rows ! nat i)) else None)"

lemma chooser_cols_names: "map fst chooser_cols = COLUMNS"
  by (simp add: chooser_cols_def COLUMNS_def)

text \<open>Every line the chooser asks for exists and has one cell per column.\<close>

lemma chooser_lines:
  "n < OnGetSize v \<Longrightarrow> \<exists>cells. OnGetLine v (int n) = Some cells \<and> length cells = length chooser_cols"
  by (simp add: OnGetSize_def OnGetLine_def Let_def chooser_cols_def row_to_columns_def)

definition apply_filter :: "LiveVariablesView \<Rightarrow> LiveVariablesView" where
  "apply_filter v = v\<lparr>lw_rows := filter (\<lambda>row. row_matches_filter row (lw_active_filter v)) (lw_all_rows v)\<rparr>"

definition refresh :: "bool \<Rightarrow> LiveVariablesView \<Rightarrow> LiveVariablesView" where
  "refresh in_ida v =
     (if in_ida then v\<lparr>lw_chooser := True\<rparr>
      else fold (\<lambda>row. view_log (join '' | '' (row_to_columns row))) (lw_rows v) v)"

definition update_rows :: "bool \<Rightarrow> VariableRecord list \<Rightarrow> LiveVariablesView \<Rightarrow> LiveVariablesView" where
  "update_rows in_ida rows v = refresh in_ida (apply_filter (v\<lparr>lw_all_rows := rows\<rparr>))"

definition set_filter :: "bool \<Rightarrow> string \<Rightarrow> LiveVariablesView \<Rightarrow> LiveVariablesView res" where
  "set_filter in_ida filter_name v =
     (if filter_name \<notin> set FILTERS then Inl (ValueError (''unknown Live Variables filter: '' @ filter_name))
      else Inr (refresh in_ida (apply_filter (v\<lparr>lw_active_filter := filter_name\<rparr>))))"

definition show_mapping :: "payload \<Rightarrow> LiveVariablesView \<Rightarrow> LiveVariablesView" where
  "show_mapping p =
     view_log (''pc_seq='' @ py_str (jget p ''pc_seq'') @ '' runtime_pc='' @ py_str (jget p ''runtime_pc'') @
       '' ida_ea='' @ py_str (jget p ''ida_ea'') @ '' module='' @ py_str (jget_or p ''module'' (JStr [])))"

definition show_reg_response :: "payload \<Rightarrow> LiveVariablesView \<Rightarrow> LiveVariablesView" where
  "show_reg_response p =
     view_log (''reg_response pc_seq='' @ py_str (jget p ''pc_seq'') @ '' request_id='' @
       py_str (jget p ''request_id'') @ '' ok='' @ py_str (jget p ''ok''))"

definition show_mem_response :: "payload \<Rightarrow> LiveVariablesView \<Rightarrow> LiveVariablesView" where
  "show_mem_response p =
     view_log (''mem_response pc_seq='' @ py_str (jget p ''pc_seq'') @ '' request_id='' @
       py_str (jget p ''request_id'') @ '' ok='' @ py_str (jget p ''ok'') @ '' address='' @
       py_str (jget p ''address'') @ '' size='' @ py_str (jget p ''size''))"

section \<open>Properties\<close>

lemma columns_fit: "length (row_to_columns row) = length COLUMNS"
  by (simp add: row_to_columns_def COLUMNS_def)

lemma view_log_fields [simp]:
  "lw_all_rows (view_log m v) = lw_all_rows v" "lw_rows (view_log m v) = lw_rows v"
  "lw_active_filter (view_log m v) = lw_active_filter v"
  by (simp_all add: view_log_def)

lemma refresh_fields [simp]:
  "lw_all_rows (refresh b v) = lw_all_rows v" "lw_rows (refresh b v) = lw_rows v"
  "lw_active_filter (refresh b v) = lw_active_filter v"
proof -
  have "lw_all_rows (fold (\<lambda>row. view_log (f row)) rs v) = lw_all_rows v \<and>
      lw_rows (fold (\<lambda>row. view_log (f row)) rs v) = lw_rows v \<and>
      lw_active_filter (fold (\<lambda>row. view_log (f row)) rs v) = lw_active_filter v" for f :: "VariableRecord \<Rightarrow> string" and rs v
    by (induction rs arbitrary: v) simp_all
  then show "lw_all_rows (refresh b v) = lw_all_rows v" "lw_rows (refresh b v) = lw_rows v"
    "lw_active_filter (refresh b v) = lw_active_filter v" by (simp_all add: refresh_def)
qed

text \<open>The rows shown are always those of the underlying rows that match the active filter.\<close>

definition view_ok :: "LiveVariablesView \<Rightarrow> bool" where
  "view_ok v \<longleftrightarrow>
     lw_rows v = filter (\<lambda>row. row_matches_filter row (lw_active_filter v)) (lw_all_rows v) \<and>
     lw_active_filter v \<in> set FILTERS"

lemma view_ok_init: "view_ok LiveVariablesView_init"
  by (simp add: view_ok_def LiveVariablesView_init_def FILTERS_def)

lemma view_ok_log [simp]: "view_ok (view_log m v) = view_ok v"
  by (simp add: view_ok_def)

lemma view_ok_show: "view_ok v \<Longrightarrow> view_ok (view_show b v)"
  by (simp add: view_show_def) (simp add: view_ok_def)

lemma view_ok_update: "view_ok v \<Longrightarrow> view_ok (update_rows b rows v)"
  by (simp add: view_ok_def update_rows_def apply_filter_def)

lemma view_ok_set_filter: "set_filter b f v = Inr v' \<Longrightarrow> view_ok v \<Longrightarrow> view_ok v'"
  by (auto simp: view_ok_def set_filter_def apply_filter_def split: if_splits)

lemma update_rows_fields [simp]:
  "lw_all_rows (update_rows b rows v) = rows" "lw_active_filter (update_rows b rows v) = lw_active_filter v"
  by (simp_all add: update_rows_def apply_filter_def)

end
