(* ===== verification/Selection.thy ===== *)
theory Selection
  imports Live_View
begin

text \<open>
  The choice of lvars that \<^verbatim>\<open>ida_plugin/dayvar_plugin.py\<close> analyses at a program counter: a bounded
  set of non-argument lvars, watched and recently recovered ones first, the others in rotation, and
  the cache of that choice.
\<close>

section \<open>Selection\<close>

text \<open>The nested function \<open>add\<close>; \<open>known\<close> are the indexes of the local variables.\<close>

definition add_index :: "nat \<Rightarrow> int list \<Rightarrow> int \<Rightarrow> int list \<Rightarrow> int list" where
  "add_index budget known index selected =
     (if budget \<le> length selected \<or> index \<in> set selected \<or> index \<notin> set known then selected
      else selected @ [index])"

text \<open>The loop of \<open>add_rotating\<close> over the offsets: the selection and the value of \<open>added\<close>.\<close>

fun rotate_loop :: "nat \<Rightarrow> int list \<Rightarrow> int list \<Rightarrow> nat \<Rightarrow> nat list \<Rightarrow> nat \<Rightarrow> int list \<Rightarrow> int list \<times> nat" where
  "rotate_loop budget known indexes start [] added selected = (selected, added)"
| "rotate_loop budget known indexes start (offset # offsets) added selected =
     (let selected = add_index budget known (indexes ! ((start + offset) mod length indexes)) selected
      in if budget \<le> length selected then (selected, offset + 1)
         else rotate_loop budget known indexes start offsets (offset + 1) selected)"

definition add_rotating :: "nat \<Rightarrow> int list \<Rightarrow> int list \<Rightarrow> int \<Rightarrow> int list \<Rightarrow> int list \<times> int" where
  "add_rotating budget known indexes cursor selected =
     (if indexes = [] \<or> budget \<le> length selected then (selected, cursor)
      else let start = nat (cursor mod int (length indexes))
           in case rotate_loop budget known indexes start [0..<length indexes] 0 selected of
                (selected', added) \<Rightarrow> (selected', int ((start + added) mod length indexes)))"

text \<open>A dictionary keyed by lvar index; the last row with an index wins.\<close>

definition rows_by_index :: "VariableRecord list \<Rightarrow> (int, VariableRecord) dict" where
  "rows_by_index rows = fold (\<lambda>row. dset (vr_lvar_index row) row) (filter (\<lambda>row. \<not> vr_is_arg row) rows) []"

definition select_recovery_candidate_indexes ::
    "VariableRecord list \<Rightarrow> VariableRecord list \<Rightarrow> string \<Rightarrow> int list \<Rightarrow> int \<Rightarrow> int \<Rightarrow> int list \<times> int" where
  "select_recovery_candidate_indexes variables previous_rows active_filter watched max_candidates fallback_cursor =
     (let budget = nat (max 0 max_candidates);
          locals_by_index = rows_by_index variables;
          known = sort (dkeys locals_by_index);
          previous_by_index = rows_by_index previous_rows;
          selected = fold (add_index budget known) (sort (remdups watched)) [];
          observed = filter (\<lambda>index. case dget previous_by_index index of
                       None \<Rightarrow> False | Some p \<Rightarrow> vr_status p \<in> set [''fresh'', ''stale'']) known;
          selected = fold (add_index budget known) observed selected;
          visible = filter (\<lambda>index. row_matches_filter
                      (case dget previous_by_index index of
                         Some p \<Rightarrow> p | None \<Rightarrow> the (dget locals_by_index index)) active_filter) known
      in case add_rotating budget known visible fallback_cursor selected of
           (selected, next_cursor) \<Rightarrow>
             let remaining = filter (\<lambda>index. index \<notin> set selected) known
             in add_rotating budget known remaining next_cursor selected)"

section \<open>The cache\<close>

type_synonym fingerprint = "(int \<times> string \<times> string \<times> int \<times> bool \<times> nat option \<times> string) list"

definition variable_fingerprint :: "VariableRecord list \<Rightarrow> fingerprint" where
  "variable_fingerprint variables =
     map (\<lambda>v. (vr_lvar_index v, vr_name v, vr_type_string v, vr_size v, vr_is_arg v, vr_arg_index v,
               vr_lvar_defea v)) variables"

type_synonym selection_key = "int \<times> int \<times> int \<times> string \<times> int list \<times> fingerprint"

record AnalysisSelectionCache =
  sc_key :: "selection_key option"
  sc_indexes :: "int list"
  sc_cursor_by_function :: "(int, int) dict"

definition AnalysisSelectionCache_init :: AnalysisSelectionCache where
  "AnalysisSelectionCache_init = \<lparr>sc_key = None, sc_indexes = [], sc_cursor_by_function = []\<rparr>"

definition cache_invalidate :: "bool \<Rightarrow> AnalysisSelectionCache \<Rightarrow> AnalysisSelectionCache" where
  "cache_invalidate clear_cursors sc =
     sc\<lparr>sc_key := None, sc_indexes := [],
        sc_cursor_by_function := (if clear_cursors then [] else sc_cursor_by_function sc)\<rparr>"

definition cache_select ::
    "int \<Rightarrow> int \<Rightarrow> int \<Rightarrow> VariableRecord list \<Rightarrow> VariableRecord list \<Rightarrow> string \<Rightarrow> int list \<Rightarrow> int \<Rightarrow>
     AnalysisSelectionCache \<Rightarrow> int list \<times> AnalysisSelectionCache" where
  "cache_select pc_seq function_ea current_ea variables previous_rows active_filter watched max_candidates sc =
     (let key = (pc_seq, function_ea, current_ea, active_filter, sort (remdups watched),
                 variable_fingerprint variables)
      in if Some key = sc_key sc then (sc_indexes sc, sc)
         else let cursor = (case dget (sc_cursor_by_function sc) function_ea of Some c \<Rightarrow> c | None \<Rightarrow> 0)
              in case select_recovery_candidate_indexes variables previous_rows active_filter watched
                        max_candidates cursor of
                   (selected, next_cursor) \<Rightarrow>
                     (selected, sc\<lparr>sc_cursor_by_function := dset function_ea next_cursor (sc_cursor_by_function sc),
                                   sc_key := Some key, sc_indexes := sort selected\<rparr>))"

section \<open>Properties of the selection\<close>

definition sel_ok :: "nat \<Rightarrow> int list \<Rightarrow> int list \<Rightarrow> bool" where
  "sel_ok budget known selected \<longleftrightarrow>
     distinct selected \<and> set selected \<subseteq> set known \<and> length selected \<le> budget"

text \<open>Adding keeps the invariant and what was selected; an index is left out only when the budget is used up.\<close>

lemma add_index_ok:
  assumes "sel_ok budget known selected"
  shows "sel_ok budget known (add_index budget known i selected)"
    and "set selected \<subseteq> set (add_index budget known i selected)"
    and "i \<in> set known \<Longrightarrow> i \<in> set (add_index budget known i selected) \<or>
      budget \<le> length (add_index budget known i selected)"
  using assms by (auto simp: add_index_def sel_ok_def)

lemma add_indexes_ok:
  assumes "sel_ok budget known selected"
  shows "sel_ok budget known (fold (add_index budget known) is selected) \<and>
    set selected \<subseteq> set (fold (add_index budget known) is selected)"
  using fold_keeps [where P = "sel_ok budget known" and R = "\<lambda>a b. set a \<subseteq> set b"
      and f = "add_index budget known"] add_index_ok assms by blast

lemma full_stays: "budget \<le> length selected \<Longrightarrow> fold (add_index budget known) is selected = selected"
  by (induction "is") (simp_all add: add_index_def)

lemma add_indexes_complete:
  assumes "sel_ok budget known selected" "i \<in> set is" "i \<in> set known"
  shows "i \<in> set (fold (add_index budget known) is selected) \<or>
    budget \<le> length (fold (add_index budget known) is selected)"
  using assms
proof (induction "is" arbitrary: selected)
  case (Cons j js)
  let ?s = "add_index budget known j selected"
  note ok = add_index_ok(1) [OF Cons.prems(1), of j]
  show ?case
  proof (cases "j = i")
    case True
    with add_index_ok(3) [OF Cons.prems(1), of i] Cons.prems(3)
    consider "i \<in> set ?s" | "budget \<le> length ?s" by blast
    then show ?thesis
    proof cases
      case 1
      with add_indexes_ok [OF ok, of js] show ?thesis by auto
    next
      case 2
      then show ?thesis using full_stays [OF 2] by simp
    qed
  next
    case False
    with Cons show ?thesis using ok by simp
  qed
qed simp

text \<open>The rotation is a sequence of additions that stops when the budget is reached.\<close>

lemma rotate_loop_fold:
  "fst (rotate_loop budget known indexes start offsets added selected) =
   fold (add_index budget known) (map (\<lambda>off. indexes ! ((start + off) mod length indexes)) offsets) selected"
proof (induction offsets arbitrary: added selected)
  case (Cons off offsets)
  then show ?case by (auto simp: Let_def full_stays)
qed simp

lemma rotation_is_rotate:
  "map (\<lambda>off. indexes ! ((start + off) mod length indexes)) [0..<length indexes] = rotate start indexes"
  by (rule nth_equalityI) (simp_all add: nth_rotate)

lemma add_rotating_ok:
  assumes "sel_ok budget known selected"
  shows "sel_ok budget known (fst (add_rotating budget known indexes cursor selected))"
    and "set selected \<subseteq> set (fst (add_rotating budget known indexes cursor selected))"
    and "i \<in> set indexes \<Longrightarrow> i \<in> set known \<Longrightarrow>
      i \<in> set (fst (add_rotating budget known indexes cursor selected)) \<or>
      budget \<le> length (fst (add_rotating budget known indexes cursor selected))"
proof -
  let ?st = "nat (cursor mod int (length indexes))"
  have eq: "fst (add_rotating budget known indexes cursor selected) =
      (if indexes = [] \<or> budget \<le> length selected then selected
       else fold (add_index budget known) (rotate ?st indexes) selected)"
    by (simp add: add_rotating_def Let_def case_prod_beta rotate_loop_fold rotation_is_rotate)
  show "sel_ok budget known (fst (add_rotating budget known indexes cursor selected))"
    "set selected \<subseteq> set (fst (add_rotating budget known indexes cursor selected))"
    unfolding eq using assms add_indexes_ok [OF assms] by auto
  show "i \<in> set (fst (add_rotating budget known indexes cursor selected)) \<or>
      budget \<le> length (fst (add_rotating budget known indexes cursor selected))"
    if "i \<in> set indexes" "i \<in> set known"
    unfolding eq using that add_indexes_complete [OF assms, of i "rotate ?st indexes"] by (auto simp: length_0_conv)
qed

lemma rows_by_index_keys: "set (dkeys (rows_by_index rows)) = vr_lvar_index ` {r \<in> set rows. \<not> vr_is_arg r}"
proof -
  have "fst ` set (fold (\<lambda>row. dset (vr_lvar_index row) row) rs d) = fst ` set d \<union> vr_lvar_index ` set rs"
    for rs :: "VariableRecord list" and d
    by (induction rs arbitrary: d) (auto simp: dom_update simp flip: dom_map_of_conv_image_fst)
  then show ?thesis by (simp add: rows_by_index_def)
qed

lemma rows_by_index_wf: "dwf (rows_by_index rows)"
proof -
  have "dwf d \<Longrightarrow> dwf (fold (\<lambda>row. dset (vr_lvar_index row) row) rs d)" for rs :: "VariableRecord list" and d
    by (induction rs arbitrary: d) (simp_all add: distinct_update)
  then show ?thesis by (simp add: rows_by_index_def)
qed

lemma selection_filled:
  assumes ok: "sel_ok budget known selected" and known: "distinct known"
    and all: "\<And>i. i \<in> set known \<Longrightarrow> i \<in> set selected \<or> budget \<le> length selected"
  shows "length selected = min budget (length known)"
proof -
  have sub: "set selected \<subseteq> set known" and dist: "distinct selected" and le: "length selected \<le> budget"
    using ok by (auto simp: sel_ok_def)
  have "card (set selected) \<le> card (set known)" using sub by (intro card_mono) auto
  moreover have "set known \<subseteq> set selected" if "\<not> budget \<le> length selected" using all that by blast
  then have "\<not> budget \<le> length selected \<Longrightarrow> card (set known) \<le> card (set selected)" by (intro card_mono) auto
  ultimately show ?thesis using le dist known by (cases "budget = length selected") (auto simp: distinct_card)
qed

lemma add_indexes_subset: "set (fold (add_index budget known) is selected) \<subseteq> set is \<union> set selected"
proof (induction "is" arbitrary: selected)
  case (Cons i js)
  have "set (add_index budget known i selected) \<subseteq> insert i (set selected)" by (auto simp: add_index_def)
  with Cons [of "add_index budget known i selected"] show ?case by auto
qed simp

lemma selection_facts:
  fixes variables previous f watched m cursor
  defines "sel \<equiv> fst (select_recovery_candidate_indexes variables previous f watched m cursor)"
    and "ls \<equiv> vr_lvar_index ` {v \<in> set variables. \<not> vr_is_arg v}" and "budget \<equiv> nat (max 0 m)"
  shows "sel_ok budget (sort (dkeys (rows_by_index variables))) sel"
    "length sel = min budget (card ls)"
    "i \<in> set watched \<Longrightarrow> i \<in> ls \<Longrightarrow> i \<in> set sel \<or> length sel = budget \<and> set sel \<subseteq> set watched"
proof -
  define known where "known = sort (dkeys (rows_by_index variables))"
  have known: "distinct known" "set known = ls"
    using rows_by_index_wf [of variables] rows_by_index_keys [of variables] by (simp_all add: known_def ls_def)
  define s1 where "s1 = fold (add_index budget known) (sort (remdups watched)) []"
  obtain observed visible where sel: "sel = fst (let (s3, c) = add_rotating budget known visible cursor
        (fold (add_index budget known) observed s1)
      in add_rotating budget known (filter (\<lambda>i. i \<notin> set s3) known) c s3)"
    by (simp add: sel_def select_recovery_candidate_indexes_def Let_def s1_def known_def budget_def)
  define s2 where "s2 = fold (add_index budget known) observed s1"
  define s3 c where "s3 = fst (add_rotating budget known visible cursor s2)"
    and "c = snd (add_rotating budget known visible cursor s2)"
  have sel: "sel = fst (add_rotating budget known (filter (\<lambda>i. i \<notin> set s3) known) c s3)"
    unfolding sel s2_def s3_def c_def by (simp add: Let_def case_prod_beta)
  have "sel_ok budget known []" by (simp add: sel_ok_def)
  note ok1 = add_indexes_ok [OF this, of "sort (remdups watched)", folded s1_def]
  note ok2 = add_indexes_ok [OF ok1 [THEN conjunct1], of observed, folded s2_def]
  note ok3 = add_rotating_ok [OF ok2 [THEN conjunct1], where indexes = visible and cursor = cursor, folded s3_def]
  note ok4 = add_rotating_ok [OF ok3(1), where indexes = "filter (\<lambda>i. i \<notin> set s3) known" and cursor = c, folded sel]
  show "sel_ok budget (sort (dkeys (rows_by_index variables))) sel" using ok4(1) by (simp add: known_def)
  have "i \<in> set sel \<or> budget \<le> length sel" if "i \<in> set known" for i
    using ok4(2) ok4(3) [of i] that by (cases "i \<in> set s3") auto
  then have "length sel = min budget (length known)" using selection_filled [OF ok4(1) known(1)] by blast
  then show "length sel = min budget (card ls)" using known distinct_card by metis
  show "i \<in> set sel \<or> length sel = budget \<and> set sel \<subseteq> set watched" if i: "i \<in> set watched" "i \<in> ls"
  proof (cases "i \<in> set s1")
    case True
    with ok2 ok3(2) ok4(2) show ?thesis by blast
  next
    case False
    then have full: "budget \<le> length s1"
      using add_indexes_complete [of budget known "[]" i "sort (remdups watched)"] i known(2)
      by (auto simp: s1_def sel_ok_def)
    have "set s1 \<subseteq> set sel" using ok2 ok3(2) ok4(2) by blast
    moreover have "card (set sel) \<le> card (set s1)"
      using full ok4(1) ok1 by (simp add: sel_ok_def distinct_card)
    ultimately have "set s1 = set sel" by (intro card_subset_eq) (auto intro: antisym card_mono)
    moreover have "set s1 \<subseteq> set watched" using add_indexes_subset [of budget known "sort (remdups watched)" "[]"]
      by (simp add: s1_def)
    ultimately show ?thesis using full ok4(1) ok1 by (metis antisym distinct_card sel_ok_def)
  qed
qed

text \<open>
  C27. The selection is bounded and uses its budget: it consists of distinct local variables, as many
  as the budget allows or all of them, and a watched local variable is left out only when watched
  variables alone fill the budget.
\<close>

theorem selection_bounded:
  fixes variables previous f watched m cursor
  defines "sel \<equiv> fst (select_recovery_candidate_indexes variables previous f watched m cursor)"
    and "ls \<equiv> vr_lvar_index ` {v \<in> set variables. \<not> vr_is_arg v}"
  shows "distinct sel \<and> set sel \<subseteq> ls \<and> length sel = min (nat (max 0 m)) (card ls) \<and>
    (\<forall>i \<in> set watched \<inter> ls. i \<in> set sel \<or> length sel = nat (max 0 m) \<and> set sel \<subseteq> set watched)"
proof -
  note sf = selection_facts [where variables = variables and previous = previous and f = f and watched = watched
      and m = m and cursor = cursor, folded sel_def ls_def]
  have "distinct sel" "set sel \<subseteq> ls"
    using sf(1) rows_by_index_keys [of variables] by (auto simp: sel_ok_def ls_def)
  with sf(2,3) show ?thesis by blast
qed

definition ex_locals :: "VariableRecord list" where
  "ex_locals = map (\<lambda>i. VariableRecord_new i ''v'' [] [] 4 False None [] [] 0) [3, 4, 5]"

lemma selection_bounded_witness: "fst (select_recovery_candidate_indexes ex_locals [] FILTER_ALL [4] 1 0) = [4]"
proof -
  have ls: "vr_lvar_index ` {v \<in> set ex_locals. \<not> vr_is_arg v} = {3, 4, 5}"
  proof -
    have "{v \<in> set ex_locals. \<not> vr_is_arg v} = set ex_locals"
      by (auto simp: ex_locals_def VariableRecord_new_def)
    then show ?thesis by (simp add: ex_locals_def VariableRecord_new_def)
  qed
  let ?sel = "fst (select_recovery_candidate_indexes ex_locals [] FILTER_ALL [4] 1 0)"
  have "length ?sel = 1" "4 \<in> set ?sel \<or> set ?sel \<subseteq> {4}"
    using selection_bounded [of ex_locals "[]" FILTER_ALL "[4]" 1 0] unfolding ls by auto
  then show ?thesis by (cases ?sel) auto
qed

text \<open>
  Asking the cache again with the same arguments gives the same set and changes nothing.
\<close>

lemma cache_select_again:
  assumes "cache_select q fe ea vs prev f watched m sc = (sel, sc')"
  shows "\<exists>sel'. cache_select q fe ea vs prev f watched m sc' = (sel', sc') \<and> set sel' = set sel"
  using assms by (auto simp: cache_select_def Let_def case_prod_beta split: if_splits)

end
