(* ===== verification/Plugin.thy ===== *)
theory Plugin
  imports V_Recovery Protocol_Client Address_Mapping Selection
begin

text \<open>
  \<^verbatim>\<open>ida_plugin/dayvar_plugin.py\<close>: the controller of the IDA plugin, which owns the argument core, the
  local variable recovery, the view and the broker client, and handles the messages of the
  debugger. What IDA answers is a record; the text of the elapsed time is one of the answers.
\<close>

section \<open>Diagnostics\<close>

definition LOG_LEVELS :: "(string, nat) dict" where
  "LOG_LEVELS = [(''quiet'', 0), (''normal'', 1), (''verbose'', 2), (''trace'', 3)]"

definition log_level :: "string \<Rightarrow> nat" where
  "log_level level = (case dget LOG_LEVELS level of Some n \<Rightarrow> n | None \<Rightarrow> 0)"

definition normalize_diagnostic_level :: "string option \<Rightarrow> string" where
  "normalize_diagnostic_level level =
     (let normalized = py_lower (py_strip (case level of Some l \<Rightarrow> if l = [] then ''normal'' else l
                                                        | None \<Rightarrow> ''normal''))
      in if normalized \<in> set (dkeys LOG_LEVELS) then normalized else ''normal'')"

definition diagnostic_line_level :: "string \<Rightarrow> string" where
  "diagnostic_line_level line =
     (let lowered = py_lower line
      in if py_contains lowered ''failure'' \<or> py_contains lowered ''failed'' \<or> py_contains lowered ''exception''
         then ''quiet''
         else if list_ex (py_startswith line) [''v-analysis'', ''v-native-cfg'', ''v-cfg-point'', ''v-reaching-def'',
                ''v-cross-block-live'', ''v-storage-valid'', ''v-candidate'']
         then ''trace''
         else if py_startswith line ''v-recovery''
         then if py_contains line ''result=fresh'' \<or> py_contains line ''result=stale'' \<or>
                 py_contains line ''result=error''
              then ''normal'' else ''verbose''
         else ''verbose'')"

section \<open>State\<close>

record DayVarController =
  ct_core :: DayVarCore
  ct_v_recovery :: VVariableRecovery
  ct_view :: LiveVariablesView
  ct_client :: "client option"
  ct_messages :: "payload list"
  ct_status :: string
  ct_diagnostic_level :: string
  ct_max_recovery_candidates :: int
  ct_watched_lvar_indexes :: "int list"
  ct_analysis_cache :: AnalysisSelectionCache
  ct_active_pc_seq :: "int option"
  ct_active_function_ea :: "int option"

record ida_answers =
  ia_in_ida :: bool
  ia_kernel_version :: "string res"
  ia_ask_str :: "string option"
  ia_execute_sync :: "string option"
  ia_imagebase :: int
  ia_jumpto :: "int \<Rightarrow> bool"
  ia_apis :: bool
  ia_get_func :: "int \<Rightarrow> int option"
  ia_decompile :: "int \<Rightarrow> decompile_answer"
  ia_analysis :: "cfunc AnalysisProvider"
  ia_duration :: string

definition core_new :: DayVarCore where
  "core_new = \<lparr>dc_next_message_id = 1, dc_current_pc = None, dc_pending_requests = [], dc_rows = []\<rparr>"

definition DayVarController_init :: "string option \<Rightarrow> int \<Rightarrow> DayVarController" where
  "DayVarController_init diagnostic_level max_recovery_candidates =
     \<lparr>ct_core = core_new, ct_v_recovery = VVariableRecovery_init 256, ct_view = LiveVariablesView_init,
      ct_client = None, ct_messages = [], ct_status = ''disconnected'',
      ct_diagnostic_level = normalize_diagnostic_level diagnostic_level,
      ct_max_recovery_candidates = max 0 max_recovery_candidates, ct_watched_lvar_indexes = [],
      ct_analysis_cache = AnalysisSelectionCache_init, ct_active_pc_seq = None, ct_active_function_ea = None\<rparr>"

section \<open>Logging, sending, publishing\<close>

definition log_msg :: "string \<Rightarrow> string \<Rightarrow> DayVarController \<Rightarrow> DayVarController" where
  "log_msg message level c =
     (if log_level level \<le> log_level (ct_diagnostic_level c)
      then c\<lparr>ct_view := view_log message (ct_view c)\<rparr> else c)"

definition emit_diagnostic_lines :: "string list \<Rightarrow> DayVarController \<Rightarrow> DayVarController" where
  "emit_diagnostic_lines lines c = fold (\<lambda>line. log_msg line (diagnostic_line_level line)) lines c"

text \<open>
  \<open>execute_sync\<close> runs the function, or raises with the given text before it does. The exception that
  the function itself ends with is reported beside the state.
\<close>

definition run_on_ida_thread ::
    "ida_answers \<Rightarrow> (DayVarController \<Rightarrow> py_error option \<times> DayVarController) \<Rightarrow> DayVarController \<Rightarrow>
     py_error option \<times> DayVarController" where
  "run_on_ida_thread ia func c =
     (if \<not> ia_in_ida ia then func c
      else case ia_execute_sync ia of
             None \<Rightarrow> func c
           | Some exc \<Rightarrow> (None, c\<lparr>ct_view := view_log (''failed to execute on IDA thread: '' @ exc) (ct_view c)\<rparr>))"

definition ct_on_status :: "ida_answers \<Rightarrow> string \<Rightarrow> DayVarController \<Rightarrow> DayVarController" where
  "ct_on_status ia message c =
     snd (run_on_ida_thread ia (\<lambda>c. (None, log_msg message ''normal'' c)) (c\<lparr>ct_status := message\<rparr>))"

text \<open>\<open>_send\<close>; a client that was stopped reports the dropped message through its status callback.\<close>

definition ct_send :: "ida_answers \<Rightarrow> payload \<Rightarrow> DayVarController \<Rightarrow> DayVarController" where
  "ct_send ia message c =
     (case ct_client c of
        None \<Rightarrow> log_msg (''cannot send type='' @ py_str (jget message ''type'') @ '': not connected'') ''quiet'' c
      | Some cl \<Rightarrow>
          let c1 = log_msg (''send type='' @ py_str (jget message ''type'') @ '' id='' @ py_str (jget message ''id''))
                     ''verbose'' c;
              c2 = c1\<lparr>ct_client := Some (client_send message cl)\<rparr>
          in if pc_stop cl
             then ct_on_status ia (''drop send while disconnected type='' @ py_str (jget message ''type'')) c2
             else c2)"

definition publish_rows :: "bool \<Rightarrow> DayVarController \<Rightarrow> DayVarController" where
  "publish_rows in_ida c =
     c\<lparr>ct_view := update_rows in_ida (overlay_rows (ct_v_recovery c) (dc_rows (ct_core c))) (ct_view c)\<rparr>"

definition invalidate_analysis_cache :: "string \<Rightarrow> bool \<Rightarrow> DayVarController \<Rightarrow> DayVarController" where
  "invalidate_analysis_cache reason clear_cursors c =
     log_msg (''analysis selection cache invalidated reason='' @ reason) ''trace''
       (c\<lparr>ct_analysis_cache := cache_invalidate clear_cursors (ct_analysis_cache c)\<rparr>)"

definition jump_to :: "ida_answers \<Rightarrow> int \<Rightarrow> DayVarController \<Rightarrow> DayVarController" where
  "jump_to ia ea c =
     (if \<not> ia_in_ida ia then log_msg (''outside IDA: would jump to '' @ format_hex ea) ''verbose'' c
      else if \<not> ia_jumpto ia ea then log_msg (''jumpto failed ea='' @ format_hex ea) ''quiet'' c
      else c)"

definition get_imagebase :: "ida_answers \<Rightarrow> int" where
  "get_imagebase ia = (if ia_in_ida ia then ia_imagebase ia else 0x140000000)"

definition log_mapping :: "payload \<Rightarrow> DayVarController \<Rightarrow> DayVarController" where
  "log_mapping p =
     log_msg (''pc_seq='' @ py_str (jget p ''pc_seq'') @ '' runtime_pc='' @ py_str (jget p ''runtime_pc'') @
       '' ida_ea='' @ py_str (jget p ''ida_ea'') @ '' module='' @ py_str (jget_or p ''module'' (JStr []))) ''normal''"

definition log_response :: "string \<Rightarrow> payload \<Rightarrow> DayVarController \<Rightarrow> DayVarController" where
  "log_response message_type p =
     log_msg (message_type @ '' pc_seq='' @ py_str (jget p ''pc_seq'') @ '' request_id='' @
         py_str (jget p ''request_id'') @ '' ok='' @ py_str (jget p ''ok'') @
         (if message_type = ''mem_response''
          then '' address='' @ py_str (jget p ''address'') @ '' size='' @ py_str (jget p ''size'') else []))
       (if jget p ''ok'' \<noteq> JBool True then ''quiet'' else ''verbose'')"

definition count_rows :: "(VariableRecord \<Rightarrow> bool) \<Rightarrow> VariableRecord list \<Rightarrow> string" where
  "count_rows P rows = str_int (int (length (filter P rows)))"

definition summary_bucket :: "VariableRecord \<Rightarrow> string" where
  "summary_bucket row =
     (if vr_status row = ''fresh'' then ''fresh''
      else if vr_status row = ''stale'' then ''stale''
      else if vr_reason row = ''no_reaching_definition'' then ''not_defined''
      else if vr_reason row \<in> set [''ambiguous_register_location'', ''ambiguous_reaching_definition'',
             ''cross_block_liveness_unproven''] then ''ambiguous''
      else if vr_reason row \<in> set [''unsupported_scattered_location'', ''unsupported_value_width''] \<or>
              vr_confidence row = ''unsupported_variable'' then ''unsupported''
      else [])"

definition log_analysis_summary ::
    "VariableRecord list \<Rightarrow> nat \<Rightarrow> string \<Rightarrow> DayVarController \<Rightarrow> DayVarController" where
  "log_analysis_summary rows request_count duration =
     (let n = \<lambda>b. count_rows (\<lambda>row. summary_bucket row = b) rows
      in log_msg (''analysis summary total_lvars='' @ str_int (int (length rows)) @ '' exact_fresh='' @ n ''fresh'' @
           '' stale='' @ n ''stale'' @ '' not_defined='' @ n ''not_defined'' @ '' ambiguous='' @ n ''ambiguous'' @
           '' unsupported='' @ n ''unsupported'' @ '' requests_issued='' @ str_int (int request_count) @
           '' duration_ms='' @ duration) ''verbose'')"

section \<open>A program counter update\<close>

text \<open>\<open>int(v)\<close> of a JSON value.\<close>

fun int_of_json :: "json \<Rightarrow> int res" where
  "int_of_json (JInt i) = Inr i"
| "int_of_json (JBool b) = Inr (if b then 1 else 0)"
| "int_of_json (JFloat (Fin q)) = Inr (if q < 0 then \<lceil>q\<rceil> else \<lfloor>q\<rfloor>)"
| "int_of_json (JFloat NegZero) = Inr 0"
| "int_of_json (JFloat NaN) = Inl (ValueError ''cannot convert float NaN to integer'')"
| "int_of_json (JFloat _) = Inl (OverflowError ''cannot convert float infinity to integer'')"
| "int_of_json (JStr s) =
     (case py_int10 s of
        Some i \<Rightarrow> Inr i
      | None \<Rightarrow> Inl (ValueError (''invalid literal for int() with base 10: '' @ repr_str s)))"
| "int_of_json _ = Inl (TypeError ''int() argument must be a string, a bytes-like object or a real number'')"

definition update_pc_seq :: "payload \<Rightarrow> int res" where
  "update_pc_seq p =
     (let v = jget_or p ''pc_seq'' (JInt 0) in if json_truthy v then int_of_json v else Inr 0)"

text \<open>The text of the exceptions that \<open>map_pc_update\<close> raises.\<close>

fun mapping_exc_text :: "py_error \<Rightarrow> string" where
  "mapping_exc_text (KeyError k) = repr_str k"
| "mapping_exc_text e = exc_text e"

definition pc_context :: "int \<Rightarrow> string \<Rightarrow> string \<Rightarrow> string \<Rightarrow> bool \<Rightarrow> PcContext" where
  "pc_context pc_seq runtime_pc ida_ea function_ea at_entry =
     \<lparr>px_pc_seq = pc_seq, px_runtime_pc = runtime_pc, px_ida_ea = ida_ea, px_function_ea = function_ea,
      px_at_function_entry = at_entry\<rparr>"

definition send_mapped ::
    "ida_answers \<Rightarrow> int \<Rightarrow> string \<Rightarrow> string option \<Rightarrow> string \<Rightarrow> string \<Rightarrow> bool \<Rightarrow> string option \<Rightarrow> DayVarController \<Rightarrow> DayVarController" where
  "send_mapped ia pc_seq runtime_pc ida_ea module_name imagebase ok err c =
     (case make_ida_pc_mapped pc_seq runtime_pc ida_ea module_name imagebase ok err (ct_core c) of
        (message, core) \<Rightarrow> ct_send ia message (c\<lparr>ct_core := core\<rparr>))"

text \<open>The update names no usable address: the old context is dropped and the failure reported.\<close>

definition mapping_failed :: "ida_answers \<Rightarrow> payload \<Rightarrow> int \<Rightarrow> py_error \<Rightarrow> DayVarController \<Rightarrow> DayVarController" where
  "mapping_failed ia p pc_seq exc c =
     (let runtime_pc = py_str (jget_or p ''pc'' (JStr []));
          c1 = invalidate_analysis_cache ''mapping failure'' False
                 (log_msg (''pc_update mapping failed: '' @ mapping_exc_text exc) ''quiet'' c);
          c2 = c1\<lparr>ct_core := start_pc_context (pc_context pc_seq runtime_pc [] [] False) (ct_core c1),
                  ct_v_recovery := invalidate_pc pc_seq runtime_pc (ct_v_recovery c1)\<rparr>
      in send_mapped ia pc_seq runtime_pc None (py_str (jget_or p ''module'' (JStr [])))
           (format_hex (get_imagebase ia)) False (Some (mapping_exc_text exc)) c2)"

text \<open>The first part of a mapped update: jump, report the mapping, invalidate the recovery.\<close>

definition announce_mapping :: "ida_answers \<Rightarrow> PcMapping \<Rightarrow> DayVarController \<Rightarrow> DayVarController" where
  "announce_mapping ia m c =
     (let runtime_pc_text = format_hex (pm_runtime_pc m);
          c1 = jump_to ia (pm_ida_ea m) c
      in case make_ida_pc_mapped (pm_pc_seq m) runtime_pc_text (Some (format_hex (pm_ida_ea m))) (pm_module m)
                (format_hex (pm_ida_imagebase m)) True None (ct_core c1) of
           (mapped, core) \<Rightarrow>
             let c2 = ct_send ia mapped (log_mapping (case json_obj (jget mapped ''payload'') of Some q \<Rightarrow> q | None \<Rightarrow> [])
                        (c1\<lparr>ct_core := core\<rparr>))
             in c2\<lparr>ct_v_recovery := invalidate_pc (pm_pc_seq m) runtime_pc_text (ct_v_recovery c2)\<rparr>)"

definition enumerate_at :: "ida_answers \<Rightarrow> int \<Rightarrow> string \<Rightarrow> VariableEnumerationResult" where
  "enumerate_at ia ea current_pc =
     enumerate_hexrays_variables (ia_apis ia) (ia_get_func ia ea)
       (case ia_get_func ia ea of Some start \<Rightarrow> ia_decompile ia start | None \<Rightarrow> DecompileNone) ea current_pc"

text \<open>No variables could be enumerated: the context moves on and the table is emptied.\<close>

definition enumeration_failed ::
    "ida_answers \<Rightarrow> PcMapping \<Rightarrow> VariableEnumerationResult \<Rightarrow> DayVarController \<Rightarrow> DayVarController" where
  "enumeration_failed ia m e c =
     (let runtime_pc_text = format_hex (pm_runtime_pc m);
          c1 = c\<lparr>ct_core := start_pc_context (pc_context (pm_pc_seq m) runtime_pc_text (format_hex (pm_ida_ea m))
                   (ve_function_ea e) False) (ct_core c),
                 ct_v_recovery := invalidate_pc (pm_pc_seq m) runtime_pc_text (ct_v_recovery c)\<rparr>;
          c2 = invalidate_analysis_cache ''decompiler refresh failed'' False c1;
          c3 = c2\<lparr>ct_view := update_rows (ia_in_ida ia) [] (ct_view c2)\<rparr>
      in log_msg (ve_error e) ''quiet'' c3)"

text \<open>The entry plan of the argument core, published and sent.\<close>

definition plan_arguments ::
    "ida_answers \<Rightarrow> PcMapping \<Rightarrow> VariableEnumerationResult \<Rightarrow> DayVarController \<Rightarrow>
     payload option \<times> DayVarController" where
  "plan_arguments ia m e c =
     (let at_entry = (ve_function_start_ea e = Some (pm_ida_ea m));
          px = pc_context (pm_pc_seq m) (format_hex (pm_runtime_pc m)) (format_hex (pm_ida_ea m))
                 (ve_function_ea e) at_entry
      in case build_entry_plan (ve_variables e) px (ct_core c) of
           (plan, core) \<Rightarrow>
             let c1 = log_msg (''enumerated '' @ str_int (int (length (ve_variables e))) @
                        '' Hex-Rays variables function='' @ ve_function_ea e @ '' at_entry='' @
                        py_repr (JBool at_entry)) ''normal'' (c\<lparr>ct_core := core\<rparr>);
                 c2 = publish_rows (ia_in_ida ia) (emit_diagnostic_lines (rp_debug_lines plan) c1)
             in (rp_register_request plan,
                 case rp_register_request plan of None \<Rightarrow> c2 | Some r \<Rightarrow> ct_send ia r c2))"

text \<open>Which lvars the recovery analyses now.\<close>

definition select_candidates ::
    "PcMapping \<Rightarrow> VariableEnumerationResult \<Rightarrow> VariableRecord list \<Rightarrow> DayVarController \<Rightarrow> int list \<times> DayVarController" where
  "select_candidates m e previous c =
     (case cache_select (pm_pc_seq m) (case ve_function_start_ea e of Some f \<Rightarrow> f | None \<Rightarrow> 0) (pm_ida_ea m)
             (ve_variables e) previous (lw_active_filter (ct_view c)) (ct_watched_lvar_indexes c)
             (ct_max_recovery_candidates c) (ct_analysis_cache c) of
        (selected, cache) \<Rightarrow>
          (selected,
           log_msg (''v-analysis selection total_locals='' @
               str_int (int (length (filter (\<lambda>v. \<not> vr_is_arg v) (ve_variables e)))) @ '' selected='' @
               str_int (int (length selected)) @ '' filter='' @ lw_active_filter (ct_view c)) ''verbose''
             (c\<lparr>ct_analysis_cache := cache\<rparr>)))"

text \<open>The recovery plan of the local variables, published and sent.\<close>

definition plan_locals ::
    "ida_answers \<Rightarrow> PcMapping \<Rightarrow> VariableEnumerationResult \<Rightarrow> int list \<Rightarrow> DayVarController \<Rightarrow>
     payload option \<times> DayVarController" where
  "plan_locals ia m e selected c =
     (case begin_pc (ia_analysis ia) envelope (ve_variables e)
             (case ve_function_start_ea e of Some f \<Rightarrow> f | None \<Rightarrow> 0) (pm_ida_ea m) (format_hex (pm_runtime_pc m))
             (pm_pc_seq m) (ve_cfunc e) (Some selected) (ct_v_recovery c) (ct_core c) of
        (plan, v, core) \<Rightarrow>
          let c1 = publish_rows (ia_in_ida ia)
                     (emit_diagnostic_lines (vl_debug_lines plan) (c\<lparr>ct_v_recovery := v, ct_core := core\<rparr>))
          in (vl_register_request plan,
              case vl_register_request plan of None \<Rightarrow> c1 | Some r \<Rightarrow> ct_send ia r c1))"

definition variables_enumerated ::
    "ida_answers \<Rightarrow> PcMapping \<Rightarrow> VariableEnumerationResult \<Rightarrow> VariableRecord list \<Rightarrow> DayVarController \<Rightarrow>
     DayVarController" where
  "variables_enumerated ia m e previous c =
     (let c1 = (if ct_active_function_ea c \<noteq> ve_function_start_ea e
                then (invalidate_analysis_cache ''function change'' False c)
                       \<lparr>ct_active_function_ea := ve_function_start_ea e\<rparr>
                else c)
      in case plan_arguments ia m e c1 of (request, c2) \<Rightarrow>
         case select_candidates m e previous c2 of (selected, c3) \<Rightarrow>
         case plan_locals ia m e selected c3 of (v_request, c4) \<Rightarrow>
           log_analysis_summary (lw_all_rows (ct_view c4))
             (length (filter (\<lambda>r. r \<noteq> None) [request, v_request])) (ia_duration ia) c4)"

definition handle_mapped :: "ida_answers \<Rightarrow> PcMapping \<Rightarrow> DayVarController \<Rightarrow> DayVarController" where
  "handle_mapped ia m c =
     (let c1 = announce_mapping ia m c;
          e = enumerate_at ia (pm_ida_ea m) (format_hex (pm_runtime_pc m))
      in if \<not> ve_ok e then enumeration_failed ia m e c1
         else variables_enumerated ia m e (lw_all_rows (ct_view c1)) c1)"

definition handle_pc_update :: "ida_answers \<Rightarrow> payload \<Rightarrow> DayVarController \<Rightarrow> DayVarController res" where
  "handle_pc_update ia p c =
     (if \<not> json_truthy (jget p ''auto_live'')
      then Inr (log_msg (''pc_update ignored because auto_live is false payload='' @ py_repr (JObj p)) ''verbose'' c)
      else res_bind (update_pc_seq p) (\<lambda>pc_seq.
        let c1 = (if ct_active_pc_seq c \<noteq> Some pc_seq
                  then (invalidate_analysis_cache ''new pc sequence'' False c)\<lparr>ct_active_pc_seq := Some pc_seq\<rparr>
                  else c)
        in Inr (case map_pc_update p (get_imagebase ia) of
                  Inl exc \<Rightarrow> mapping_failed ia p pc_seq exc c1
                | Inr m \<Rightarrow> handle_mapped ia m c1)))"

section \<open>Responses\<close>

definition handle_reg_response :: "ida_answers \<Rightarrow> payload \<Rightarrow> DayVarController \<Rightarrow> DayVarController" where
  "handle_reg_response ia p c =
     (if is_v_request_id (jget p ''request_id'')
      then case v_apply_reg_response envelope p (ct_v_recovery c) (ct_core c) of
             ((accepted, reason, mem_requests, debug_lines), v, core) \<Rightarrow>
               let c1 = c\<lparr>ct_v_recovery := v, ct_core := core\<rparr>
               in if \<not> accepted then log_msg (''ignored v reg_response: '' @ reason) ''quiet'' c1
                  else fold (ct_send ia) mem_requests
                         (publish_rows (ia_in_ida ia)
                           (emit_diagnostic_lines debug_lines (log_response ''reg_response'' p c1)))
      else case apply_reg_response p (ct_core c) of
             ((accepted, reason, mem_requests), core) \<Rightarrow>
               let c1 = c\<lparr>ct_core := core\<rparr>
               in if \<not> accepted then log_msg (''ignored reg_response: '' @ reason) ''quiet'' c1
                  else fold (ct_send ia) mem_requests
                         (publish_rows (ia_in_ida ia) (log_response ''reg_response'' p c1)))"

definition handle_mem_response :: "ida_answers \<Rightarrow> payload \<Rightarrow> DayVarController \<Rightarrow> DayVarController" where
  "handle_mem_response ia p c =
     (if is_v_request_id (jget p ''request_id'')
      then case v_apply_mem_response p (ct_v_recovery c) of
             ((accepted, reason, debug_lines), v) \<Rightarrow>
               let c1 = c\<lparr>ct_v_recovery := v\<rparr>
               in if \<not> accepted then log_msg (''ignored v mem_response: '' @ reason) ''quiet'' c1
                  else publish_rows (ia_in_ida ia)
                         (emit_diagnostic_lines debug_lines (log_response ''mem_response'' p c1))
      else case apply_mem_response p (ct_core c) of
             ((accepted, reason), core) \<Rightarrow>
               let c1 = c\<lparr>ct_core := core\<rparr>
               in if \<not> accepted then log_msg (''ignored mem_response: '' @ reason) ''quiet'' c1
                  else publish_rows (ia_in_ida ia) (log_response ''mem_response'' p c1))"

section \<open>Messages\<close>

definition handle_message :: "ida_answers \<Rightarrow> payload \<Rightarrow> DayVarController \<Rightarrow> DayVarController res" where
  "handle_message ia message c =
     (let t = jget message ''type''
      in case json_obj (jget_or message ''payload'' (JObj [])) of
           None \<Rightarrow> Inr (log_msg (''ignored message with non-object payload type='' @ py_str t) ''quiet'' c)
         | Some p \<Rightarrow>
             if json_eq_str t ''hello_ack''
             then Inr (log_msg (''hello_ack payload='' @ py_repr (JObj p)) ''verbose'' c)
             else if json_eq_str t ''pc_update'' then handle_pc_update ia p c
             else if json_eq_str t ''reg_response'' then Inr (handle_reg_response ia p c)
             else if json_eq_str t ''mem_response'' then Inr (handle_mem_response ia p c)
             else if json_eq_str t ''error'' then Inr (log_msg (''broker/error payload='' @ py_repr (JObj p)) ''quiet'' c)
             else Inr (log_msg (''ignored incoming message type='' @ py_str t) ''verbose'' c))"

text \<open>
  \<open>_drain_messages\<close>: the messages left in the queue, the exception that ended the loop if any, and
  the controller. A message that raises has been taken from the queue.
\<close>

fun drain_messages :: "ida_answers \<Rightarrow> payload list \<Rightarrow> DayVarController \<Rightarrow> py_error option \<times> DayVarController" where
  "drain_messages ia [] c = (None, c\<lparr>ct_messages := []\<rparr>)"
| "drain_messages ia (message # rest) c =
     (case handle_message ia message c of
        Inl exc \<Rightarrow> (Some exc, c\<lparr>ct_messages := rest\<rparr>)
      | Inr c' \<Rightarrow> drain_messages ia rest c')"

definition on_network_message :: "ida_answers \<Rightarrow> payload \<Rightarrow> DayVarController \<Rightarrow> py_error option \<times> DayVarController" where
  "on_network_message ia message c =
     run_on_ida_thread ia (\<lambda>c. drain_messages ia (ct_messages c) c) (c\<lparr>ct_messages := ct_messages c @ [message]\<rparr>)"

section \<open>User actions\<close>

definition client_new :: client where
  "client_new = \<lparr>pc_queue = [], pc_alive = False, pc_sock = False, pc_stop = False, pc_connected = False,
     pc_hello = [], pc_sent = [], pc_buffer = [], pc_messages = [], pc_status = []\<rparr>"

text \<open>\<open>target.rsplit(":", 1)\<close> of a text that contains a colon.\<close>

definition rsplit_colon :: "string \<Rightarrow> string \<times> string" where
  "rsplit_colon s =
     (let port = takeWhile (\<lambda>ch. ch \<noteq> CHR '':'') (rev s)
      in (take (length s - length port - 1) s, rev port))"

definition DEFAULT_HOST :: string where "DEFAULT_HOST = ''127.0.0.1''"
definition DEFAULT_PORT :: int where "DEFAULT_PORT = 9100"

definition ida_version :: "ida_answers \<Rightarrow> string" where
  "ida_version ia =
     (if \<not> ia_in_ida ia then ''outside-ida''
      else case ia_kernel_version ia of Inr v \<Rightarrow> v | Inl _ \<Rightarrow> ''unknown'')"

text \<open>\<open>ask_str\<close> gives \<open>None\<close> when the dialog is cancelled.\<close>

definition ask_target :: "ida_answers \<Rightarrow> string" where
  "ask_target ia =
     (let dflt = DEFAULT_HOST @ '':'' @ str_int DEFAULT_PORT
      in if \<not> ia_in_ida ia then dflt
         else case ia_ask_str ia of Some v \<Rightarrow> if v \<noteq> [] then v else dflt | None \<Rightarrow> dflt)"

definition parse_target :: "string \<Rightarrow> (string \<times> int) res" where
  "parse_target target =
     (let t = py_strip target
      in if t = [] then Inr (DEFAULT_HOST, DEFAULT_PORT)
         else if CHR '':'' \<notin> set t then Inr (t, DEFAULT_PORT)
         else case rsplit_colon t of
                (host, port_text) \<Rightarrow>
                  (case py_int10 port_text of
                     Some port \<Rightarrow> Inr (py_strip host, port)
                   | None \<Rightarrow> Inl (ValueError (''invalid literal for int() with base 10: '' @ repr_str port_text))))"

definition ct_connect :: "ida_answers \<Rightarrow> string option \<Rightarrow> DayVarController \<Rightarrow> DayVarController" where
  "ct_connect ia target c =
     (case parse_target (case target of Some t \<Rightarrow> if t \<noteq> [] then t else ask_target ia | None \<Rightarrow> ask_target ia) of
        Inl exc \<Rightarrow> log_msg (''invalid broker target: '' @ exc_text exc) ''quiet'' c
      | Inr (host, port) \<Rightarrow>
          if (case ct_client c of Some cl \<Rightarrow> pc_connected cl | None \<Rightarrow> False)
          then log_msg ''already connected'' ''normal'' c
          else case make_hello (ida_version ia) (ct_core c) of
                 (hello, core) \<Rightarrow>
                   let status = ''connecting to '' @ host @ '':'' @ str_int port
                   in log_msg status ''normal''
                        (c\<lparr>ct_core := core, ct_client := Some (client_connect hello client_new), ct_status := status\<rparr>))"

definition ct_disconnect :: "DayVarController \<Rightarrow> DayVarController" where
  "ct_disconnect c =
     (let c1 = c\<lparr>ct_client := map_option client_disconnect (ct_client c), ct_status := ''disconnected'',
                 ct_core := (ct_core c)\<lparr>dc_pending_requests := []\<rparr>,
                 ct_v_recovery := clear_runtime_state (ct_v_recovery c)\<rparr>
      in log_msg ''disconnect requested'' ''normal'' (invalidate_analysis_cache ''disconnect'' True c1))"

definition show_status :: "DayVarController \<Rightarrow> DayVarController" where
  "show_status c =
     (let connected = (case ct_client c of Some cl \<Rightarrow> pc_connected cl | None \<Rightarrow> False);
          pc_status = (case dc_current_pc (ct_core c) of
             None \<Rightarrow> ''pc=<none>''
           | Some px \<Rightarrow> ''pc_seq='' @ str_int (px_pc_seq px) @ '' runtime_pc='' @ px_runtime_pc px @
                        '' ida_ea='' @ px_ida_ea px)
      in log_msg (''status connected='' @ py_repr (JBool connected) @ '' '' @ pc_status @ '' state='' @ ct_status c @
           '' diagnostics='' @ ct_diagnostic_level c @ '' filter='' @ lw_active_filter (ct_view c)) ''normal'' c)"

definition show_live_variables :: "bool \<Rightarrow> DayVarController \<Rightarrow> DayVarController" where
  "show_live_variables in_ida c = c\<lparr>ct_view := view_show in_ida (ct_view c)\<rparr>"

definition ct_set_filter :: "bool \<Rightarrow> string \<Rightarrow> DayVarController \<Rightarrow> DayVarController res" where
  "ct_set_filter in_ida filter_name c =
     res_bind (set_filter in_ida filter_name (ct_view c)) (\<lambda>view.
       Inr (log_msg (''Live Variables filter='' @ filter_name) ''normal''
         (invalidate_analysis_cache ''filter changed'' False (c\<lparr>ct_view := view\<rparr>))))"

end
