(* ===== verification/Correlation.thy ===== *)
theory Correlation
  imports Json
begin

text \<open>
  The contract of a table of outstanding runtime requests, which the argument core and the local
  variable recovery both implement: a response takes at most the request it names, only for the
  current sequence number and the expected kind, and a rejected response leaves no trace.
\<close>

locale request_table =
  fixes current :: "'s \<Rightarrow> int option"
    and outstanding :: "'s \<Rightarrow> string \<Rightarrow> 'r option"
    and kind_of :: "'r \<Rightarrow> string"
    and take_request :: "payload \<Rightarrow> string \<Rightarrow> 's \<Rightarrow> ('r option \<times> string) \<times> 's"
  assumes take_none: "take_request p k s = ((None, why), s') \<Longrightarrow> s' = s"
    and take_some: "take_request p k s = ((Some r, why), s') \<Longrightarrow>
      current s' = current s \<and> (\<exists>seq i. current s = Some seq \<and> json_eq_int (jget p ''pc_seq'') seq \<and>
        jget p ''request_id'' = JStr i \<and> outstanding s i = Some r \<and> kind_of r = k \<and>
        outstanding s' = (outstanding s)(i := None))"
begin

lemma rejected_if_never_accepted:
  assumes "\<And>r why s'. take_request p k s \<noteq> ((Some r, why), s')"
  shows "\<exists>why. take_request p k s = ((None, why), s)"
proof -
  obtain ro why s' where t: "take_request p k s = ((ro, why), s')" by (metis surj_pair)
  with assms have "ro = None" by (cases ro) auto
  with t take_none [of p k s why s'] show ?thesis by auto
qed

lemma stale_rejected:
  "current s = Some seq \<Longrightarrow> \<not> json_eq_int (jget p ''pc_seq'') seq \<Longrightarrow>
   \<exists>why. take_request p k s = ((None, why), s)"
  by (rule rejected_if_never_accepted) (auto dest!: take_some)

lemma no_context_rejected: "current s = None \<Longrightarrow> \<exists>why. take_request p k s = ((None, why), s)"
  by (rule rejected_if_never_accepted) (auto dest!: take_some)

lemma absent_rejected:
  "jget p ''request_id'' = JStr i \<Longrightarrow> outstanding s i = None \<Longrightarrow>
   \<exists>why. take_request p k s = ((None, why), s)"
  by (rule rejected_if_never_accepted) (auto dest!: take_some)

lemma taken_once:
  "take_request p k s = ((Some r, why), s') \<Longrightarrow> \<exists>why. take_request p k' s' = ((None, why), s')"
  by (drule take_some) (auto intro: absent_rejected)

lemma taken_satisfies:
  assumes "\<And>i r. outstanding s i = Some r \<Longrightarrow> P i r" "take_request p k s = ((Some r, why), s')"
  obtains i where "jget p ''request_id'' = JStr i" "P i r" "kind_of r = k" "outstanding s' i = None"
    "\<And>i r. outstanding s' i = Some r \<Longrightarrow> P i r" "current s' = current s"
proof -
  from take_some [OF assms(2)] obtain i where i: "jget p ''request_id'' = JStr i" "outstanding s i = Some r"
    "kind_of r = k" "outstanding s' = (outstanding s)(i := None)" "current s' = current s" by blast
  show thesis
    by (rule that [of i]) (use i assms(1) in \<open>auto split: if_splits\<close>)
qed

end

end
