(* ===== verification/Dynvar_Core_Proofs.thy ===== *)
theory Dynvar_Core_Proofs
  imports Dynvar_Core Correlation
begin

text \<open>
  Correctness of the argument core: pending requests always belong to the current program
  counter, responses are accepted once and only for it, and the planned requests are exactly
  those the Windows x64 entry convention needs.
\<close>

section \<open>The correlation invariant\<close>

definition request_ok :: "PcContext \<Rightarrow> string \<Rightarrow> PendingRequest \<Rightarrow> bool" where
  "request_ok px k pr \<longleftrightarrow>
     pr_request_id pr = k \<and> pr_pc_seq pr = px_pc_seq px \<and> pr_runtime_pc pr = px_runtime_pc px \<and>
     (pr_kind pr = ''reg'' \<and> take 4 k = ''reg-'' \<or> pr_kind pr = ''mem'' \<and> take 4 k = ''mem-'')"

definition core_ok :: "DayVarCore \<Rightarrow> bool" where
  "core_ok c \<longleftrightarrow>
     (\<forall>k pr. dget (dc_pending_requests c) k = Some pr \<longrightarrow>
        (\<exists>px. dc_current_pc c = Some px \<and> request_ok px k pr))"

lemma envelope_fields [simp]:
  "dc_current_pc (snd (envelope t p c)) = dc_current_pc c"
  "dc_pending_requests (snd (envelope t p c)) = dc_pending_requests c"
  "dc_rows (snd (envelope t p c)) = dc_rows c"
  "dc_next_message_id (snd (envelope t p c)) = dc_next_message_id c + 1"
  "jget (fst (envelope t p c)) ''id'' = JInt (dc_next_message_id c)"
  "jget (fst (envelope t p c)) ''payload'' = JObj p"
  by (simp_all add: envelope_def take_message_id_def jget_def)

lemma core_ok_envelope [inv_intros]: "core_ok c \<Longrightarrow> core_ok (snd (envelope t p c))"
  by (simp add: core_ok_def)

lemma core_ok_start [inv_intros]: "core_ok (start_pc_context px c)"
  by (simp add: core_ok_def start_pc_context_def)

lemma core_ok_rows [inv_intros]: "core_ok c \<Longrightarrow> core_ok (c\<lparr>dc_rows := rows\<rparr>)"
  by (simp add: core_ok_def)

lemma core_ok_put [inv_intros]:
  "core_ok c \<Longrightarrow> dc_current_pc c = Some px \<Longrightarrow> request_ok px k pr \<Longrightarrow>
   core_ok (c\<lparr>dc_pending_requests := dset k pr (dc_pending_requests c)\<rparr>)"
  by (auto simp: core_ok_def)

lemma core_ok_del [inv_intros]:
  "core_ok c \<Longrightarrow> core_ok (c\<lparr>dc_pending_requests := ddel k (dc_pending_requests c)\<rparr>)"
  by (auto simp: core_ok_def split: if_splits)

lemma plan_state:
  fixes variables px c
  defines "acc \<equiv> plan_variables variables px (dc_rows c)"
  shows "dc_current_pc (snd (build_entry_plan variables px c)) = Some px"
    and "dc_rows (snd (build_entry_plan variables px c)) = pa_rows acc"
    and "dc_pending_requests (snd (build_entry_plan variables px c)) =
      (if plan_registers acc = [] then []
       else [(''reg-'' @ str_int (px_pc_seq px) @ ''-entry'',
         \<lparr>pr_kind = ''reg'', pr_pc_seq = px_pc_seq px,
          pr_request_id = ''reg-'' @ str_int (px_pc_seq px) @ ''-entry'',
          pr_runtime_pc = px_runtime_pc px, pr_variable_names = pa_reg_variables acc,
          pr_registers = plan_registers acc, pr_address = [], pr_size = 0\<rparr>)])"
    and "rp_register_request (fst (build_entry_plan variables px c)) = None \<longleftrightarrow> plan_registers acc = []"
  by (simp_all add: build_entry_plan_def Let_def case_prod_beta start_pc_context_def request_registers_def
      acc_def)

lemma core_ok_plan [inv_intros]: "core_ok (snd (build_entry_plan variables px c))"
  unfolding core_ok_def plan_state by (simp add: request_ok_def)

lemma take_pending_cases:
  assumes "take_pending_response p kind c = ((po, reason), c')"
  shows "po = None \<and> c' = c \<or>
    (\<exists>px pr r. po = Some pr \<and> dc_current_pc c = Some px \<and> json_eq_int (jget p ''pc_seq'') (px_pc_seq px) \<and>
       (json_truthy (jget p ''runtime_pc'') \<longrightarrow> jget p ''runtime_pc'' = JStr (px_runtime_pc px)) \<and>
       jget p ''request_id'' = JStr r \<and> dget (dc_pending_requests c) r = Some pr \<and> pr_kind pr = kind \<and>
       c' = c\<lparr>dc_pending_requests := ddel r (dc_pending_requests c)\<rparr>)"
proof -
  have js: "json_str j = Some x \<longleftrightarrow> j = JStr x" for j x by (cases j) auto
  have je: "json_eq_str j x \<longleftrightarrow> j = JStr x" for j x by (cases j) auto
  show ?thesis
    using assms by (auto simp: take_pending_response_def js je split: option.splits if_splits)
qed

interpretation core_requests: request_table "\<lambda>c. map_option px_pc_seq (dc_current_pc c)"
  "\<lambda>c. dget (dc_pending_requests c)" pr_kind take_pending_response
proof
  fix p k c pr why c'
  show "c' = c" if "take_pending_response p k c = ((None, why), c')"
    using take_pending_cases [OF that] by auto
  show "map_option px_pc_seq (dc_current_pc c') = map_option px_pc_seq (dc_current_pc c) \<and>
    (\<exists>seq i. map_option px_pc_seq (dc_current_pc c) = Some seq \<and> json_eq_int (jget p ''pc_seq'') seq \<and>
      jget p ''request_id'' = JStr i \<and> dget (dc_pending_requests c) i = Some pr \<and> pr_kind pr = k \<and>
      dget (dc_pending_requests c') = (dget (dc_pending_requests c))(i := None))"
    if "take_pending_response p k c = ((Some pr, why), c')"
    using take_pending_cases [OF that] by (auto simp: fun_eq_iff)
qed

lemma mark_fields [simp]:
  "dc_current_pc (mark_rows_error names r c) = dc_current_pc c"
  "dc_pending_requests (mark_rows_error names r c) = dc_pending_requests c"
  "dc_current_pc (mark_stack_rows_error r c) = dc_current_pc c"
  "dc_pending_requests (mark_stack_rows_error r c) = dc_pending_requests c"
  by (simp_all add: mark_rows_error_def mark_stack_rows_error_def)

lemma request_stack_row_state:
  assumes "core_ok c" "dc_current_pc c = Some px" "pr_pc_seq pending = px_pc_seq px"
    "pr_runtime_pc pending = px_runtime_pc px"
  shows "core_ok (snd (request_stack_row rsp pending i row c))"
    and "dc_current_pc (snd (request_stack_row rsp pending i row c)) = Some px"
    and "take 4 k \<noteq> ''mem-'' \<Longrightarrow>
      dget (dc_pending_requests (snd (request_stack_row rsp pending i row c))) k = dget (dc_pending_requests c) k"
  using assms
  by (auto simp: request_stack_row_def Let_def request_ok_def intro!: core_ok_envelope core_ok_put)

lemma stack_requests_inv:
  assumes "core_ok c" "dc_current_pc c = Some px" "pr_pc_seq pending = px_pc_seq px"
    "pr_runtime_pc pending = px_runtime_pc px"
    and "stack_requests rsp pending rows (seen, msgs, c) = (rows', msgs', c')"
  shows "core_ok c' \<and> dc_current_pc c' = Some px \<and>
    (\<forall>k. take 4 k \<noteq> ''mem-'' \<longrightarrow> dget (dc_pending_requests c') k = dget (dc_pending_requests c) k)"
  using assms
proof (induction rows arbitrary: seen msgs c)
  case (Cons row rows)
  show ?case
  proof (cases "stack_index row")
    case (Some i)
    let ?c1 = "snd (request_stack_row rsp pending i row c)"
    note st = request_stack_row_state [OF Cons.prems(1-4), where rsp = rsp and i = i and row = row]
    from Cons.IH [OF st(1,2) Cons.prems(3,4)] Cons.prems(5) Some
    show ?thesis by (auto simp: case_prod_beta st(3))
  qed (use Cons in simp)
qed simp

lemma build_stack_inv:
  assumes "core_ok c" "dc_current_pc c = Some px" "pr_pc_seq pending = px_pc_seq px"
    "pr_runtime_pc pending = px_runtime_pc px"
  shows "core_ok (snd (build_stack_mem_requests registers pending c)) \<and>
    dc_current_pc (snd (build_stack_mem_requests registers pending c)) = Some px \<and>
    (\<forall>k. take 4 k \<noteq> ''mem-'' \<longrightarrow>
       dget (dc_pending_requests (snd (build_stack_mem_requests registers pending c))) k =
       dget (dc_pending_requests c) k)"
proof -
  have mark: "core_ok (mark_stack_rows_error r c)" for r
    using assms(1) by (simp add: mark_stack_rows_error_def core_ok_rows)
  show ?thesis
    using assms mark stack_requests_inv [OF assms, of _ "dc_rows c" "[]" "[]"]
    by (auto simp: build_stack_mem_requests_def core_ok_rows split: option.splits prod.splits)
qed

lemma take_pending_ok:
  assumes "core_ok c" "take_pending_response p kind c = ((Some pr, reason), c')"
  obtains px r where "dc_current_pc c = Some px" "core_ok c'" "dc_current_pc c' = Some px"
    "pr_pc_seq pr = px_pc_seq px" "pr_runtime_pc pr = px_runtime_pc px" "jget p ''request_id'' = JStr r"
    "dget (dc_pending_requests c) r = Some pr" "dget (dc_pending_requests c') r = None" "pr_kind pr = kind"
    "json_eq_int (jget p ''pc_seq'') (px_pc_seq px)" "request_ok px r pr"
proof -
  from take_pending_cases [OF assms(2)] obtain px r where
    *: "dc_current_pc c = Some px" "json_eq_int (jget p ''pc_seq'') (px_pc_seq px)" "jget p ''request_id'' = JStr r"
    "dget (dc_pending_requests c) r = Some pr" "pr_kind pr = kind"
    "c' = c\<lparr>dc_pending_requests := ddel r (dc_pending_requests c)\<rparr>" by auto
  then have "request_ok px r pr" using assms(1) by (auto simp: core_ok_def)
  with * assms(1) that [of px r] show thesis by (simp add: core_ok_del request_ok_def)
qed

lemma core_ok_reg [inv_intros]:
  assumes "core_ok c"
  shows "core_ok (snd (apply_reg_response p c))"
proof -
  obtain po reason c1 where t: "take_pending_response p ''reg'' c = ((po, reason), c1)"
    by (metis surj_pair)
  show ?thesis
  proof (cases po)
    case None
    with t take_pending_cases [OF t] assms show ?thesis by (simp add: apply_reg_response_def)
  next
    case (Some pr)
    from take_pending_ok [OF assms t [unfolded Some]] obtain px where px: "core_ok c1"
      "dc_current_pc c1 = Some px" "pr_pc_seq pr = px_pc_seq px" "pr_runtime_pc pr = px_runtime_pc px" by metis
    have "core_ok (mark_rows_error n r c1)" for n r
      using px(1) by (simp add: mark_rows_error_def core_ok_rows)
    moreover have "core_ok (snd (build_stack_mem_requests registers pr (c1\<lparr>dc_rows := rows\<rparr>)))" for registers rows
      using build_stack_inv [OF core_ok_rows [OF px(1)], of rows px pr registers] px by simp
    ultimately show ?thesis
      using t Some by (auto simp: apply_reg_response_def split: option.splits prod.splits) (metis snd_conv)
  qed
qed

lemma core_ok_mem [inv_intros]:
  assumes "core_ok c"
  shows "core_ok (snd (apply_mem_response p c))"
proof -
  obtain po reason c1 where t: "take_pending_response p ''mem'' c = ((po, reason), c1)" by (metis surj_pair)
  with take_pending_cases [OF t] assms show ?thesis
    by (auto simp: apply_mem_response_def core_ok_del intro!: core_ok_rows)
qed

inductive core_step :: "DayVarCore \<Rightarrow> DayVarCore \<Rightarrow> bool" where
  core_envelope: "core_step c (snd (envelope t p c))"
| core_start: "core_step c (start_pc_context px c)"
| core_plan: "core_step c (snd (build_entry_plan variables px c))"
| core_reg: "core_step c (snd (apply_reg_response p c))"
| core_mem: "core_step c (snd (apply_mem_response p c))"

definition core_initial :: DayVarCore where
  "core_initial = \<lparr>dc_next_message_id = 1, dc_current_pc = None, dc_pending_requests = [], dc_rows = []\<rparr>"

interpretation core_steps: step_system core_step core_ok
proof
  fix c c'
  assume "core_ok c" "core_step c c'"
  from this(2,1) show "core_ok c'" by cases (auto intro: inv_intros)
qed

lemma core_ok_reachable: "core_step\<^sup>*\<^sup>* core_initial c \<Longrightarrow> core_ok c"
  by (erule core_steps.run_inv) (simp add: core_ok_def core_initial_def)

text \<open>
  C16. However plans, responses and messages are interleaved, every pending request belongs to the
  current program counter: it carries its sequence number and runtime address, and is filed
  under its own id.
\<close>

theorem pending_requests_current:
  assumes "core_step\<^sup>*\<^sup>* core_initial c" "dget (dc_pending_requests c) k = Some pr"
  shows "\<exists>px. dc_current_pc c = Some px \<and> pr_pc_seq pr = px_pc_seq px \<and>
    pr_runtime_pc pr = px_runtime_pc px \<and> pr_request_id pr = k"
  using core_ok_reachable [OF assms(1)] assms(2) by (auto simp: core_ok_def request_ok_def)

definition ex_row :: "string \<Rightarrow> nat \<Rightarrow> VariableRecord" where
  "ex_row name i = VariableRecord_new 0 name ''arg'' [] 4 True (Some i) [] ''0x1000'' 0x1000"

definition ex_context :: PcContext where
  "ex_context = \<lparr>px_pc_seq = 3, px_runtime_pc = ''0x7ff0'', px_ida_ea = ''0x1000'', px_function_ea = ''0x1000'',
     px_at_function_entry = True\<rparr>"

definition ex_planned :: DayVarCore where
  "ex_planned = snd (build_entry_plan [ex_row ''a1'' 0, ex_row ''a5'' 4] ex_context core_initial)"

definition ex_reg_id :: string where
  "ex_reg_id = ''reg-3-entry''"

lemma ex_planned_pending:
  "\<exists>pr. dget (dc_pending_requests ex_planned) ex_reg_id = Some pr \<and> pr_kind pr = ''reg'' \<and>
     pr_registers pr = [''rcx'', ''rsp'']"
proof -
  have "map_option (\<lambda>pr. (pr_kind pr, pr_registers pr)) (dget (dc_pending_requests ex_planned) ex_reg_id) =
    Some (''reg'', [''rcx'', ''rsp''])" by code_simp
  then show ?thesis by auto
qed

lemma ex_planned_reachable: "core_step\<^sup>*\<^sup>* core_initial ex_planned"
  unfolding ex_planned_def by (rule r_into_rtranclp) (rule core_plan)

lemma pending_requests_current_witness:
  "\<exists>pr px. dget (dc_pending_requests ex_planned) ex_reg_id = Some pr \<and> dc_current_pc ex_planned = Some px \<and>
     pr_pc_seq pr = px_pc_seq px"
proof -
  obtain pr where pr: "dget (dc_pending_requests ex_planned) ex_reg_id = Some pr" using ex_planned_pending by blast
  from pending_requests_current [OF ex_planned_reachable pr] pr show ?thesis by blast
qed

section \<open>Stale and repeated responses\<close>

text \<open>
  A response for another program counter changes nothing: whatever it contains, when its
  sequence number differs from the current one it is rejected and the state stays as it was.
\<close>

lemma stale_response_ignored:
  assumes "dc_current_pc c = Some px" "\<not> json_eq_int (jget p ''pc_seq'') (px_pc_seq px)"
  shows "(\<exists>reason. apply_reg_response p c = ((False, reason, []), c)) \<and>
    (\<exists>reason. apply_mem_response p c = ((False, reason), c))"
proof -
  have "\<exists>why. take_pending_response p k c = ((None, why), c)" for k
    using core_requests.stale_rejected [of c "px_pc_seq px" p k] assms by simp
  from this [of "''reg''"] this [of "''mem''"] show ?thesis
    by (auto simp: apply_reg_response_def apply_mem_response_def)
qed

lemma reg_consumed:
  assumes "core_ok c" "fst (fst (apply_reg_response p c))"
  shows "\<exists>r. jget p ''request_id'' = JStr r \<and> dget (dc_pending_requests (snd (apply_reg_response p c))) r = None"
proof -
  obtain po reason c1 where t: "take_pending_response p ''reg'' c = ((po, reason), c1)" by (metis surj_pair)
  with assms(2) obtain pr where Some: "po = Some pr" by (auto simp: apply_reg_response_def split: option.splits)
  from take_pending_ok [OF assms(1) t [unfolded Some]] obtain px r where
    px: "core_ok c1" "dc_current_pc c1 = Some px" "pr_pc_seq pr = px_pc_seq px" "pr_runtime_pc pr = px_runtime_pc px"
    and r: "jget p ''request_id'' = JStr r" "dget (dc_pending_requests c1) r = None" "pr_kind pr = ''reg''"
      "request_ok px r pr" by metis
  then have "take 4 r \<noteq> ''mem-''" by (auto simp: request_ok_def)
  then have "dget (dc_pending_requests (snd (build_stack_mem_requests registers pr (c1\<lparr>dc_rows := rows\<rparr>)))) r = None"
    for registers rows
    using build_stack_inv [OF core_ok_rows [OF px(1)], of rows px pr registers] px r(2) by simp
  with t Some r show ?thesis
    by (auto simp: apply_reg_response_def split: option.splits prod.splits) (metis snd_conv)
qed

lemma mem_consumed:
  assumes "core_ok c" "fst (fst (apply_mem_response p c))"
  shows "\<exists>r. jget p ''request_id'' = JStr r \<and> dget (dc_pending_requests (snd (apply_mem_response p c))) r = None"
proof -
  obtain po reason c1 where t: "take_pending_response p ''mem'' c = ((po, reason), c1)" by (metis surj_pair)
  with assms(2) obtain pr where Some: "po = Some pr" by (auto simp: apply_mem_response_def split: option.splits)
  from take_pending_ok [OF assms(1) t [unfolded Some]] t Some show ?thesis
    by (auto simp: apply_mem_response_def)
qed

text \<open>
  C35. Every request is answered at most once: after a register or memory response was accepted,
  the same response is rejected without any effect.
\<close>

theorem response_accepted_once:
  assumes "core_step\<^sup>*\<^sup>* core_initial c"
  shows "(fst (fst (apply_reg_response p c)) \<longrightarrow>
      (\<exists>reason. apply_reg_response p (snd (apply_reg_response p c)) = ((False, reason, []), snd (apply_reg_response p c)))) \<and>
    (fst (fst (apply_mem_response p c)) \<longrightarrow>
      (\<exists>reason. apply_mem_response p (snd (apply_mem_response p c)) = ((False, reason), snd (apply_mem_response p c))))"
proof -
  note ok = core_ok_reachable [OF assms]
  have "\<exists>reason. apply_reg_response p (snd (apply_reg_response p c)) = ((False, reason, []), snd (apply_reg_response p c))"
    if "fst (fst (apply_reg_response p c))"
    using reg_consumed [OF ok that] core_requests.absent_rejected [of p _ "snd (apply_reg_response p c)" "''reg''"]
    by (fastforce simp: apply_reg_response_def [of p "snd _"])
  moreover have "\<exists>reason. apply_mem_response p (snd (apply_mem_response p c)) = ((False, reason), snd (apply_mem_response p c))"
    if "fst (fst (apply_mem_response p c))"
    using mem_consumed [OF ok that] core_requests.absent_rejected [of p _ "snd (apply_mem_response p c)" "''mem''"]
    by (fastforce simp: apply_mem_response_def [of p "snd _"])
  ultimately show ?thesis by blast
qed

definition ex_reg_response :: payload where
  "ex_reg_response = [(''pc_seq'', JInt 3), (''request_id'', JStr ex_reg_id), (''ok'', JBool False)]"

lemma response_accepted_once_witness:
  "\<exists>reason. apply_reg_response ex_reg_response (snd (apply_reg_response ex_reg_response ex_planned)) =
     ((False, reason, []), snd (apply_reg_response ex_reg_response ex_planned))"
proof -
  have "fst (fst (apply_reg_response ex_reg_response ex_planned))" by code_simp
  with response_accepted_once [OF ex_planned_reachable, of ex_reg_response] show ?thesis by blast
qed

text \<open>
  A refused register read is reported for the register arguments only: the rows of stack arguments
  keep waiting for \<^verbatim>\<open>rsp\<close> although no request is outstanding any more.
\<close>

lemma refused_read_leaves_stack_rows:
  "let c = snd (apply_reg_response ex_reg_response ex_planned)
   in dc_pending_requests c = [] \<and>
      map (\<lambda>r. (vr_name r, vr_status r, vr_reason r)) (dc_rows c) =
        [(''a1'', STATUS_ERROR, ''register read failed''),
         (''a5'', STATUS_UNAVAILABLE, ''waiting for rsp to request stack argument'')]"
  by code_simp

section \<open>The planned requests\<close>

abbreviation row_arg :: "VariableRecord \<Rightarrow> nat option" where
  "row_arg row \<equiv> (if vr_is_arg row then vr_arg_index row else None)"

text \<open>The registers the variables need at the entry of a function.\<close>

definition needed_registers :: "VariableRecord list \<Rightarrow> string set" where
  "needed_registers vs =
     {ENTRY_REGISTERS ! i |i v. v \<in> set vs \<and> row_arg v = Some i \<and> i < 4} \<union>
     (if \<exists>v \<in> set vs. \<exists>i. row_arg v = Some i \<and> 4 \<le> i then {''rsp''} else {})"

lemma entry_register_facts: "length ENTRY_REGISTERS = 4" "''rsp'' \<notin> set ENTRY_REGISTERS"
  by (simp_all add: ENTRY_REGISTERS_def)

lemma plan_fold:
  assumes "at_entry"
  shows "let acc = fold (plan_variable prev at_entry rpc) vs a0
    in (distinct (pa_registers a0) \<longrightarrow> distinct (pa_registers acc)) \<and>
       set (pa_registers acc) = set (pa_registers a0) \<union>
         {ENTRY_REGISTERS ! i |i v. v \<in> set vs \<and> row_arg v = Some i \<and> i < 4} \<and>
       (pa_needs_rsp acc \<longleftrightarrow> pa_needs_rsp a0 \<or> (\<exists>v \<in> set vs. \<exists>i. row_arg v = Some i \<and> 4 \<le> i)) \<and>
       length (pa_rows acc) = length (pa_rows a0) + length vs"
proof (induction vs arbitrary: a0)
  case (Cons v vs)
  let ?a1 = "plan_variable prev at_entry rpc v a0"
  have step: "(distinct (pa_registers a0) \<longrightarrow> distinct (pa_registers ?a1)) \<and>
       set (pa_registers ?a1) = set (pa_registers a0) \<union> {ENTRY_REGISTERS ! i |i. row_arg v = Some i \<and> i < 4} \<and>
       (pa_needs_rsp ?a1 \<longleftrightarrow> pa_needs_rsp a0 \<or> (\<exists>i. row_arg v = Some i \<and> 4 \<le> i)) \<and>
       length (pa_rows ?a1) = Suc (length (pa_rows a0))"
    using assms by (auto simp: plan_variable_def Let_def entry_register_facts split: option.splits if_splits)
  have "{ENTRY_REGISTERS ! i |i w. w \<in> set (v # vs) \<and> row_arg w = Some i \<and> i < 4} =
     {ENTRY_REGISTERS ! i |i. row_arg v = Some i \<and> i < 4} \<union>
     {ENTRY_REGISTERS ! i |i w. w \<in> set vs \<and> row_arg w = Some i \<and> i < 4}" by auto
  with Cons.IH [of ?a1] step show ?case unfolding Let_def by (simp add: Un_assoc)
qed simp

lemma plan_fold_off_entry:
  "let acc = fold (plan_variable prev False rpc) vs a0
   in pa_registers acc = pa_registers a0 \<and> pa_needs_rsp acc = pa_needs_rsp a0"
proof (induction vs arbitrary: a0)
  case (Cons v vs)
  have "pa_registers (plan_variable prev False rpc v a0) = pa_registers a0 \<and>
      pa_needs_rsp (plan_variable prev False rpc v a0) = pa_needs_rsp a0"
    by (auto simp: plan_variable_def Let_def split: option.splits)
  with Cons.IH [of "plan_variable prev False rpc v a0"] show ?case by (simp add: Let_def)
qed simp

lemma plan_registers_exact:
  "distinct (plan_registers (plan_variables vs px rows)) \<and>
   set (plan_registers (plan_variables vs px rows)) =
     (if px_at_function_entry px then needed_registers vs else {})"
proof (cases "px_at_function_entry px")
  case True
  let ?acc = "plan_variables vs px rows"
  have acc: "distinct (pa_registers ?acc)"
    "set (pa_registers ?acc) = {ENTRY_REGISTERS ! i |i v. v \<in> set vs \<and> row_arg v = Some i \<and> i < 4}"
    "pa_needs_rsp ?acc \<longleftrightarrow> (\<exists>v \<in> set vs. \<exists>i. row_arg v = Some i \<and> 4 \<le> i)"
    using plan_fold [OF True, of "previous_rows rows" "px_runtime_pc px" vs]
    by (simp_all add: plan_variables_def Let_def)
  have "set (pa_registers ?acc) \<subseteq> set ENTRY_REGISTERS"
    unfolding acc(2) by (auto simp: entry_register_facts intro: nth_mem)
  then have "''rsp'' \<notin> set (pa_registers ?acc)" using entry_register_facts(2) by blast
  with acc True show ?thesis by (auto simp: plan_registers_def needed_registers_def)
next
  case False
  with plan_fold_off_entry [of "previous_rows rows" "px_runtime_pc px" vs] show ?thesis
    by (simp add: plan_variables_def plan_registers_def Let_def)
qed

text \<open>
  C17. The plan asks for exactly the registers the arguments need: at the function entry those of
  the first four arguments and \<^verbatim>\<open>rsp\<close> when an argument lies on the stack, each once; away
  from the entry, or without arguments, it asks for nothing.
\<close>

theorem entry_plan_requests:
  "\<exists>regs. distinct regs \<and>
     set regs = (if px_at_function_entry px then needed_registers vs else {}) \<and>
     (case rp_register_request (fst (build_entry_plan vs px c)) of
        None \<Rightarrow> regs = []
      | Some m \<Rightarrow> regs \<noteq> [] \<and> (\<exists>p. jget m ''payload'' = JObj p \<and> jget p ''registers'' = JList (map JStr regs) \<and>
          jget p ''pc_seq'' = JInt (px_pc_seq px)))"
proof -
  let ?acc = "plan_variables vs px (dc_rows c)"
  have "rp_register_request (fst (build_entry_plan vs px c)) =
      (if plan_registers ?acc = [] then None
       else Some (fst (request_registers px ?acc (c\<lparr>dc_current_pc := Some px, dc_pending_requests := [], dc_rows := pa_rows ?acc\<rparr>))))"
    by (simp add: build_entry_plan_def Let_def start_pc_context_def case_prod_beta)
  then show ?thesis
    using plan_registers_exact [of vs px "dc_rows c"]
    by (intro exI [of _ "plan_registers ?acc"]) (simp add: request_registers_def Let_def jget_simps)
qed

section \<open>Stack arguments\<close>

definition stack_rows :: "VariableRecord list \<Rightarrow> (nat \<times> VariableRecord) list" where
  "stack_rows rows = List.map_filter (\<lambda>row. map_option (\<lambda>i. (i, row)) (stack_index row)) rows"

definition stack_message :: "int \<Rightarrow> PendingRequest \<Rightarrow> int \<Rightarrow> nat \<times> VariableRecord \<Rightarrow> payload" where
  "stack_message rsp pending n ir =
     fst (request_stack_row rsp pending (fst ir) (snd ir)
       \<lparr>dc_next_message_id = n, dc_current_pc = None, dc_pending_requests = [], dc_rows = []\<rparr>)"

lemma request_stack_row_message:
  "fst (request_stack_row rsp pending i row c) = stack_message rsp pending (dc_next_message_id c) (i, row)"
  "dc_next_message_id (snd (request_stack_row rsp pending i row c)) = dc_next_message_id c + 1"
  by (simp_all add: request_stack_row_def stack_message_def Let_def envelope_def take_message_id_def)

lemma stack_requests_messages:
  "fst (snd (stack_requests rsp pending rows (seen, msgs, c))) =
     msgs @ map (\<lambda>(j, ir). stack_message rsp pending (dc_next_message_id c + int j) ir)
       (List.enumerate 0 (stack_rows rows))"
proof (induction rows arbitrary: seen msgs c)
  case (Cons row rows)
  show ?case
  proof (cases "stack_index row")
    case None
    with Cons show ?thesis by (simp add: stack_rows_def List.map_filter_simps)
  next
    case (Some i)
    obtain m c' where r: "request_stack_row rsp pending i row c = (m, c')" by (metis surj_pair)
    then have "m = stack_message rsp pending (dc_next_message_id c) (i, row)"
      "dc_next_message_id c' = dc_next_message_id c + 1"
      using request_stack_row_message [of rsp pending i row c] by simp_all
    with Some r Cons [of "seen @ [waiting_stack_row rsp i row]" "msgs @ [m]" c'] show ?thesis
      by (simp add: stack_rows_def List.map_filter_simps enumerate_Suc_eq [of 0] o_def case_prod_beta add.assoc)
  qed
qed (simp add: stack_rows_def List.map_filter_simps)

text \<open>
  C36. From a read of \<^verbatim>\<open>rsp\<close> the core requests each stack argument once, in row order, with
  consecutive message ids: argument \<open>i\<close> is read at \<open>rsp + 0x28 + 8 (i - 4)\<close> with the size of the
  variable, or eight bytes when that size cannot be read at once.
\<close>

theorem stack_argument_requests:
  assumes "jget registers ''rsp'' = JStr (hex0x v)" "0 \<le> v"
  shows "let msgs = fst (build_stack_mem_requests registers pending c); rows = stack_rows (dc_rows c)
    in length msgs = length rows \<and>
       (\<forall>j < length rows. case rows ! j of (i, row) \<Rightarrow> \<exists>p. jget (msgs ! j) ''payload'' = JObj p \<and>
          jget (msgs ! j) ''id'' = JInt (dc_next_message_id c + int j) \<and>
          jget p ''address'' = JStr (hex0x (v + 40 + 8 * (int i - 4))) \<and>
          jget p ''variable'' = JStr (vr_name row) \<and>
          jget p ''size'' = JInt (if vr_size row \<in> set [1, 2, 4, 8] then vr_size row else 8))"
proof -
  have "hex0x v \<noteq> []" by (simp add: hex0x_def)
  then have msgs: "fst (build_stack_mem_requests registers pending c) =
      map (\<lambda>(j, ir). stack_message v pending (dc_next_message_id c + int j) ir) (List.enumerate 0 (stack_rows (dc_rows c)))"
    using assms stack_requests_messages [of v pending "dc_rows c" "[]" "[]" c]
    by (simp add: build_stack_mem_requests_def parse_hex0x case_prod_beta)
  have one: "\<exists>p. jget (stack_message v pending n (i, row)) ''payload'' = JObj p \<and>
      jget (stack_message v pending n (i, row)) ''id'' = JInt n \<and>
      jget p ''address'' = JStr (hex0x (v + 40 + 8 * (int i - 4))) \<and> jget p ''variable'' = JStr (vr_name row) \<and>
      jget p ''size'' = JInt (if vr_size row \<in> set [1, 2, 4, 8] then vr_size row else 8)" for n i row
    by (simp add: stack_message_def request_stack_row_def Let_def stack_arg_offset_def runtime_read_size_def
        jget_simps add.assoc)
  let ?rows = "stack_rows (dc_rows c)" and ?msgs = "fst (build_stack_mem_requests registers pending c)"
  have "length ?msgs = length ?rows" unfolding msgs by simp
  moreover have "?msgs ! j = stack_message v pending (dc_next_message_id c + int j) (?rows ! j)"
    if "j < length ?rows" for j
    using that unfolding msgs by (simp add: nth_enumerate_eq)
  then have "case ?rows ! j of (i, row) \<Rightarrow> \<exists>p. jget (?msgs ! j) ''payload'' = JObj p \<and>
          jget (?msgs ! j) ''id'' = JInt (dc_next_message_id c + int j) \<and>
          jget p ''address'' = JStr (hex0x (v + 40 + 8 * (int i - 4))) \<and>
          jget p ''variable'' = JStr (vr_name row) \<and>
          jget p ''size'' = JInt (if vr_size row \<in> set [1, 2, 4, 8] then vr_size row else 8)"
    if "j < length ?rows" for j
    using that one [of "dc_next_message_id c + int j" "fst (?rows ! j)" "snd (?rows ! j)"]
    by (simp only: case_prod_beta prod.collapse)
  ultimately show ?thesis unfolding Let_def by blast
qed

lemma stack_argument_requests_witness:
  "length (fst (build_stack_mem_requests [(''rsp'', JStr (hex0x 0x8000))]
     \<lparr>pr_kind = ''reg'', pr_pc_seq = 3, pr_request_id = ex_reg_id, pr_runtime_pc = [], pr_variable_names = [],
      pr_registers = [], pr_address = [], pr_size = 0\<rparr>
     (core_initial\<lparr>dc_rows := [ex_row ''a5'' 4]\<rparr>))) = 1"
  using stack_argument_requests [of "[(''rsp'', JStr (hex0x 0x8000))]" "0x8000"
      "\<lparr>pr_kind = ''reg'', pr_pc_seq = 3, pr_request_id = ex_reg_id, pr_runtime_pc = [], pr_variable_names = [],
      pr_registers = [], pr_address = [], pr_size = 0\<rparr>" "core_initial\<lparr>dc_rows := [ex_row ''a5'' 4]\<rparr>"]
  by (simp add: jget_def Let_def stack_rows_def List.map_filter_simps stack_index_def ex_row_def
      VariableRecord_new_def ENTRY_REGISTERS_def)

end
