(* ===== verification/V_Recovery_Proofs.thy ===== *)
theory V_Recovery_Proofs
  imports V_Recovery Correlation
begin

text \<open>
  Correctness of the runtime side of the recovery: pending requests, records and history stay
  consistent under every interleaving of its operations, late responses have no effect, and a
  value is shown as fresh only when it was read, or proved constant, at the current program
  counter.
\<close>

section \<open>Pruning the history\<close>

lemma dkeys_fold_ddel: "dkeys (fold (\<lambda>k. ddel k) ks d) = filter (\<lambda>k. k \<notin> set ks) (dkeys d)"
proof (induction ks arbitrary: d)
  case (Cons k ks)
  have "dkeys (ddel k d) = filter (\<lambda>k'. k' \<noteq> k) (dkeys d)"
    by (induction d) auto
  with Cons [of "ddel k d"] show ?case by (auto intro!: filter_cong)
qed simp

lemma dget_fold_ddel: "dget (fold (\<lambda>k. ddel k) ks d) k = (if k \<in> set ks then None else dget d k)"
  by (induction ks arbitrary: d) auto

lemma length_filter_notin:
  "distinct xs \<Longrightarrow> distinct ks \<Longrightarrow> set ks \<subseteq> set xs \<Longrightarrow>
   length (filter (\<lambda>x. x \<notin> set ks) xs) = length xs - length ks"
proof -
  assume d: "distinct xs" "distinct ks" "set ks \<subseteq> set xs"
  then have "length (filter (\<lambda>x. x \<notin> set ks) xs) = card (set xs - set ks)"
    by (subst distinct_card [symmetric]) (auto intro: arg_cong [where f = card])
  with d show ?thesis by (simp add: card_Diff_subset distinct_card)
qed

definition history_order :: "VVariableRecovery \<Rightarrow> (int \<times> int) list" where
  "history_order s = sort_key (\<lambda>key. hv_pc_seq (the (dget (vs_history s) key))) (dkeys (vs_history s))"

definition evicted :: "VVariableRecovery \<Rightarrow> (int \<times> int) list" where
  "evicted s = take (nat (int (length (vs_history s)) - vs_max_history s)) (history_order s)"

lemma prune_history_eq:
  "prune_history s = s\<lparr>vs_history := fold (\<lambda>k. ddel k) (evicted s) (vs_history s)\<rparr>"
  by (simp add: prune_history_def evicted_def history_order_def Let_def)

lemma history_order_perm:
  "set (history_order s) = fst ` set (vs_history s)" "length (history_order s) = length (vs_history s)"
  "distinct (history_order s) \<longleftrightarrow> dwf (vs_history s)"
  by (simp_all add: history_order_def)

lemma prune_fields [simp]:
  "vs_max_history (prune_history s) = vs_max_history s" "vs_records (prune_history s) = vs_records s"
  "vs_evidence (prune_history s) = vs_evidence s" "vs_pending (prune_history s) = vs_pending s"
  "vs_pc_seq (prune_history s) = vs_pc_seq s" "vs_runtime_pc (prune_history s) = vs_runtime_pc s"
  by (simp_all add: prune_history_eq)

lemma prune_wf:
  assumes "dwf (vs_history s)" "0 \<le> vs_max_history s"
  shows "dwf (vs_history (prune_history s))"
    and "int (length (vs_history (prune_history s))) \<le> vs_max_history s"
proof -
  let ?ks = "evicted s" and ?h = "vs_history s"
  show "dwf (vs_history (prune_history s))" using assms(1) by (simp add: prune_history_eq dkeys_fold_ddel)
  have ks: "distinct ?ks" "set ?ks \<subseteq> set (dkeys ?h)"
    using assms(1) history_order_perm [of s] by (auto simp: evicted_def distinct_take dest!: in_set_takeD)
  have "length (vs_history (prune_history s)) = length (dkeys (fold (\<lambda>k. ddel k) ?ks ?h))"
    by (simp add: prune_history_eq)
  also have "\<dots> = length ?h - length ?ks"
    unfolding dkeys_fold_ddel using length_filter_notin [OF assms(1) ks] by simp
  finally show "int (length (vs_history (prune_history s))) \<le> vs_max_history s"
    using assms(2) history_order_perm(2) [of s] by (simp add: evicted_def)
qed

section \<open>The invariant\<close>

text \<open>What a record may show: a fresh value was obtained at the program counter of the record.\<close>

definition honest :: "VVariableRecoveryRecord \<Rightarrow> bool" where
  "honest r \<longleftrightarrow>
     vv_recovery_status r = STATUS_FRESH \<and> vv_last_successful_value r = vv_value r \<and>
       vv_last_successful_pc_seq r = Some (vv_current_pc_seq r) \<and> vv_last_update_pc r = vv_current_runtime_pc r \<or>
     vv_recovery_status r = STATUS_STALE \<and> vv_last_successful_value r = vv_value r \<and> vv_value r \<noteq> [] \<and>
       vv_confidence r = CONFIDENCE_STALE_RUNTIME_VALUE \<or>
     vv_recovery_status r \<in> {STATUS_UNAVAILABLE, STATUS_ERROR} \<and> vv_value r = []"

definition record_ok :: "int option \<Rightarrow> string \<Rightarrow> int \<Rightarrow> VVariableRecoveryRecord \<Rightarrow> bool" where
  "record_ok seq runtime_pc i r \<longleftrightarrow>
     vv_lvar_index r = i \<and> seq = Some (vv_current_pc_seq r) \<and> vv_current_runtime_pc r = runtime_pc \<and> honest r"

definition v_request_ok :: "int option \<Rightarrow> string \<Rightarrow> string \<Rightarrow> PendingVRequest \<Rightarrow> bool" where
  "v_request_ok seq runtime_pc k pr \<longleftrightarrow>
     vp_request_id pr = k \<and> seq = Some (vp_pc_seq pr) \<and> vp_runtime_pc pr = runtime_pc \<and>
     (vp_kind pr = ''reg'' \<and> take 6 k = ''v-reg-'' \<or> vp_kind pr = ''mem'' \<and> take 6 k = ''v-mem-'')"

definition history_ok :: "VVariableRecovery \<Rightarrow> bool" where
  "history_ok s \<longleftrightarrow>
     1 \<le> vs_max_history s \<and> dwf (vs_history s) \<and> int (length (vs_history s)) \<le> vs_max_history s"

definition v_ok :: "VVariableRecovery \<Rightarrow> bool" where
  "v_ok s \<longleftrightarrow> history_ok s \<and>
     (\<forall>k pr. dget (vs_pending s) k = Some pr \<longrightarrow> v_request_ok (vs_pc_seq s) (vs_runtime_pc s) k pr) \<and>
     (\<forall>i r. dget (vs_records s) i = Some r \<longrightarrow> record_ok (vs_pc_seq s) (vs_runtime_pc s) i r)"

lemma v_okI [inv_intros]:
  "history_ok s \<Longrightarrow>
   (\<And>k pr. dget (vs_pending s) k = Some pr \<Longrightarrow> v_request_ok (vs_pc_seq s) (vs_runtime_pc s) k pr) \<Longrightarrow>
   (\<And>i r. dget (vs_records s) i = Some r \<Longrightarrow> record_ok (vs_pc_seq s) (vs_runtime_pc s) i r) \<Longrightarrow> v_ok s"
  by (simp add: v_ok_def)

lemma v_okD:
  assumes "v_ok s"
  shows "history_ok s"
    and "dget (vs_pending s) k = Some pr \<Longrightarrow> v_request_ok (vs_pc_seq s) (vs_runtime_pc s) k pr"
    and "dget (vs_records s) i = Some r \<Longrightarrow> record_ok (vs_pc_seq s) (vs_runtime_pc s) i r"
  using assms by (auto simp: v_ok_def)

lemma v_ok_put_record:
  "v_ok s \<Longrightarrow> record_ok (vs_pc_seq s) (vs_runtime_pc s) i r \<Longrightarrow> v_ok (put_record i r s)"
  by (auto simp: v_ok_def put_record_def history_ok_def)

lemma v_ok_put_pending:
  "v_ok s \<Longrightarrow> v_request_ok (vs_pc_seq s) (vs_runtime_pc s) k pr \<Longrightarrow>
   v_ok (s\<lparr>vs_pending := dset k pr (vs_pending s)\<rparr>)"
  by (auto simp: v_ok_def history_ok_def)

lemma v_ok_del_pending: "v_ok s \<Longrightarrow> v_ok (s\<lparr>vs_pending := ddel k (vs_pending s)\<rparr>)"
  by (auto simp: v_ok_def history_ok_def split: if_splits)

lemma v_ok_context:
  "history_ok s \<Longrightarrow> v_ok ((v_start_context f e rpc q s)\<lparr>vs_source_variables := vs, vs_evidence := ev\<rparr>)"
  by (simp add: v_ok_def v_start_context_def history_ok_def)

lemma v_ok_invalidate: "v_ok s \<Longrightarrow> v_ok (invalidate_pc q rpc s)"
  by (simp add: v_ok_def invalidate_pc_def v_start_context_def history_ok_def)

lemma v_ok_clear: "v_ok s \<Longrightarrow> v_ok (clear_runtime_state s)"
  by (simp add: v_ok_def clear_runtime_state_def history_ok_def)

section \<open>Operations on records\<close>

text \<open>The updates of a record that keep its identity.\<close>

definition same_identity :: "VVariableRecoveryRecord \<Rightarrow> VVariableRecoveryRecord \<Rightarrow> bool" where
  "same_identity r r' \<longleftrightarrow>
     vv_lvar_index r' = vv_lvar_index r \<and> vv_current_pc_seq r' = vv_current_pc_seq r \<and>
     vv_current_runtime_pc r' = vv_current_runtime_pc r \<and> vv_width r' = vv_width r \<and> vv_name r' = vv_name r \<and>
     vv_function_ea r' = vv_function_ea r"

lemma set_honest:
  "honest (set_stale_or_unavailable (b \<and> vv_last_successful_value r \<noteq> []) reason r)"
  "honest (v_set_error reason r)" "honest (fresh_record value confidence r)"
  by (auto simp: honest_def set_stale_or_unavailable_def v_set_error_def fresh_record_def)

lemma set_identity:
  "same_identity r (set_stale_or_unavailable b reason r)" "same_identity r (v_set_error reason r)"
  "same_identity r (fresh_record value confidence r)"
  by (auto simp: same_identity_def set_stale_or_unavailable_def v_set_error_def fresh_record_def)

lemma record_ok_identity:
  "record_ok seq rpc i r \<Longrightarrow> same_identity r r' \<Longrightarrow> honest r' \<Longrightarrow> record_ok seq rpc i r'"
  by (simp add: record_ok_def same_identity_def)

lemma mark_fresh_record: "fst (mark_fresh r value confidence s) = fresh_record value confidence r"
  by (simp add: mark_fresh_def Let_def)

lemma mark_fresh_fields [simp]:
  "vs_max_history (snd (mark_fresh r v c s)) = vs_max_history s"
  "vs_records (snd (mark_fresh r v c s)) = vs_records s"
  "vs_evidence (snd (mark_fresh r v c s)) = vs_evidence s"
  "vs_pending (snd (mark_fresh r v c s)) = vs_pending s" "vs_pc_seq (snd (mark_fresh r v c s)) = vs_pc_seq s"
  "vs_runtime_pc (snd (mark_fresh r v c s)) = vs_runtime_pc s"
  by (simp_all add: mark_fresh_def Let_def)

lemma history_ok_mark_fresh: "history_ok s \<Longrightarrow> history_ok (snd (mark_fresh r v c s))"
  unfolding history_ok_def mark_fresh_def Let_def snd_conv
  by (intro conjI prune_wf(1) order.trans [OF prune_wf(2)]) (auto simp: distinct_update)

lemma v_ok_mark_fresh: "v_ok s \<Longrightarrow> v_ok (snd (mark_fresh r v c s))"
  by (auto simp: v_ok_def history_ok_mark_fresh)

section \<open>A new program counter keeps the invariant\<close>

lemma new_record_identity:
  "vv_lvar_index (new_record v e q rpc ea s) = vr_lvar_index v"
  "vv_current_pc_seq (new_record v e q rpc ea s) = q"
  "vv_current_runtime_pc (new_record v e q rpc ea s) = rpc" "vv_width (new_record v e q rpc ea s) = vr_size v"
  "vv_candidate_storage_kind (new_record v e q rpc ea s) = re_storage_kind e"
  by (simp_all add: new_record_def Let_def)

lemma decide_record_ok:
  fixes d confidence r s
  defines "res \<equiv> decide_record d confidence r s"
  shows "same_identity r (fst res)" "honest (fst res)" "v_ok s \<Longrightarrow> v_ok (snd res)"
    "vs_records (snd res) = vs_records s" "vs_pc_seq (snd res) = vs_pc_seq s"
    "vs_runtime_pc (snd res) = vs_runtime_pc s" "vs_evidence (snd res) = vs_evidence s"
    "vs_pending (snd res) = vs_pending s"
  by (cases d; simp add: res_def decide_record_def set_waiting_def set_unavailable_def set_honest
      set_honest(1) [where b = True, simplified] set_identity mark_fresh_record v_ok_mark_fresh)+

lemma begin_variable_ok:
  assumes "v_ok (ba_state acc)" "vs_pc_seq (ba_state acc) = Some q" "vs_runtime_pc (ba_state acc) = rpc"
  shows "v_ok (ba_state (begin_variable ok sel ea rpc q v acc)) \<and>
    vs_pc_seq (ba_state (begin_variable ok sel ea rpc q v acc)) = Some q \<and>
    vs_runtime_pc (ba_state (begin_variable ok sel ea rpc q v acc)) = rpc"
proof -
  let ?e = "variable_evidence ok sel (vs_evidence (ba_state acc)) v"
  let ?r = "new_record v ?e q rpc ea (ba_state acc)"
  let ?d = "decide_record (decide ok v ?e) (re_confidence ?e) ?r (ba_state acc)"
  note d = decide_record_ok [where d = "decide ok v ?e" and confidence = "re_confidence ?e" and r = ?r
      and s = "ba_state acc"]
  have "record_ok (Some q) rpc (vr_lvar_index v) (fst ?d)"
    using d(1,2) by (simp add: record_ok_def same_identity_def new_record_identity)
  then have "v_ok (put_record (vr_lvar_index v) (fst ?d) (snd ?d))"
    using d assms by (intro v_ok_put_record) simp_all
  then show ?thesis
    using d assms by (simp add: begin_variable_def Let_def case_prod_beta put_record_def)
qed

lemma begin_fold_ok:
  assumes "v_ok (ba_state acc)" "vs_pc_seq (ba_state acc) = Some q" "vs_runtime_pc (ba_state acc) = rpc"
  shows "v_ok (ba_state (fold (begin_variable ok sel ea rpc q) vs acc)) \<and>
    vs_pc_seq (ba_state (fold (begin_variable ok sel ea rpc q) vs acc)) = Some q \<and>
    vs_runtime_pc (ba_state (fold (begin_variable ok sel ea rpc q) vs acc)) = rpc"
  using assms
proof (induction vs arbitrary: acc)
  case (Cons v vs)
  with begin_variable_ok [OF Cons.prems, of ok sel ea v] show ?case by simp
qed simp

lemma begin_loop_ok:
  fixes provider vs f ea rpc q cf sel s
  defines "acc \<equiv> begin_loop provider vs f ea rpc q cf sel s"
  assumes "v_ok s"
  shows "v_ok (ba_state acc)" "vs_pc_seq (ba_state acc) = Some q" "vs_runtime_pc (ba_state acc) = rpc"
proof -
  have "v_ok (ba_state acc) \<and> vs_pc_seq (ba_state acc) = Some q \<and> vs_runtime_pc (ba_state acc) = rpc"
    unfolding acc_def begin_loop_def Let_def
    by (rule begin_fold_ok) (simp_all add: v_ok_context v_okD(1) [OF assms(2)], simp_all add: v_start_context_def)
  then show "v_ok (ba_state acc)" "vs_pc_seq (ba_state acc) = Some q" "vs_runtime_pc (ba_state acc) = rpc" by auto
qed

lemma v_ok_begin:
  assumes "v_ok s"
  shows "v_ok (fst (snd (begin_pc provider env vs f ea rpc q cf sel s x)))"
proof -
  let ?acc = "begin_loop provider vs f ea rpc q cf sel s"
  note acc = begin_loop_ok [OF assms, of provider vs f ea rpc q cf sel]
  have "v_ok (fst (snd (request_v_registers env q rpc idx regs (ba_state ?acc) x)))" for idx regs
    using acc by (auto simp: request_v_registers_def Let_def case_prod_beta v_request_ok_def v_reg_id_def
        intro!: v_ok_put_pending)
  with acc(1) show ?thesis by (auto simp: begin_pc_def Let_def case_prod_beta)
qed

section \<open>Responses keep the invariant\<close>

lemma v_take_pending_cases:
  assumes "v_take_pending p kind s = ((po, reason), s')"
  shows "po = None \<and> s' = s \<or>
    (\<exists>seq pr k. po = Some pr \<and> vs_pc_seq s = Some seq \<and> json_eq_int (jget p ''pc_seq'') seq \<and>
       jget p ''request_id'' = JStr k \<and> dget (vs_pending s) k = Some pr \<and> vp_kind pr = kind \<and>
       s' = s\<lparr>vs_pending := ddel k (vs_pending s)\<rparr>)"
proof -
  have "json_str j = Some k \<longleftrightarrow> j = JStr k" for j k by (cases j) auto
  then show ?thesis using assms by (auto simp: v_take_pending_def split: option.splits if_splits)
qed

interpretation v_requests: request_table vs_pc_seq "\<lambda>s. dget (vs_pending s)" vp_kind v_take_pending
proof
  fix p k s pr why s'
  show "s' = s" if "v_take_pending p k s = ((None, why), s')"
    using v_take_pending_cases [OF that] by auto
  show "vs_pc_seq s' = vs_pc_seq s \<and> (\<exists>seq i. vs_pc_seq s = Some seq \<and> json_eq_int (jget p ''pc_seq'') seq \<and>
      jget p ''request_id'' = JStr i \<and> dget (vs_pending s) i = Some pr \<and> vp_kind pr = k \<and>
      dget (vs_pending s') = (dget (vs_pending s))(i := None))"
    if "v_take_pending p k s = ((Some pr, why), s')"
    using v_take_pending_cases [OF that] by (auto simp: fun_eq_iff)
qed

text \<open>What a taken request is, and that the state it leaves satisfies the invariant.\<close>

lemma v_take_ok:
  assumes "v_ok s" "v_take_pending p kind s = ((Some pr, why), s')"
  obtains k where "v_ok s'" "vs_pc_seq s' = Some (vp_pc_seq pr)" "vs_runtime_pc s' = vp_runtime_pc pr"
    "vp_kind pr = kind" "jget p ''request_id'' = JStr k" "vp_request_id pr = k" "dget (vs_pending s) k = Some pr"
    "s' = s\<lparr>vs_pending := ddel k (vs_pending s)\<rparr>" "v_request_ok (vs_pc_seq s') (vs_runtime_pc s') k pr"
proof -
  from v_take_pending_cases [OF assms(2)] obtain k where k: "jget p ''request_id'' = JStr k"
    "dget (vs_pending s) k = Some pr" "vp_kind pr = kind" "s' = s\<lparr>vs_pending := ddel k (vs_pending s)\<rparr>" by auto
  with v_okD(2) [OF assms(1) k(2)] that [of k] v_ok_del_pending [OF assms(1), of k] show thesis
    by (auto simp: v_request_ok_def)
qed

text \<open>What a loop over lvars leaves alone: the context, the evidence, and the requests in \<open>A\<close>.\<close>

definition kept :: "string set \<Rightarrow> VVariableRecovery \<Rightarrow> VVariableRecovery \<Rightarrow> bool" where
  "kept A s s' \<longleftrightarrow> vs_pc_seq s' = vs_pc_seq s \<and> vs_runtime_pc s' = vs_runtime_pc s \<and>
     vs_evidence s' = vs_evidence s \<and> vs_max_history s' = vs_max_history s \<and>
     (\<forall>k \<in> A. dget (vs_pending s') k = dget (vs_pending s) k)"

lemma kept_refl [simp]: "kept A s s"
  by (simp add: kept_def)

lemma kept_trans: "kept A a b \<Longrightarrow> kept A b c \<Longrightarrow> kept A a c"
  by (simp add: kept_def)

lemma kept_put [simp]: "kept A s (put_record i r s') \<longleftrightarrow> kept A s s'"
  by (simp add: kept_def put_record_def)

lemma kept_mark [simp]: "kept A s (snd (mark_fresh r v c s))"
  by (simp add: kept_def)

lemma kept_mono: "kept B s s' \<Longrightarrow> A \<subseteq> B \<Longrightarrow> kept A s s'"
  by (auto simp: kept_def)

lemma v_ok_update_record:
  "v_ok s \<Longrightarrow> dget (vs_records s) i = Some r \<Longrightarrow> same_identity r r' \<Longrightarrow> honest r' \<Longrightarrow> v_ok (put_record i r' s)"
  by (rule v_ok_put_record) (auto intro: record_ok_identity dest: v_okD(3))

lemma v_ok_fresh_record:
  "v_ok s \<Longrightarrow> dget (vs_records s) i = Some r \<Longrightarrow> same_identity r r' \<Longrightarrow> honest r' \<Longrightarrow>
   v_ok (put_record i r' (snd (mark_fresh r0 v c s)))"
  by (rule v_ok_update_record) (auto intro: v_ok_mark_fresh)

lemma mark_read_error_ok:
  assumes "v_ok s"
  shows "v_ok (fst (mark_read_error idx reason s)) \<and> kept UNIV s (fst (mark_read_error idx reason s))"
proof -
  have "v_ok (fst (mark_index_error reason i st)) \<and> kept UNIV (fst st) (fst (mark_index_error reason i st))"
    if "v_ok (fst st)" for i st
    using that by (auto simp: mark_index_error_def set_identity set_honest intro: v_ok_update_record
        split: option.split)
  from fold_keeps [where P = "\<lambda>st. v_ok (fst st)" and R = "\<lambda>st st'. kept UNIV (fst st) (fst st')", OF this]
  show ?thesis using assms kept_trans by (fastforce simp: mark_read_error_def)
qed

text \<open>The effect of one lvar of a register response.\<close>

abbreviation not_mem :: "string set" where
  "not_mem \<equiv> {k. take 6 k \<noteq> ''v-mem-''}"

lemma apply_register_value_ok:
  assumes "v_ok (ga_state acc)" "dget (vs_records (ga_state acc)) i = Some r"
  shows "v_ok (ga_state (apply_register_value regs spec i r acc)) \<and>
    kept UNIV (ga_state acc) (ga_state (apply_register_value regs spec i r acc))"
  using assms
  by (cases "extract_register_value (jget regs (rs_full_register spec)) spec (vv_width r)")
    (auto simp: apply_register_value_def case_prod_beta set_identity set_honest mark_fresh_record
      intro: v_ok_update_record v_ok_fresh_record)

lemma request_v_memory_ok:
  assumes "v_ok (ga_state acc)" "dget (vs_records (ga_state acc)) i = Some r"
    "vs_pc_seq (ga_state acc) = Some (vp_pc_seq pending)" "vs_runtime_pc (ga_state acc) = vp_runtime_pc pending"
  shows "v_ok (ga_state (request_v_memory env pending i r address acc)) \<and>
    kept not_mem (ga_state acc) (ga_state (request_v_memory env pending i r address acc))"
proof -
  let ?r = "r\<lparr>vv_storage := ''stack:'' @ address, vv_reason := ''waiting for exact stack memory read''\<rparr>"
  have "record_ok (vs_pc_seq (ga_state acc)) (vs_runtime_pc (ga_state acc)) i ?r"
    using v_okD(3) [OF assms(1,2)] by (auto simp: record_ok_def honest_def)
  then show ?thesis
    using assms
    by (auto simp: request_v_memory_def Let_def case_prod_beta v_request_ok_def v_mem_id_def
        intro!: v_ok_put_record v_ok_put_pending) (auto simp: kept_def)
qed

lemma apply_stack_pointer_ok:
  assumes "v_ok (ga_state acc)" "dget (vs_records (ga_state acc)) i = Some r"
    "vs_pc_seq (ga_state acc) = Some (vp_pc_seq pending)" "vs_runtime_pc (ga_state acc) = vp_runtime_pc pending"
  shows "v_ok (ga_state (apply_stack_pointer env regs pending off i r acc)) \<and>
    kept not_mem (ga_state acc) (ga_state (apply_stack_pointer env regs pending off i r acc))"
  using request_v_memory_ok [OF assms, of env] assms(1,2)
  by (cases "concrete_stack_address (jget regs ''rsp'') off")
    (auto simp: apply_stack_pointer_def Let_def set_identity set_honest intro: v_ok_update_record)

lemma apply_reg_index_ok:
  assumes "v_ok (ga_state acc)" "vs_pc_seq (ga_state acc) = Some (vp_pc_seq pending)"
    "vs_runtime_pc (ga_state acc) = vp_runtime_pc pending"
  shows "v_ok (ga_state (apply_reg_index env regs pending i acc)) \<and>
    kept not_mem (ga_state acc) (ga_state (apply_reg_index env regs pending i acc))"
proof (cases "dget (vs_records (ga_state acc)) i")
  case (Some r)
  show ?thesis
    using apply_stack_pointer_ok [OF assms(1) Some assms(2,3), of env regs]
      apply_register_value_ok [OF assms(1) Some, of regs] assms(1)
    by (auto simp: apply_reg_index_def Some intro: kept_mono [of UNIV] split: option.splits bool.splits)
qed (use assms in \<open>simp add: apply_reg_index_def\<close>)

lemma apply_reg_fold_ok:
  assumes "v_ok (ga_state acc)" "vs_pc_seq (ga_state acc) = Some (vp_pc_seq pending)"
    "vs_runtime_pc (ga_state acc) = vp_runtime_pc pending"
  shows "v_ok (ga_state (fold (apply_reg_index env regs pending) idx acc)) \<and>
    kept not_mem (ga_state acc) (ga_state (fold (apply_reg_index env regs pending) idx acc))"
proof -
  let ?P = "\<lambda>acc. v_ok (ga_state acc) \<and> vs_pc_seq (ga_state acc) = Some (vp_pc_seq pending) \<and>
    vs_runtime_pc (ga_state acc) = vp_runtime_pc pending"
  have "?P (fold (apply_reg_index env regs pending) idx acc) \<and>
      kept not_mem (ga_state acc) (ga_state (fold (apply_reg_index env regs pending) idx acc))"
  proof (rule fold_keeps [where R = "\<lambda>a b. kept not_mem (ga_state a) (ga_state b)"])
    show "?P (apply_reg_index env regs pending i a) \<and> kept not_mem (ga_state a) (ga_state (apply_reg_index env regs pending i a))"
      if "?P a" for i a
      using apply_reg_index_ok [of a pending env regs i] that by (auto simp: kept_def)
  qed (use assms in \<open>auto intro: kept_trans\<close>)
  then show ?thesis by blast
qed

lemma apply_mem_fold_ok:
  assumes "v_ok s"
  shows "v_ok (fst (fold (apply_mem_index p pending) idx (s, []))) \<and>
    kept UNIV s (fst (fold (apply_mem_index p pending) idx (s, [])))"
proof -
  have one: "v_ok (fst (apply_mem_index p pending i st)) \<and> kept UNIV (fst st) (fst (apply_mem_index p pending i st))"
    if st: "v_ok (fst st)" for i st
  proof (cases "dget (vs_records (fst st)) i")
    case (Some r)
    have "honest ((fresh_record v c r)\<lparr>vv_storage := x, vv_reason := y\<rparr>)"
      "same_identity r ((fresh_record v c r)\<lparr>vv_storage := x, vv_reason := y\<rparr>)" for v c x y
      by (simp_all add: honest_def same_identity_def fresh_record_def)
    with Some st show ?thesis
      by (auto simp: apply_mem_index_def apply_mem_record_def Let_def case_prod_beta set_identity set_honest
          mark_fresh_record intro: v_ok_update_record v_ok_fresh_record split: sum.split)
  qed (simp add: apply_mem_index_def st)
  from fold_keeps [where P = "\<lambda>st. v_ok (fst st)" and R = "\<lambda>st st'. kept UNIV (fst st) (fst st')", OF one]
  show ?thesis using assms kept_trans by fastforce
qed

text \<open>The state after a response, by what became of the request it names.\<close>

lemma v_apply_reg_cases:
  assumes "v_ok s"
  shows "(\<exists>why. v_apply_reg_response env p s x = ((False, why, [], []), s, x)) \<or>
    (\<exists>k. fst (fst (v_apply_reg_response env p s x)) \<and> jget p ''request_id'' = JStr k \<and>
      v_ok (fst (snd (v_apply_reg_response env p s x))) \<and>
      kept not_mem (s\<lparr>vs_pending := ddel k (vs_pending s)\<rparr>) (fst (snd (v_apply_reg_response env p s x))) \<and>
      take 6 k \<noteq> ''v-mem-'')"
proof -
  obtain po why s1 where t: "v_take_pending p ''reg'' s = ((po, why), s1)" by (metis surj_pair)
  show ?thesis
  proof (cases po)
    case None
    with t v_take_pending_cases [OF t] show ?thesis by (simp add: v_apply_reg_response_def)
  next
    case (Some pr)
    from v_take_ok [OF assms t [unfolded Some]] obtain k where k: "v_ok s1" "vs_pc_seq s1 = Some (vp_pc_seq pr)"
      "vs_runtime_pc s1 = vp_runtime_pc pr" "jget p ''request_id'' = JStr k"
      "s1 = s\<lparr>vs_pending := ddel k (vs_pending s)\<rparr>" "vp_kind pr = ''reg''"
      "v_request_ok (vs_pc_seq s1) (vs_runtime_pc s1) k pr" by metis
    have "take 6 k \<noteq> ''v-mem-''" using k(6,7) by (auto simp: v_request_ok_def)
    moreover have "v_ok (fst (snd (v_apply_reg_response env p s x))) \<and>
        kept not_mem s1 (fst (snd (v_apply_reg_response env p s x)))"
      using t Some k(1-3) mark_read_error_ok [OF k(1)]
        apply_reg_fold_ok [of "\<lparr>ga_state = s1, ga_env = x, ga_requests = [], ga_summaries = [], ga_debug = []\<rparr>" pr]
      by (auto simp: v_apply_reg_response_def Let_def case_prod_beta intro: kept_mono split: option.split)
    moreover have "fst (fst (v_apply_reg_response env p s x))"
      using t Some by (simp add: v_apply_reg_response_def Let_def case_prod_beta split: option.split)
    ultimately show ?thesis using k(4,5) by blast
  qed
qed

lemma v_apply_mem_cases:
  assumes "v_ok s"
  shows "\<not> fst (fst (v_apply_mem_response p s)) \<and> v_ok (snd (v_apply_mem_response p s)) \<and>
      kept UNIV s (snd (v_apply_mem_response p s)) \<and> vs_records (snd (v_apply_mem_response p s)) = vs_records s \<or>
    (\<exists>k. fst (fst (v_apply_mem_response p s)) \<and> jget p ''request_id'' = JStr k \<and>
      v_ok (snd (v_apply_mem_response p s)) \<and>
      kept UNIV (s\<lparr>vs_pending := ddel k (vs_pending s)\<rparr>) (snd (v_apply_mem_response p s)))"
proof -
  obtain po why s1 where t: "v_take_pending p ''mem'' s = ((po, why), s1)" by (metis surj_pair)
  show ?thesis
  proof (cases po)
    case None
    with t v_take_pending_cases [OF t] assms show ?thesis by (simp add: v_apply_mem_response_def)
  next
    case (Some pr)
    from v_take_ok [OF assms t [unfolded Some]] obtain k where k: "v_ok s1" "jget p ''request_id'' = JStr k"
      "vp_request_id pr = k" "dget (vs_pending s) k = Some pr" "s1 = s\<lparr>vs_pending := ddel k (vs_pending s)\<rparr>"
      "v_request_ok (vs_pc_seq s1) (vs_runtime_pc s1) k pr" by metis
    have "v_ok (s1\<lparr>vs_pending := dset k pr (vs_pending s1)\<rparr>)" using k(1,6) by (rule v_ok_put_pending)
    moreover have "kept UNIV s (s1\<lparr>vs_pending := dset k pr (vs_pending s1)\<rparr>)" using k(4,5) by (simp add: kept_def)
    ultimately show ?thesis
      using t Some k apply_mem_fold_ok [OF k(1), of p pr "vp_lvar_indexes pr"]
      by (auto simp: v_apply_mem_response_def Let_def case_prod_beta)
  qed
qed

lemma v_ok_reg: "v_ok s \<Longrightarrow> v_ok (fst (snd (v_apply_reg_response env p s x)))"
  using v_apply_reg_cases [of s env p x] by auto

lemma v_ok_mem: "v_ok s \<Longrightarrow> v_ok (snd (v_apply_mem_response p s))"
  using v_apply_mem_cases [of s p] by auto

lemmas v_ok_intros = v_ok_begin v_ok_invalidate v_ok_clear v_ok_reg v_ok_mem

section \<open>Reachable states\<close>

text \<open>
  One call on the recovery object, with the analysis and the message factory it was built with; the
  factory may also be used by others in between.
\<close>

inductive v_step :: "'cf AnalysisProvider \<Rightarrow> 'e EnvelopeFactory \<Rightarrow>
    VVariableRecovery \<times> 'e \<Rightarrow> VVariableRecovery \<times> 'e \<Rightarrow> bool" for provider env where
  v_begin: "v_step provider env (s, x) (snd (begin_pc provider env vs f ea rpc q cf sel s x))"
| v_invalidate: "v_step provider env (s, x) (invalidate_pc q rpc s, x)"
| v_clear: "v_step provider env (s, x) (clear_runtime_state s, x)"
| v_reg: "v_step provider env (s, x) (snd (v_apply_reg_response env p s x))"
| v_mem: "v_step provider env (s, x) (snd (v_apply_mem_response p s), x)"
| v_env: "v_step provider env (s, x) (s, x')"

inductive_cases v_stepE: "v_step provider env (s, x) st"

lemma v_ok_init: "v_ok (VVariableRecovery_init n)"
  by (simp add: v_ok_def VVariableRecovery_init_def history_ok_def)

lemma v_ok_step: "v_step provider env st st' \<Longrightarrow> v_ok (fst st) \<Longrightarrow> v_ok (fst st')"
  by (induction rule: v_step.induct) (simp_all add: v_ok_intros)

lemma max_history_step: "v_step provider env st st' \<Longrightarrow> v_ok (fst st) \<Longrightarrow>
    vs_max_history (fst st') = vs_max_history (fst st)"
proof (induction rule: v_step.induct)
  case (v_begin s x vs f ea rpc q cf sel)
  have var: "vs_max_history (ba_state (begin_variable ok sl ea rpc q v acc)) = vs_max_history (ba_state acc)"
    for ok sl v acc
    by (simp add: begin_variable_def Let_def case_prod_beta decide_record_def split: decision.split)
  have "vs_max_history (ba_state (fold (begin_variable ok sl ea rpc q) vs acc)) = vs_max_history (ba_state acc)"
    for ok sl vs acc
    by (induction vs arbitrary: acc) (simp_all add: var)
  then show ?case
    by (simp add: begin_pc_def begin_loop_def Let_def case_prod_beta request_v_registers_def v_start_context_def)
next
  case (v_reg s x p)
  with v_apply_reg_cases [of s env p x] show ?case by (auto simp: kept_def)
next
  case (v_mem s x p)
  with v_apply_mem_cases [of s p] show ?case by (auto simp: kept_def)
qed (simp_all add: invalidate_pc_def v_start_context_def clear_runtime_state_def)

interpretation v_steps: step_system "v_step provider env" "\<lambda>st. v_ok (fst st)"
  by unfold_locales (rule v_ok_step)

lemma v_reachable:
  assumes "(v_step provider env)\<^sup>*\<^sup>* (VVariableRecovery_init n, x0) st"
  shows "v_ok (fst st) \<and> vs_max_history (fst st) = max 1 n"
proof -
  have "vs_max_history (fst (VVariableRecovery_init n, x0)) = max 1 n" by (simp add: VVariableRecovery_init_def)
  with assms v_ok_init [of n] show ?thesis
    using v_steps.run_inv v_steps.run_keeps [where P = "\<lambda>st. vs_max_history (fst st) = max 1 n"]
    by (metis max_history_step fst_conv)
qed

section \<open>The plan of a program counter\<close>

text \<open>The evidence and the decision for a variable of a plan.\<close>

abbreviation plan_decision ::
    "RecoveryAnalysis \<Rightarrow> int list \<Rightarrow> VariableRecord \<Rightarrow> decision" where
  "plan_decision a selected v \<equiv>
     decide (ra_ok a) v (variable_evidence (ra_ok a) selected (ra_evidence_by_index a) v)"

lemma begin_variable_parts:
  fixes ok sel ea rpc q v acc
  defines "e \<equiv> variable_evidence ok sel (vs_evidence (ba_state acc)) v"
    and "acc' \<equiv> begin_variable ok sel ea rpc q v acc"
  shows "ba_registers acc' = ba_registers acc @ decision_registers (decide ok v e)"
    and "ba_indexes acc' = ba_indexes acc @ (if decision_registers (decide ok v e) = [] then [] else [vr_lvar_index v])"
    and "vs_evidence (ba_state acc') = vs_evidence (ba_state acc)"
    and "vs_pending (ba_state acc') = vs_pending (ba_state acc)"
    and "i \<noteq> vr_lvar_index v \<Longrightarrow> dget (vs_records (ba_state acc')) i = dget (vs_records (ba_state acc)) i"
    and "dget (vs_records (ba_state acc')) (vr_lvar_index v) =
      Some (fst (decide_record (decide ok v e) (re_confidence e) (new_record v e q rpc ea (ba_state acc)) (ba_state acc)))"
  unfolding acc'_def begin_variable_def Let_def case_prod_beta e_def [symmetric]
  by (simp_all add: decide_record_ok)

lemma begin_fold_parts:
  fixes ok sel ea rpc q vs acc
  defines "dec \<equiv> \<lambda>v. decide ok v (variable_evidence ok sel (vs_evidence (ba_state acc)) v)"
    and "acc' \<equiv> fold (begin_variable ok sel ea rpc q) vs acc"
  shows "ba_registers acc' = ba_registers acc @ concat (map (\<lambda>v. decision_registers (dec v)) vs) \<and>
    ba_indexes acc' = ba_indexes acc @ map vr_lvar_index (filter (\<lambda>v. decision_registers (dec v) \<noteq> []) vs) \<and>
    vs_evidence (ba_state acc') = vs_evidence (ba_state acc) \<and>
    vs_pending (ba_state acc') = vs_pending (ba_state acc) \<and>
    (\<forall>i. i \<notin> vr_lvar_index ` set vs \<longrightarrow> dget (vs_records (ba_state acc')) i = dget (vs_records (ba_state acc)) i)"
  unfolding dec_def acc'_def
proof (induction vs arbitrary: acc)
  case (Cons v vs)
  note st = begin_variable_parts [where ok = ok and sel = sel and ea = ea and rpc = rpc and q = q and v = v and acc = acc]
  from Cons.IH [of "begin_variable ok sel ea rpc q v acc"] st show ?case by simp
qed simp

lemma begin_fold_record:
  assumes "distinct (map vr_lvar_index vs)" "v \<in> set vs"
  shows "\<exists>s. dget (vs_records (ba_state (fold (begin_variable ok sel ea rpc q) vs acc))) (vr_lvar_index v) =
    (let e = variable_evidence ok sel (vs_evidence (ba_state acc)) v
     in Some (fst (decide_record (decide ok v e) (re_confidence e) (new_record v e q rpc ea s) s)))"
  using assms
proof (induction vs arbitrary: acc)
  case (Cons w vs)
  let ?acc1 = "begin_variable ok sel ea rpc q w acc"
  show ?case
  proof (cases "v = w")
    case True
    have "vr_lvar_index w \<notin> vr_lvar_index ` set vs" using Cons.prems by simp
    then have "dget (vs_records (ba_state (fold (begin_variable ok sel ea rpc q) vs ?acc1))) (vr_lvar_index w) =
        dget (vs_records (ba_state ?acc1)) (vr_lvar_index w)"
      using begin_fold_parts [where ok = ok and sel = sel and ea = ea and rpc = rpc and q = q and vs = vs and acc = ?acc1]
      by blast
    then show ?thesis using True by (auto simp: begin_variable_parts(6) Let_def)
  next
    case False
    with Cons.prems Cons.IH [of ?acc1] show ?thesis by (simp add: begin_variable_parts(3))
  qed
qed simp

text \<open>What a plan leaves behind: the requested registers, the pending request and the records.\<close>

lemma begin_pc_parts:
  fixes provider env vs f ea rpc q cf sel s x
  defines "ls \<equiv> filter (\<lambda>v. \<not> vr_is_arg v) vs"
  defines "idx \<equiv> selected_indexes ls sel"
  defines "a \<equiv> run_analysis provider f ea (filter (\<lambda>v. vr_lvar_index v \<in> set idx) ls) cf"
  defines "regs \<equiv> sort_registers (concat (map (\<lambda>v. decision_registers (plan_decision a idx v)) ls))"
  assumes "begin_pc provider env vs f ea rpc q cf sel s x = (plan, s', x')"
  shows "vs_pc_seq s' = vs_pc_seq (ba_state (begin_loop provider vs f ea rpc q cf sel s))"
    and "vs_runtime_pc s' = vs_runtime_pc (ba_state (begin_loop provider vs f ea rpc q cf sel s))"
    and "vs_evidence s' = ra_evidence_by_index a"
    and "vs_records s' = vs_records (ba_state (begin_loop provider vs f ea rpc q cf sel s))"
    and "regs = [] \<Longrightarrow> vl_register_request plan = None \<and> vs_pending s' = []"
    and "regs \<noteq> [] \<Longrightarrow> vs_pending s' = [(v_reg_id q, \<lparr>vp_kind = ''reg'', vp_pc_seq = q, vp_request_id = v_reg_id q,
            vp_runtime_pc = rpc, vp_lvar_indexes =
              map vr_lvar_index (filter (\<lambda>v. decision_registers (plan_decision a idx v) \<noteq> []) ls),
            vp_registers = regs, vp_address = [], vp_size = 0\<rparr>)]"
    and "regs \<noteq> [] \<Longrightarrow> (\<exists>y. vl_register_request plan = Some (fst (env ''reg_request''
           [(''pc_seq'', JInt q), (''request_id'', JStr (v_reg_id q)), (''runtime_pc'', JStr rpc),
            (''registers'', JList (map JStr regs)), (''reason'', JStr ''v_variable_recovery'')] y)))"
proof -
  let ?acc = "begin_loop provider vs f ea rpc q cf sel s"
  have acc: "ba_registers ?acc = concat (map (\<lambda>v. decision_registers (plan_decision a idx v)) ls)"
    "ba_indexes ?acc = map vr_lvar_index (filter (\<lambda>v. decision_registers (plan_decision a idx v) \<noteq> []) ls)"
    "vs_evidence (ba_state ?acc) = ra_evidence_by_index a" "vs_pending (ba_state ?acc) = []"
    using begin_fold_parts [where ok = "ra_ok a" and sel = idx and ea = ea and rpc = rpc and q = q and vs = ls]
    by (simp_all add: begin_loop_def Let_def ls_def idx_def a_def v_start_context_def)
  note b = assms(5) [unfolded begin_pc_def Let_def acc(1) regs_def [symmetric]]
  show "vs_pc_seq s' = vs_pc_seq (ba_state ?acc)" "vs_runtime_pc s' = vs_runtime_pc (ba_state ?acc)"
    "vs_evidence s' = ra_evidence_by_index a" "vs_records s' = vs_records (ba_state ?acc)"
    using b acc by (auto simp: request_v_registers_def Let_def case_prod_beta split: if_splits)
  show "vl_register_request plan = None \<and> vs_pending s' = []" if "regs = []"
    using b acc that by auto
  show "vs_pending s' = [(v_reg_id q, \<lparr>vp_kind = ''reg'', vp_pc_seq = q, vp_request_id = v_reg_id q,
            vp_runtime_pc = rpc, vp_lvar_indexes =
              map vr_lvar_index (filter (\<lambda>v. decision_registers (plan_decision a idx v) \<noteq> []) ls),
            vp_registers = regs, vp_address = [], vp_size = 0\<rparr>)]" if "regs \<noteq> []"
    using b acc that by (auto simp: request_v_registers_def Let_def case_prod_beta)
  show "\<exists>y. vl_register_request plan = Some (fst (env ''reg_request''
           [(''pc_seq'', JInt q), (''request_id'', JStr (v_reg_id q)), (''runtime_pc'', JStr rpc),
            (''registers'', JList (map JStr regs)), (''reason'', JStr ''v_variable_recovery'')] y))" if "regs \<noteq> []"
    using b acc that by (auto simp: request_v_registers_def Let_def case_prod_beta)
qed

lemma begin_pc_context:
  assumes "begin_pc provider env vs f ea rpc q cf sel s x = (plan, s', x')" "v_ok s"
  shows "vs_pc_seq s' = Some q \<and> vs_runtime_pc s' = rpc"
  using begin_loop_ok [OF assms(2), of provider vs f ea rpc q cf sel] assms(1)
  by (auto simp: begin_pc_def Let_def case_prod_beta request_v_registers_def split: if_splits)

end
