(* ===== verification/Plugin_Proofs.thy ===== *)
theory Plugin_Proofs
  imports Plugin Dynvar_Core_Proofs V_Recovery_Proofs
begin

text \<open>
  Correctness of the plugin controller: the argument core, the recovery and the view stay
  consistent with one current program counter whatever messages and user actions arrive, late
  responses have no effect, and recovery responses never touch argument rows.
\<close>

section \<open>What the helpers leave alone\<close>

lemma log_msg_fields [simp]:
  "ct_core (log_msg m l c) = ct_core c" "ct_v_recovery (log_msg m l c) = ct_v_recovery c"
  "ct_client (log_msg m l c) = ct_client c" "lw_all_rows (ct_view (log_msg m l c)) = lw_all_rows (ct_view c)"
  "lw_active_filter (ct_view (log_msg m l c)) = lw_active_filter (ct_view c)"
  "view_ok (ct_view (log_msg m l c)) = view_ok (ct_view c)"
  by (simp_all add: log_msg_def view_ok_def)

lemma emit_fields [simp]:
  "ct_core (emit_diagnostic_lines ls c) = ct_core c" "ct_v_recovery (emit_diagnostic_lines ls c) = ct_v_recovery c"
  "ct_client (emit_diagnostic_lines ls c) = ct_client c"
  "lw_all_rows (ct_view (emit_diagnostic_lines ls c)) = lw_all_rows (ct_view c)"
  "view_ok (ct_view (emit_diagnostic_lines ls c)) = view_ok (ct_view c)"
  unfolding emit_diagnostic_lines_def by (induction ls arbitrary: c) simp_all

lemma ct_send_fields [simp]:
  "ct_core (ct_send ia m c) = ct_core c" "ct_v_recovery (ct_send ia m c) = ct_v_recovery c"
  "lw_all_rows (ct_view (ct_send ia m c)) = lw_all_rows (ct_view c)" "view_ok (ct_view (ct_send ia m c)) = view_ok (ct_view c)"
  by (simp_all add: ct_send_def ct_on_status_def run_on_ida_thread_def Let_def split: option.split)

lemma ct_sends_fields [simp]:
  "ct_core (fold (ct_send ia) ms c) = ct_core c" "ct_v_recovery (fold (ct_send ia) ms c) = ct_v_recovery c"
  "lw_all_rows (ct_view (fold (ct_send ia) ms c)) = lw_all_rows (ct_view c)"
  "view_ok (ct_view (fold (ct_send ia) ms c)) = view_ok (ct_view c)"
  by (induction ms arbitrary: c) simp_all

lemma publish_fields [simp]:
  "ct_core (publish_rows b c) = ct_core c" "ct_v_recovery (publish_rows b c) = ct_v_recovery c"
  "lw_all_rows (ct_view (publish_rows b c)) = overlay_rows (ct_v_recovery c) (dc_rows (ct_core c))"
  "view_ok (ct_view c) \<Longrightarrow> view_ok (ct_view (publish_rows b c))"
  by (simp_all add: publish_rows_def view_ok_update)

lemma invalidate_cache_fields [simp]:
  "ct_core (invalidate_analysis_cache r b c) = ct_core c"
  "ct_v_recovery (invalidate_analysis_cache r b c) = ct_v_recovery c"
  "view_ok (ct_view (invalidate_analysis_cache r b c)) = view_ok (ct_view c)"
  by (simp_all add: invalidate_analysis_cache_def)

lemma jump_to_fields [simp]:
  "ct_core (jump_to ia ea c) = ct_core c" "ct_v_recovery (jump_to ia ea c) = ct_v_recovery c"
  "view_ok (ct_view (jump_to ia ea c)) = view_ok (ct_view c)"
  by (simp_all add: jump_to_def)

lemma log_other_fields [simp]:
  "ct_core (log_mapping p c) = ct_core c" "ct_v_recovery (log_mapping p c) = ct_v_recovery c"
  "view_ok (ct_view (log_mapping p c)) = view_ok (ct_view c)"
  "ct_core (log_response t p c) = ct_core c" "ct_v_recovery (log_response t p c) = ct_v_recovery c"
  "view_ok (ct_view (log_response t p c)) = view_ok (ct_view c)"
  "ct_core (log_analysis_summary rs n d c) = ct_core c"
  "ct_v_recovery (log_analysis_summary rs n d c) = ct_v_recovery c"
  "view_ok (ct_view (log_analysis_summary rs n d c)) = view_ok (ct_view c)"
  by (simp_all add: log_mapping_def log_response_def log_analysis_summary_def Let_def)

section \<open>The message factory\<close>

text \<open>The core with another next message id; the recovery uses the core for nothing else.\<close>

definition same_but_id :: "DayVarCore \<Rightarrow> DayVarCore \<Rightarrow> bool" where
  "same_but_id a b \<longleftrightarrow> (\<exists>n. b = a\<lparr>dc_next_message_id := n\<rparr>)"

lemma same_but_id_refl [simp]: "same_but_id a a"
  by (auto simp: same_but_id_def intro: exI [of _ "dc_next_message_id a"])

lemma same_but_id_trans: "same_but_id a b \<Longrightarrow> same_but_id b c \<Longrightarrow> same_but_id a c"
  by (auto simp: same_but_id_def)

lemma same_but_id_envelope [simp]: "same_but_id a (snd (envelope t p a))"
  by (auto simp: same_but_id_def envelope_def take_message_id_def)

lemma same_but_idD:
  assumes "same_but_id a b"
  shows "dc_current_pc b = dc_current_pc a" "dc_pending_requests b = dc_pending_requests a"
    "dc_rows b = dc_rows a" "core_ok b = core_ok a"
  using assms by (auto simp: same_but_id_def core_ok_def)

lemma begin_pc_factory: "same_but_id x (snd (snd (begin_pc provider envelope vs f ea rpc q cf sel s x)))"
  by (simp add: begin_pc_def Let_def request_v_registers_def case_prod_beta)

lemma apply_reg_index_factory:
  "same_but_id (ga_env acc) (ga_env (apply_reg_index envelope regs pending i acc))"
proof -
  have reg: "ga_env (apply_register_value regs spec i r acc) = ga_env acc" for spec r
    by (simp add: apply_register_value_def case_prod_beta)
  have mem: "same_but_id (ga_env acc) (ga_env (request_v_memory envelope pending i r ad acc))" for r ad
    by (simp add: request_v_memory_def Let_def case_prod_beta)
  have "same_but_id (ga_env acc) (ga_env (apply_stack_pointer envelope regs pending off i r acc))" for off r
    by (simp add: apply_stack_pointer_def Let_def mem split: sum.split)
  then show ?thesis by (simp add: apply_reg_index_def reg split: option.split bool.split)
qed

lemma apply_reg_fold_factory:
  "same_but_id (ga_env acc) (ga_env (fold (apply_reg_index envelope regs pending) idx acc))"
proof (induction idx arbitrary: acc)
  case (Cons i idx)
  from Cons [of "apply_reg_index envelope regs pending i acc"] show ?case
    using same_but_id_trans [OF apply_reg_index_factory] by simp
qed simp

lemma v_reg_factory: "same_but_id x (snd (snd (v_apply_reg_response envelope p s x)))"
  using apply_reg_fold_factory [of "\<lparr>ga_state = s', ga_env = x, ga_requests = [], ga_summaries = [], ga_debug = []\<rparr>" for s']
  by (simp add: v_apply_reg_response_def Let_def case_prod_beta split: option.split)

section \<open>The invariant of the controller\<close>

text \<open>The recovery is either idle or at the program counter of the argument core.\<close>

definition contexts_agree :: "DayVarCore \<Rightarrow> VVariableRecovery \<Rightarrow> bool" where
  "contexts_agree core v \<longleftrightarrow>
     (\<forall>q. vs_pc_seq v = Some q \<longrightarrow>
        (\<exists>px. dc_current_pc core = Some px \<and> px_pc_seq px = q \<and> px_runtime_pc px = vs_runtime_pc v))"

definition parts_ok :: "DayVarController \<Rightarrow> bool" where
  "parts_ok c \<longleftrightarrow> core_ok (ct_core c) \<and> v_ok (ct_v_recovery c) \<and> view_ok (ct_view c)"

definition plugin_ok :: "DayVarController \<Rightarrow> bool" where
  "plugin_ok c \<longleftrightarrow> parts_ok c \<and> contexts_agree (ct_core c) (ct_v_recovery c)"

lemma parts_ok_helpers [simp]:
  "parts_ok (log_msg m l c) = parts_ok c" "parts_ok (emit_diagnostic_lines ls c) = parts_ok c"
  "parts_ok (ct_send ia p c) = parts_ok c" "parts_ok (invalidate_analysis_cache r b c) = parts_ok c"
  "parts_ok (jump_to ia ea c) = parts_ok c" "parts_ok (log_mapping p c) = parts_ok c"
  "parts_ok (log_analysis_summary rs n d c) = parts_ok c"
  by (simp_all add: parts_ok_def)

lemma parts_ok_publish: "parts_ok c \<Longrightarrow> parts_ok (publish_rows b c)"
  by (simp add: parts_ok_def)

lemma parts_ok_core: "parts_ok c \<Longrightarrow> core_ok core \<Longrightarrow> parts_ok (c\<lparr>ct_core := core\<rparr>)"
  by (simp add: parts_ok_def)

lemma parts_ok_v: "parts_ok c \<Longrightarrow> v_ok v \<Longrightarrow> parts_ok (c\<lparr>ct_v_recovery := v\<rparr>)"
  by (simp add: parts_ok_def)

lemma make_mapped_fields [simp]:
  "dc_current_pc (snd (make_ida_pc_mapped q r e m b ok err core)) = dc_current_pc core"
  "core_ok core \<Longrightarrow> core_ok (snd (make_ida_pc_mapped q r e m b ok err core))"
  by (simp_all add: make_ida_pc_mapped_def core_ok_envelope)

lemma send_mapped_fields [simp]:
  "dc_current_pc (ct_core (send_mapped ia q r e m b ok err c)) = dc_current_pc (ct_core c)"
  "ct_v_recovery (send_mapped ia q r e m b ok err c) = ct_v_recovery c"
  "parts_ok c \<Longrightarrow> parts_ok (send_mapped ia q r e m b ok err c)"
  by (simp_all add: send_mapped_def case_prod_beta parts_ok_def)

text \<open>Both parts are at the program counter \<open>q\<close>.\<close>

definition at_pc :: "int \<Rightarrow> DayVarController \<Rightarrow> bool" where
  "at_pc q c \<longleftrightarrow> (\<exists>px. dc_current_pc (ct_core c) = Some px \<and> px_pc_seq px = q \<and>
     vs_pc_seq (ct_v_recovery c) = Some q \<and> vs_runtime_pc (ct_v_recovery c) = px_runtime_pc px)"

lemma at_pc_agree: "at_pc q c \<Longrightarrow> contexts_agree (ct_core c) (ct_v_recovery c)"
  by (auto simp: at_pc_def contexts_agree_def)

lemma context_fields [simp]:
  "dc_current_pc (start_pc_context px core) = Some px"
  "vs_pc_seq (invalidate_pc q r v) = Some q" "vs_runtime_pc (invalidate_pc q r v) = r"
  "px_pc_seq (pc_context q r e f b) = q" "px_runtime_pc (pc_context q r e f b) = r"
  by (simp_all add: start_pc_context_def invalidate_pc_def v_start_context_def pc_context_def)

lemma mapping_failed_ok:
  assumes "parts_ok c"
  shows "parts_ok (mapping_failed ia p q exc c)" "at_pc q (mapping_failed ia p q exc c)"
proof -
  show "parts_ok (mapping_failed ia p q exc c)"
    unfolding mapping_failed_def Let_def
    by (rule send_mapped_fields(3)) (use assms in \<open>simp add: parts_ok_def core_ok_start v_ok_invalidate\<close>)
  show "at_pc q (mapping_failed ia p q exc c)" by (simp add: mapping_failed_def Let_def at_pc_def)
qed

lemma announce_mapping_ok:
  assumes "parts_ok c"
  shows "parts_ok (announce_mapping ia m c)"
  using assms by (simp add: announce_mapping_def Let_def case_prod_beta parts_ok_def v_ok_invalidate)

lemma enumeration_failed_ok:
  assumes "parts_ok c"
  shows "parts_ok (enumeration_failed ia m e c)" "at_pc (pm_pc_seq m) (enumeration_failed ia m e c)"
  using assms
  by (simp_all add: enumeration_failed_def Let_def parts_ok_def core_ok_start v_ok_invalidate view_ok_update at_pc_def)

lemma plan_arguments_ok:
  assumes "parts_ok c"
  shows "parts_ok (snd (plan_arguments ia m e c))"
    and "\<exists>px. dc_current_pc (ct_core (snd (plan_arguments ia m e c))) = Some px \<and> px_pc_seq px = pm_pc_seq m \<and>
      px_runtime_pc px = format_hex (pm_runtime_pc m)"
  using assms
  by (auto simp: plan_arguments_def Let_def case_prod_beta parts_ok_def core_ok_plan plan_state pc_context_def
      split: option.split)

lemma select_candidates_fields [simp]:
  "ct_core (snd (select_candidates m e prev c)) = ct_core c"
  "parts_ok (snd (select_candidates m e prev c)) = parts_ok c"
  by (simp_all add: select_candidates_def case_prod_beta) (simp add: parts_ok_def)

lemma plan_locals_ok:
  assumes "parts_ok c" "dc_current_pc (ct_core c) = Some px" "px_pc_seq px = pm_pc_seq m"
    "px_runtime_pc px = format_hex (pm_runtime_pc m)"
  shows "parts_ok (snd (plan_locals ia m e sel c))" "at_pc (pm_pc_seq m) (snd (plan_locals ia m e sel c))"
proof -
  obtain plan v core where b: "begin_pc (ia_analysis ia) envelope (ve_variables e)
             (case ve_function_start_ea e of Some f \<Rightarrow> f | None \<Rightarrow> 0) (pm_ida_ea m) (format_hex (pm_runtime_pc m))
             (pm_pc_seq m) (ve_cfunc e) (Some sel) (ct_v_recovery c) (ct_core c) = (plan, v, core)"
    by (metis surj_pair)
  have ok: "v_ok (ct_v_recovery c)" "core_ok (ct_core c)" "view_ok (ct_view c)" using assms(1) by (simp_all add: parts_ok_def)
  have v: "v_ok v" "vs_pc_seq v = Some (pm_pc_seq m)" "vs_runtime_pc v = format_hex (pm_runtime_pc m)"
    using v_ok_begin [OF ok(1)] begin_pc_context [OF b ok(1)] b by (metis fst_conv snd_conv)+
  have "same_but_id (ct_core c) core" using begin_pc_factory b by (metis snd_conv)
  note core = same_but_idD [OF this]
  show "parts_ok (snd (plan_locals ia m e sel c))"
    using v ok core by (auto simp: plan_locals_def b Let_def parts_ok_def split: option.split)
  show "at_pc (pm_pc_seq m) (snd (plan_locals ia m e sel c))"
    using v core assms by (auto simp: plan_locals_def b Let_def at_pc_def split: option.split)
qed

lemma variables_enumerated_ok:
  assumes "parts_ok c"
  shows "parts_ok (variables_enumerated ia m e prev c)" "at_pc (pm_pc_seq m) (variables_enumerated ia m e prev c)"
proof -
  define c1 where "c1 = (if ct_active_function_ea c \<noteq> ve_function_start_ea e
                then (invalidate_analysis_cache ''function change'' False c)
                       \<lparr>ct_active_function_ea := ve_function_start_ea e\<rparr>
                else c)"
  have c1: "parts_ok c1" using assms by (auto simp: c1_def parts_ok_def)
  let ?c2 = "snd (plan_arguments ia m e c1)"
  let ?c3 = "snd (select_candidates m e prev ?c2)"
  from plan_arguments_ok [OF c1, of ia m e] obtain px where "parts_ok ?c2" "dc_current_pc (ct_core ?c2) = Some px"
    "px_pc_seq px = pm_pc_seq m" "px_runtime_pc px = format_hex (pm_runtime_pc m)" by metis
  then have p: "parts_ok (snd (plan_locals ia m e sel ?c3)) \<and> at_pc (pm_pc_seq m) (snd (plan_locals ia m e sel ?c3))" for sel
    using plan_locals_ok [of ?c3 px m ia e sel] by simp
  show "parts_ok (variables_enumerated ia m e prev c)" "at_pc (pm_pc_seq m) (variables_enumerated ia m e prev c)"
    using p by (simp_all add: variables_enumerated_def Let_def c1_def [symmetric] case_prod_beta) (simp add: at_pc_def)
qed

lemma handle_mapped_ok:
  assumes "parts_ok c"
  shows "parts_ok (handle_mapped ia m c)" "at_pc (pm_pc_seq m) (handle_mapped ia m c)"
  using announce_mapping_ok [OF assms, of ia m] by (simp_all add: handle_mapped_def Let_def enumeration_failed_ok variables_enumerated_ok)

text \<open>The sequence number of the context an update leads to.\<close>

definition announced_seq :: "ida_answers \<Rightarrow> payload \<Rightarrow> int \<Rightarrow> int" where
  "announced_seq ia p q =
     (case map_pc_update p (get_imagebase ia) of Inr m \<Rightarrow> pm_pc_seq m | Inl _ \<Rightarrow> q)"

lemma handle_pc_update_ok:
  assumes "parts_ok c" "handle_pc_update ia p c = Inr c'" "json_truthy (jget p ''auto_live'')"
  shows "\<exists>q. update_pc_seq p = Inr q \<and> parts_ok c' \<and> at_pc (announced_seq ia p q) c'"
proof -
  from assms(2,3) obtain q where q: "update_pc_seq p = Inr q"
    by (auto simp: handle_pc_update_def res_bind_Inr_iff)
  define c1 where "c1 = (if ct_active_pc_seq c \<noteq> Some q
                  then (invalidate_analysis_cache ''new pc sequence'' False c)\<lparr>ct_active_pc_seq := Some q\<rparr>
                  else c)"
  have c1: "parts_ok c1" using assms(1) by (auto simp: c1_def parts_ok_def)
  have c': "c' = (case map_pc_update p (get_imagebase ia) of
                  Inl exc \<Rightarrow> mapping_failed ia p q exc c1 | Inr m \<Rightarrow> handle_mapped ia m c1)"
    using assms(2,3) q unfolding handle_pc_update_def Let_def c1_def by simp
  show ?thesis
    using q mapping_failed_ok [OF c1] handle_mapped_ok [OF c1] by (auto simp: c' announced_seq_def split: sum.split)
qed

section \<open>Responses\<close>

lemma v_reg_response_fields:
  assumes "v_ok s" "v_apply_reg_response envelope p s x = (res, s', x')"
  shows "v_ok s'" "vs_pc_seq s' = vs_pc_seq s" "vs_runtime_pc s' = vs_runtime_pc s" "same_but_id x x'"
  using v_apply_reg_cases [OF assms(1), of envelope p x] v_reg_factory [of x p s] assms
  by (auto simp: kept_def)

lemma v_mem_response_fields:
  assumes "v_ok s" "v_apply_mem_response p s = (res, s')"
  shows "v_ok s'" "vs_pc_seq s' = vs_pc_seq s" "vs_runtime_pc s' = vs_runtime_pc s"
  using v_apply_mem_cases [OF assms(1), of p] assms by (auto simp: kept_def)

lemma reg_context: "dc_current_pc (snd (apply_reg_response p c)) = dc_current_pc c"
  if "core_ok c"
proof -
  obtain po why c1 where t: "take_pending_response p ''reg'' c = ((po, why), c1)" by (metis surj_pair)
  show ?thesis
  proof (cases po)
    case None
    with t take_pending_cases [OF t] show ?thesis by (simp add: apply_reg_response_def)
  next
    case (Some pr)
    from take_pending_ok [OF that t [unfolded Some]] obtain px where px: "core_ok c1" "dc_current_pc c = Some px"
      "dc_current_pc c1 = Some px" "pr_pc_seq pr = px_pc_seq px" "pr_runtime_pc pr = px_runtime_pc px" by metis
    have "dc_current_pc (snd (build_stack_mem_requests registers pr (c1\<lparr>dc_rows := rows\<rparr>))) = Some px" for registers rows
      using build_stack_inv [OF core_ok_rows [OF px(1)], of rows px pr registers] px by simp
    with t Some px show ?thesis
      by (auto simp: apply_reg_response_def case_prod_beta split: option.splits)
  qed
qed

lemma mem_context: "dc_current_pc (snd (apply_mem_response p c)) = dc_current_pc c"
proof -
  obtain po why c1 where t: "take_pending_response p ''mem'' c = ((po, why), c1)" by (metis surj_pair)
  with take_pending_cases [OF t] show ?thesis by (auto simp: apply_mem_response_def)
qed

lemma handle_reg_ok:
  assumes "plugin_ok c"
  shows "plugin_ok (handle_reg_response ia p c)"
proof -
  have ok: "core_ok (ct_core c)" "v_ok (ct_v_recovery c)" "view_ok (ct_view c)"
    "contexts_agree (ct_core c) (ct_v_recovery c)" using assms by (simp_all add: plugin_ok_def parts_ok_def)
  obtain a why ms ls v core where v: "v_apply_reg_response envelope p (ct_v_recovery c) (ct_core c) = ((a, why, ms, ls), v, core)"
    by (metis surj_pair)
  note vf = v_reg_response_fields [OF ok(2) v]
  obtain a' why' ms' core' where k: "apply_reg_response p (ct_core c) = ((a', why', ms'), core')" by (metis surj_pair)
  have kf: "core_ok core'" "dc_current_pc core' = dc_current_pc (ct_core c)"
    using core_ok_reg [OF ok(1), of p] reg_context [OF ok(1), of p] k by simp_all
  show ?thesis
    using ok vf same_but_idD [OF vf(4)] kf
    by (auto simp: handle_reg_response_def v k Let_def plugin_ok_def parts_ok_def contexts_agree_def)
qed

lemma handle_mem_ok:
  assumes "plugin_ok c"
  shows "plugin_ok (handle_mem_response ia p c)"
proof -
  have ok: "core_ok (ct_core c)" "v_ok (ct_v_recovery c)" "view_ok (ct_view c)"
    "contexts_agree (ct_core c) (ct_v_recovery c)" using assms by (simp_all add: plugin_ok_def parts_ok_def)
  obtain a why ls v where v: "v_apply_mem_response p (ct_v_recovery c) = ((a, why, ls), v)" by (metis surj_pair)
  note vf = v_mem_response_fields [OF ok(2) v]
  obtain a' why' core' where k: "apply_mem_response p (ct_core c) = ((a', why'), core')" by (metis surj_pair)
  have kf: "core_ok core'" "dc_current_pc core' = dc_current_pc (ct_core c)"
    using core_ok_mem [OF ok(1), of p] mem_context [of p "ct_core c"] k by simp_all
  show ?thesis
    using ok vf kf by (auto simp: handle_mem_response_def v k Let_def plugin_ok_def parts_ok_def contexts_agree_def)
qed

lemma handle_message_ok:
  assumes "plugin_ok c" "handle_message ia m c = Inr c'"
  shows "plugin_ok c'"
proof -
  have log: "plugin_ok (log_msg t l c)" for t l using assms(1) by (simp add: plugin_ok_def)
  have "plugin_ok c'" if p: "handle_pc_update ia p c = Inr c'" for p
  proof (cases "json_truthy (jget p ''auto_live'')")
    case True
    with handle_pc_update_ok [OF _ p] assms(1) show ?thesis by (auto simp: plugin_ok_def intro: at_pc_agree)
  next
    case False
    then have "log_msg (''pc_update ignored because auto_live is false payload='' @ py_repr (JObj p)) ''verbose'' c = c'"
      using p by (simp only: handle_pc_update_def if_True simp_thms not_False_eq_True sum.inject)
    with log show ?thesis by metis
  qed
  with assms(2) log handle_reg_ok [OF assms(1)] handle_mem_ok [OF assms(1)] show ?thesis
    by (auto simp: handle_message_def Let_def split: option.splits if_splits)
qed

section \<open>Reachable states\<close>

text \<open>
  What can happen to the controller: a message is handled, the user acts, the client's worker runs
  or reports its status, the set of watched lvars changes. IDA may answer differently at each step.
\<close>

inductive plugin_step :: "DayVarController \<Rightarrow> DayVarController \<Rightarrow> bool" where
  pl_message: "handle_message ia m c = Inr c' \<Longrightarrow> plugin_step c c'"
| pl_connect: "plugin_step c (ct_connect ia target c)"
| pl_disconnect: "plugin_step c (ct_disconnect c)"
| pl_filter: "ct_set_filter b f c = Inr c' \<Longrightarrow> plugin_step c c'"
| pl_show_status: "plugin_step c (show_status c)"
| pl_show: "plugin_step c (show_live_variables b c)"
| pl_status: "plugin_step c (ct_on_status ia t c)"
| pl_network: "plugin_step c (snd (on_network_message ia m c))"
| pl_worker: "plugin_step c (c\<lparr>ct_client := cl, ct_messages := ms, ct_watched_lvar_indexes := ws\<rparr>)"

lemma plugin_ok_init: "plugin_ok (DayVarController_init level n)"
  by (simp add: plugin_ok_def parts_ok_def contexts_agree_def DayVarController_init_def core_new_def v_ok_init
      view_ok_init) (simp add: core_ok_def VVariableRecovery_init_def)

lemma plugin_ok_fields:
  "plugin_ok (c\<lparr>ct_messages := ms\<rparr>) = plugin_ok c" "plugin_ok (c\<lparr>ct_status := t\<rparr>) = plugin_ok c"
  "plugin_ok (c\<lparr>ct_view := view_log m (ct_view c)\<rparr>) = plugin_ok c" "plugin_ok (log_msg m l c) = plugin_ok c"
  by (simp_all add: plugin_ok_def parts_ok_def)

lemma plugin_ok_drain: "plugin_ok c \<Longrightarrow> plugin_ok (snd (drain_messages ia ms c))"
  by (induction ia ms c rule: drain_messages.induct)
     (auto simp: plugin_ok_fields handle_message_ok split: sum.split)

lemma plugin_ok_thread:
  "plugin_ok c \<Longrightarrow> (\<And>c. plugin_ok c \<Longrightarrow> plugin_ok (snd (f c))) \<Longrightarrow> plugin_ok (snd (run_on_ida_thread ia f c))"
  by (simp add: run_on_ida_thread_def plugin_ok_fields split: option.split)

lemma plugin_ok_step: "plugin_step c c' \<Longrightarrow> plugin_ok c \<Longrightarrow> plugin_ok c'"
proof (induction rule: plugin_step.induct)
  case (pl_message ia m c c')
  then show ?case by (simp add: handle_message_ok)
next
  case (pl_connect c ia target)
  have "core_ok (snd (make_hello (ida_version ia) (ct_core c)))"
    "dc_current_pc (snd (make_hello (ida_version ia) (ct_core c))) = dc_current_pc (ct_core c)"
    using pl_connect by (simp_all add: make_hello_def core_ok_envelope plugin_ok_def parts_ok_def)
  with pl_connect show ?case
    by (auto simp: ct_connect_def Let_def case_prod_beta plugin_ok_def parts_ok_def contexts_agree_def split: sum.split)
next
  case (pl_disconnect c)
  then show ?case
    by (simp add: ct_disconnect_def Let_def plugin_ok_def parts_ok_def contexts_agree_def v_ok_clear)
      (simp add: core_ok_def clear_runtime_state_def)
next
  case (pl_filter b f c c')
  then show ?case
    by (auto simp: ct_set_filter_def res_bind_Inr_iff plugin_ok_def parts_ok_def dest: view_ok_set_filter)
next
  case (pl_show c b)
  then show ?case by (simp add: show_live_variables_def plugin_ok_def parts_ok_def view_ok_show)
next
  case (pl_status c ia t)
  then show ?case by (simp add: ct_on_status_def plugin_ok_fields plugin_ok_thread)
next
  case (pl_network c ia m)
  then show ?case by (simp add: on_network_message_def plugin_ok_fields plugin_ok_thread plugin_ok_drain)
qed (simp_all add: show_status_def Let_def plugin_ok_def parts_ok_def)

interpretation plugin_steps: step_system plugin_step plugin_ok
  by unfold_locales (rule plugin_ok_step)

lemma plugin_reachable_ok: "plugin_step\<^sup>*\<^sup>* (DayVarController_init level n) c \<Longrightarrow> plugin_ok c"
  by (erule plugin_steps.run_inv) (rule plugin_ok_init)

text \<open>
  C24. There is one current program counter: in every reachable state of the plugin, all outstanding
  requests of the argument core and of the recovery carry its sequence number and address, their
  ids never collide, and the table shows exactly the published rows that pass the active filter.
\<close>

theorem plugin_one_context:
  assumes "plugin_step\<^sup>*\<^sup>* (DayVarController_init level n) c"
  shows "(\<forall>k pr. dget (dc_pending_requests (ct_core c)) k = Some pr \<longrightarrow>
      (\<exists>px. dc_current_pc (ct_core c) = Some px \<and> pr_pc_seq pr = px_pc_seq px \<and> pr_runtime_pc pr = px_runtime_pc px \<and>
         \<not> is_v_request_id (JStr k))) \<and>
    (\<forall>k pr. dget (vs_pending (ct_v_recovery c)) k = Some pr \<longrightarrow>
      (\<exists>px. dc_current_pc (ct_core c) = Some px \<and> vp_pc_seq pr = px_pc_seq px \<and> vp_runtime_pc pr = px_runtime_pc px \<and>
         is_v_request_id (JStr k))) \<and>
    lw_rows (ct_view c) = filter (\<lambda>row. row_matches_filter row (lw_active_filter (ct_view c))) (lw_all_rows (ct_view c))"
proof -
  have ok: "core_ok (ct_core c)" "v_ok (ct_v_recovery c)" "view_ok (ct_view c)"
    "contexts_agree (ct_core c) (ct_v_recovery c)"
    using plugin_reachable_ok [OF assms] by (simp_all add: plugin_ok_def parts_ok_def)
  have two: "take (length ''v-'') k = take (length ''v-'') s" if "take n k = s" "2 \<le> n" for n :: nat and k s :: string
    using that by (auto simp: min_def)
  have pre: "\<not> py_startswith k ''v-''" if "take 4 k = ''reg-'' \<or> take 4 k = ''mem-''" for k
    using that two [of 4 k "''reg-''"] two [of 4 k "''mem-''"] unfolding py_startswith_take by auto
  have prev: "py_startswith k ''v-''" if "take 6 k = ''v-reg-'' \<or> take 6 k = ''v-mem-''" for k
    using that two [of 6 k "''v-reg-''"] two [of 6 k "''v-mem-''"] unfolding py_startswith_take by auto
  have "\<exists>px. dc_current_pc (ct_core c) = Some px \<and> pr_pc_seq pr = px_pc_seq px \<and> pr_runtime_pc pr = px_runtime_pc px \<and>
         \<not> is_v_request_id (JStr k)" if "dget (dc_pending_requests (ct_core c)) k = Some pr" for k pr
    using ok(1) that pre unfolding core_ok_def request_ok_def is_v_request_id_def by fastforce
  moreover have "\<exists>px. dc_current_pc (ct_core c) = Some px \<and> vp_pc_seq pr = px_pc_seq px \<and> vp_runtime_pc pr = px_runtime_pc px \<and>
         is_v_request_id (JStr k)" if "dget (vs_pending (ct_v_recovery c)) k = Some pr" for k pr
    using v_okD(2) [OF ok(2) that] ok(4) prev
    unfolding v_request_ok_def contexts_agree_def is_v_request_id_def by fastforce
  ultimately show ?thesis using ok(3) by (simp add: view_ok_def)
qed

lemma plugin_one_context_witness:
  "\<forall>ia. lw_rows (ct_view (ct_disconnect (ct_connect ia (Some ''127.0.0.1:9100'') (DayVarController_init None 4)))) =
    filter (\<lambda>row. row_matches_filter row (lw_active_filter (ct_view (ct_disconnect
        (ct_connect ia (Some ''127.0.0.1:9100'') (DayVarController_init None 4))))))
      (lw_all_rows (ct_view (ct_disconnect (ct_connect ia (Some ''127.0.0.1:9100'') (DayVarController_init None 4)))))"
proof
  fix ia :: ida_answers
  let ?c1 = "ct_connect ia (Some ''127.0.0.1:9100'') (DayVarController_init None 4)"
  have "plugin_step\<^sup>*\<^sup>* (DayVarController_init None 4) (ct_disconnect ?c1)"
    by (meson pl_connect pl_disconnect rtranclp.rtrancl_refl rtranclp.rtrancl_into_rtrancl)
  from plugin_one_context [OF this] show "lw_rows (ct_view (ct_disconnect ?c1)) =
    filter (\<lambda>row. row_matches_filter row (lw_active_filter (ct_view (ct_disconnect ?c1)))) (lw_all_rows (ct_view (ct_disconnect ?c1)))"
    by blast
qed

section \<open>The message queue\<close>

text \<open>
  A message whose dispatch to the main thread fails is not lost: it stays last in the queue, and
  the next dispatch that works handles the queued messages in the order of their arrival.
\<close>

lemma undispatched_message_queued:
  assumes "ia_in_ida ia" "ia_execute_sync ia = Some exc"
  shows "ct_messages (snd (on_network_message ia m c)) = ct_messages c @ [m]"
    "ct_core (snd (on_network_message ia m c)) = ct_core c"
    "ct_v_recovery (snd (on_network_message ia m c)) = ct_v_recovery c"
  using assms by (simp_all add: on_network_message_def run_on_ida_thread_def)

fun handles_all :: "ida_answers \<Rightarrow> payload list \<Rightarrow> DayVarController \<Rightarrow> DayVarController \<Rightarrow> bool" where
  "handles_all ia [] c c' = (c' = c)"
| "handles_all ia (m # ms) c c' = (\<exists>c1. handle_message ia m c = Inr c1 \<and> handles_all ia ms c1 c')"

lemma drain_messages_prefix:
  assumes "drain_messages ia ms c = (e, c')"
  shows "\<exists>handled c1. handles_all ia handled c c1 \<and> c' = c1\<lparr>ct_messages := ct_messages c'\<rparr> \<and>
    (case e of
       None \<Rightarrow> handled = ms \<and> ct_messages c' = []
     | Some exc \<Rightarrow> \<exists>m. ms = handled @ m # ct_messages c' \<and> handle_message ia m c1 = Inl exc)"
  using assms
proof (induction ia ms c arbitrary: e c' rule: drain_messages.induct)
  case (1 ia c)
  then show ?case by (intro exI [of _ "[]"] exI [of _ c]) auto
next
  case (2 ia m rest c)
  show ?case
  proof (cases "handle_message ia m c")
    case (Inl exc)
    with 2 show ?thesis by (intro exI [of _ "[]"] exI [of _ c]) auto
  next
    case (Inr c2)
    with 2(1) [OF Inr] 2(2) obtain ms c1 where "handles_all ia ms c2 c1" "c' = c1\<lparr>ct_messages := ct_messages c'\<rparr>"
      "case e of None \<Rightarrow> ms = rest \<and> ct_messages c' = []
       | Some exc \<Rightarrow> \<exists>m. rest = ms @ m # ct_messages c' \<and> handle_message ia m c1 = Inl exc"
      by force
    with Inr show ?thesis by (intro exI [of _ "m # ms"] exI [of _ c1]) (auto split: option.splits)
  qed
qed

section \<open>Late responses\<close>

lemma late_response_rejected:
  assumes ok: "plugin_ok c"
    and late: "\<And>px. dc_current_pc (ct_core c) = Some px \<Longrightarrow> \<not> json_eq_int (jget p ''pc_seq'') (px_pc_seq px)"
  shows "\<exists>t. handle_reg_response ia p c = log_msg t ''quiet'' c" "\<exists>t. handle_mem_response ia p c = log_msg t ''quiet'' c"
proof -
  have agree: "contexts_agree (ct_core c) (ct_v_recovery c)" using ok by (simp add: plugin_ok_def)
  have v: "\<exists>why. v_take_pending p k (ct_v_recovery c) = ((None, why), ct_v_recovery c)" for k
  proof (cases "vs_pc_seq (ct_v_recovery c)")
    case None
    then show ?thesis by (rule v_requests.no_context_rejected)
  next
    case (Some q)
    with agree late have "\<not> json_eq_int (jget p ''pc_seq'') q" by (auto simp: contexts_agree_def)
    with Some show ?thesis by (rule v_requests.stale_rejected)
  qed
  have k: "\<exists>why. take_pending_response p k (ct_core c) = ((None, why), ct_core c)" for k
  proof (cases "dc_current_pc (ct_core c)")
    case None
    then show ?thesis by (intro core_requests.no_context_rejected) simp
  next
    case (Some px)
    with late show ?thesis by (intro core_requests.stale_rejected [of _ "px_pc_seq px"]) auto
  qed
  show "\<exists>t. handle_reg_response ia p c = log_msg t ''quiet'' c"
    using v [of "''reg''"] k [of "''reg''"]
    by (auto simp: handle_reg_response_def v_apply_reg_response_def apply_reg_response_def simp del: append.simps)
  show "\<exists>t. handle_mem_response ia p c = log_msg t ''quiet'' c"
    using v [of "''mem''"] k [of "''mem''"]
    by (auto simp: handle_mem_response_def v_apply_mem_response_def apply_mem_response_def simp del: append.simps)
qed

lemma log_msg_only_logs:
  "\<exists>ls. log_msg t l c = c\<lparr>ct_view := (ct_view c)\<lparr>lw_log := ls\<rparr>\<rparr>"
proof (cases "log_level l \<le> log_level (ct_diagnostic_level c)")
  case True
  then show ?thesis by (auto simp: log_msg_def view_log_def)
next
  case False
  then show ?thesis by (intro exI [of _ "lw_log (ct_view c)"]) (simp add: log_msg_def)
qed

text \<open>
  C23. A program counter update retires everything before it: once an automatic update has been
  handled, successfully mapped or not, a response that names another sequence number changes
  nothing but the log, whatever its request id, its addresses and its values.
\<close>

theorem late_response_no_effect:
  assumes reach: "plugin_step\<^sup>*\<^sup>* (DayVarController_init level n) c"
    and update: "json_eq_str (jget m ''type'') ''pc_update''" "json_obj (jget_or m ''payload'' (JObj [])) = Some p"
      "json_truthy (jget p ''auto_live'')" "update_pc_seq p = Inr q" "handle_message ia m c = Inr c1"
    and response: "jget r ''type'' \<in> {JStr ''reg_response'', JStr ''mem_response''}"
      "json_obj (jget_or r ''payload'' (JObj [])) = Some rp" "\<not> json_eq_int (jget rp ''pc_seq'') (announced_seq ia p q)"
  shows "\<exists>ls. handle_message ia' r c1 = Inr (c1\<lparr>ct_view := (ct_view c1)\<lparr>lw_log := ls\<rparr>\<rparr>)"
proof -
  have hp: "handle_pc_update ia p c = Inr c1"
    using update by (cases "jget m ''type''") (auto simp: handle_message_def Let_def)
  have "parts_ok c" using plugin_reachable_ok [OF reach] by (simp add: plugin_ok_def)
  from handle_pc_update_ok [OF this hp update(3)] update(4) have ok1: "parts_ok c1" "at_pc (announced_seq ia p q) c1" by auto
  then have ok: "plugin_ok c1" by (simp add: plugin_ok_def at_pc_agree)
  have late: "\<not> json_eq_int (jget rp ''pc_seq'') (px_pc_seq px)" if "dc_current_pc (ct_core c1) = Some px" for px
    using ok1(2) response(3) that by (auto simp: at_pc_def)
  from late_response_rejected [OF ok late, of ia'] obtain t t' where
    "handle_reg_response ia' rp c1 = log_msg t ''quiet'' c1" "handle_mem_response ia' rp c1 = log_msg t' ''quiet'' c1" by blast
  with response(1,2) obtain t'' where "handle_message ia' r c1 = Inr (log_msg t'' ''quiet'' c1)"
    by (fastforce simp: handle_message_def Let_def)
  with log_msg_only_logs show ?thesis by metis
qed

lemma late_response_no_effect_witness:
  "\<forall>ia. \<exists>c1 ls. handle_message ia [(''type'', JStr ''pc_update''), (''payload'', JObj [(''auto_live'', JBool True), (''pc_seq'', JInt 7)])]
       (DayVarController_init None 4) = Inr c1 \<and>
     handle_message ia [(''type'', JStr ''reg_response''), (''payload'', JObj [(''pc_seq'', JInt 6)])] c1 =
       Inr (c1\<lparr>ct_view := (ct_view c1)\<lparr>lw_log := ls\<rparr>\<rparr>)"
proof
  fix ia :: ida_answers
  let ?p = "[(''auto_live'', JBool True), (''pc_seq'', JInt 7)]"
  let ?m = "[(''type'', JStr ''pc_update''), (''payload'', JObj ?p)]"
  let ?r = "[(''type'', JStr ''reg_response''), (''payload'', JObj [(''pc_seq'', JInt 6)])]"
  have seq: "update_pc_seq ?p = Inr 7" by (simp add: update_pc_seq_def jget_def jget_or_def)
  have upd: "json_eq_str (jget ?m ''type'') ''pc_update''" "json_obj (jget_or ?m ''payload'' (JObj [])) = Some ?p"
    "json_truthy (jget ?p ''auto_live'')" by (simp_all add: jget_def jget_or_def)
  have "handle_pc_update ia ?p (DayVarController_init None 4) \<noteq> Inl e" for e
    using seq upd(3) by (simp add: handle_pc_update_def Let_def)
  then obtain c1 where c1: "handle_message ia ?m (DayVarController_init None 4) = Inr c1"
    by (cases "handle_pc_update ia ?p (DayVarController_init None 4)")
      (auto simp: handle_message_def jget_def jget_or_def)
  have a: "announced_seq ia ?p 7 = 7"
    by (simp add: announced_seq_def map_pc_update_def payload_item_def jget_def parse_int_def split: sum.split)
  have resp: "jget ?r ''type'' \<in> {JStr ''reg_response'', JStr ''mem_response''}"
    "json_obj (jget_or ?r ''payload'' (JObj [])) = Some [(''pc_seq'', JInt 6)]"
    "\<not> json_eq_int (jget [(''pc_seq'', JInt 6)] ''pc_seq'') (announced_seq ia ?p 7)"
    unfolding a by (simp_all add: jget_def jget_or_def)
  from late_response_no_effect [OF rtranclp.rtrancl_refl upd seq c1 resp, of ia] c1
  show "\<exists>c1 ls. handle_message ia ?m (DayVarController_init None 4) = Inr c1 \<and>
     handle_message ia ?r c1 = Inr (c1\<lparr>ct_view := (ct_view c1)\<lparr>lw_log := ls\<rparr>\<rparr>)" by blast
qed

section \<open>Arguments and locals are separate\<close>

lemma overlay_keeps_arguments: "filter vr_is_arg (overlay_rows s rows) = filter vr_is_arg rows"
proof (induction rows)
  case (Cons row rows)
  have "vr_is_arg (case dget (vs_records s) (vr_lvar_index row) of None \<Rightarrow> row | Some r \<Rightarrow> overlay_row r row) = vr_is_arg row"
    by (simp add: overlay_row_def split: option.split)
  with Cons show ?case by (auto simp: overlay_rows_def)
qed (simp add: overlay_rows_def)

text \<open>
  C25. The two halves do not interfere: a response to a recovery request (its id starts with
  \<^verbatim>\<open>v-\<close>) leaves the context, the outstanding requests and the rows of the argument core as they are
  and never changes the argument rows of the table beyond republishing the core's own; every
  other response leaves the whole recovery as it is.
\<close>

theorem responses_separate:
  assumes "c' = handle_reg_response ia p c \<or> c' = handle_mem_response ia p c"
  shows "if is_v_request_id (jget p ''request_id'')
    then (\<exists>k. ct_core c' = (ct_core c)\<lparr>dc_next_message_id := k\<rparr>) \<and>
      filter vr_is_arg (lw_all_rows (ct_view c')) \<in>
        {filter vr_is_arg (lw_all_rows (ct_view c)), filter vr_is_arg (dc_rows (ct_core c))}
    else ct_v_recovery c' = ct_v_recovery c"
proof (cases "is_v_request_id (jget p ''request_id'')")
  case True
  obtain a why ms ls v core where v: "v_apply_reg_response envelope p (ct_v_recovery c) (ct_core c) = ((a, why, ms, ls), v, core)"
    by (metis surj_pair)
  have same: "same_but_id (ct_core c) core" using v_reg_factory [of "ct_core c" p "ct_v_recovery c"] v by simp
  obtain a' why' ls' v' where w: "v_apply_mem_response p (ct_v_recovery c) = ((a', why', ls'), v')" by (metis surj_pair)
  have "same_but_id (ct_core c) (ct_core c') \<and> filter vr_is_arg (lw_all_rows (ct_view c')) \<in>
        {filter vr_is_arg (lw_all_rows (ct_view c)), filter vr_is_arg (dc_rows (ct_core c))}"
    using assms True same same_but_idD(3) [OF same]
    by (auto simp: handle_reg_response_def handle_mem_response_def v w Let_def overlay_keeps_arguments)
  then show ?thesis using True unfolding same_but_id_def by simp
next
  case False
  then show ?thesis using assms
    by (auto simp: handle_reg_response_def handle_mem_response_def Let_def case_prod_beta)
qed

lemma responses_separate_witness:
  "\<forall>ia. ct_v_recovery (handle_reg_response ia [(''request_id'', JStr ''reg-1'')] (DayVarController_init None 4)) =
    VVariableRecovery_init 256 \<and>
   (\<exists>k. ct_core (handle_mem_response ia [(''request_id'', JStr ''v-mem-1-2'')] (DayVarController_init None 4)) =
    core_new\<lparr>dc_next_message_id := k\<rparr>)"
proof
  fix ia :: ida_answers
  show "ct_v_recovery (handle_reg_response ia [(''request_id'', JStr ''reg-1'')] (DayVarController_init None 4)) =
      VVariableRecovery_init 256 \<and>
     (\<exists>k. ct_core (handle_mem_response ia [(''request_id'', JStr ''v-mem-1-2'')] (DayVarController_init None 4)) =
      core_new\<lparr>dc_next_message_id := k\<rparr>)"
  using responses_separate [of "handle_reg_response ia [(''request_id'', JStr ''reg-1'')] (DayVarController_init None 4)"
      ia "[(''request_id'', JStr ''reg-1'')]" "DayVarController_init None 4"]
    responses_separate [of "handle_mem_response ia [(''request_id'', JStr ''v-mem-1-2'')] (DayVarController_init None 4)"
      ia "[(''request_id'', JStr ''v-mem-1-2'')]" "DayVarController_init None 4"]
  by (simp add: jget_def is_v_request_id_def py_startswith_take DayVarController_init_def)
qed

section \<open>Exceptions\<close>


end
