(* ===== verification/Plugin_Actions.thy ===== *)
theory Plugin_Actions
  imports Plugin_Proofs
begin

text \<open>
  The registration part of \<^verbatim>\<open>ida_plugin/dayvar_plugin.py\<close>: \<^verbatim>\<open>install_plugin\<close>, \<^verbatim>\<open>uninstall_plugin\<close> and the
  plugin class. The effect on IDA is the sequence of kernel calls they make; a callback is the
  controller method that an action runs.
\<close>

section \<open>Actions\<close>

definition ACTION_CONNECT :: string where "ACTION_CONNECT = ''dayvarsync:connect''"
definition ACTION_DISCONNECT :: string where "ACTION_DISCONNECT = ''dayvarsync:disconnect''"
definition ACTION_STATUS :: string where "ACTION_STATUS = ''dayvarsync:status''"
definition ACTION_SHOW_LIVE :: string where "ACTION_SHOW_LIVE = ''dayvarsync:show_live''"
definition ACTION_FILTER_PREFIX :: string where "ACTION_FILTER_PREFIX = ''dayvarsync:filter:''"

lemmas action_defs = ACTION_CONNECT_def ACTION_DISCONNECT_def ACTION_STATUS_def ACTION_SHOW_LIVE_def
  ACTION_FILTER_PREFIX_def

datatype callback = Connect | Disconnect | ShowStatus | ShowLiveVariables | SetFilter string

datatype kernel_call =
    UnregisterAction string
  | RegisterAction string string callback
  | AttachActionToMenu string string

definition filter_action_name :: "string \<Rightarrow> string" where
  "filter_action_name filter_name =
     ACTION_FILTER_PREFIX @ map (\<lambda>ch. if ch = CHR '' '' then CHR ''_'' else ch) (py_lower filter_name)"

definition register_action :: "bool \<Rightarrow> string \<Rightarrow> string \<Rightarrow> callback \<Rightarrow> kernel_call list" where
  "register_action in_ida name label callback =
     (if \<not> in_ida then [] else [UnregisterAction name, RegisterAction name label callback])"

definition install_plugin :: "bool \<Rightarrow> DayVarController \<Rightarrow> kernel_call list \<times> DayVarController" where
  "install_plugin in_ida c =
     (if \<not> in_ida then ([], log_msg ''outside IDA: plugin actions not registered'' ''normal'' c)
      else
        (register_action in_ida ACTION_CONNECT ''DayVarSync: Connect'' Connect @
         register_action in_ida ACTION_DISCONNECT ''DayVarSync: Disconnect'' Disconnect @
         register_action in_ida ACTION_STATUS ''DayVarSync: Status'' ShowStatus @
         register_action in_ida ACTION_SHOW_LIVE ''DayVarSync: Show Live Variables'' ShowLiveVariables @
         concat (map (\<lambda>filter_name. register_action in_ida (filter_action_name filter_name)
           (''DayVarSync Filter: '' @ filter_name) (SetFilter filter_name)) FILTERS) @
         [AttachActionToMenu ''Edit/DayVarSync/Connect'' ACTION_CONNECT,
          AttachActionToMenu ''Edit/DayVarSync/Disconnect'' ACTION_DISCONNECT,
          AttachActionToMenu ''Edit/DayVarSync/Status'' ACTION_STATUS,
          AttachActionToMenu ''Edit/DayVarSync/Show Live Variables'' ACTION_SHOW_LIVE] @
         map (\<lambda>filter_name. AttachActionToMenu (''Edit/DayVarSync/Filter/'' @ filter_name)
           (filter_action_name filter_name)) FILTERS,
         log_msg ''actions registered under Edit/DayVarSync'' ''normal'' c))"

definition uninstall_plugin :: "bool \<Rightarrow> DayVarController \<Rightarrow> kernel_call list \<times> DayVarController" where
  "uninstall_plugin in_ida c =
     (if \<not> in_ida then [] else
        map UnregisterAction
          ([ACTION_CONNECT, ACTION_DISCONNECT, ACTION_STATUS, ACTION_SHOW_LIVE] @ map filter_action_name FILTERS),
      ct_disconnect c)"

text \<open>\<open>_ActionHandler.activate\<close>: an exception of the callback escapes.\<close>

fun activate :: "ida_answers \<Rightarrow> callback \<Rightarrow> DayVarController \<Rightarrow> DayVarController res" where
  "activate ia Connect c = Inr (ct_connect ia None c)"
| "activate ia Disconnect c = Inr (ct_disconnect c)"
| "activate ia ShowStatus c = Inr (show_status c)"
| "activate ia ShowLiveVariables c = Inr (show_live_variables (ia_in_ida ia) c)"
| "activate ia (SetFilter filter_name) c = ct_set_filter (ia_in_ida ia) filter_name c"

text \<open>The methods of \<^verbatim>\<open>dayvar_sync_plugin_t\<close>, which only exists inside IDA.\<close>

definition plugin_init :: "DayVarController \<Rightarrow> kernel_call list \<times> DayVarController" where
  "plugin_init = install_plugin True"

definition plugin_run :: "DayVarController \<Rightarrow> DayVarController" where
  "plugin_run = show_status"

definition plugin_term :: "DayVarController \<Rightarrow> kernel_call list \<times> DayVarController" where
  "plugin_term = uninstall_plugin True"

section \<open>Properties\<close>

definition registered :: "kernel_call list \<Rightarrow> (string \<times> callback) list" where
  "registered calls = List.map_filter (\<lambda>k. case k of RegisterAction n l cb \<Rightarrow> Some (n, cb) | _ \<Rightarrow> None) calls"

definition attached :: "kernel_call list \<Rightarrow> string list" where
  "attached calls = List.map_filter (\<lambda>k. case k of AttachActionToMenu menu n \<Rightarrow> Some n | _ \<Rightarrow> None) calls"

definition all_actions :: "(string \<times> callback) list" where
  "all_actions =
     [(''dayvarsync:connect'', Connect), (''dayvarsync:disconnect'', Disconnect), (''dayvarsync:status'', ShowStatus),
      (''dayvarsync:show_live'', ShowLiveVariables), (''dayvarsync:filter:all'', SetFilter ''All''),
      (''dayvarsync:filter:fresh'', SetFilter ''Fresh''), (''dayvarsync:filter:recoverable'', SetFilter ''Recoverable''),
      (''dayvarsync:filter:arguments'', SetFilter ''Arguments''),
      (''dayvarsync:filter:named_locals'', SetFilter ''Named locals''),
      (''dayvarsync:filter:unavailable'', SetFilter ''Unavailable'')]"

lemma filter_action_names:
  "map filter_action_name FILTERS = map fst (drop 4 all_actions)"
  by code_simp

lemmas filter_action_name_of = filter_action_names [unfolded FILTERS_def all_actions_def, simplified]

lemma registered_install: "registered (fst (plugin_init c)) = all_actions"
  by (simp add: plugin_init_def install_plugin_def register_action_def FILTERS_def registered_def map_filter_simps
      filter_action_name_of) (simp add: all_actions_def action_defs filter_defs)

lemma unregistered_term: "fst (plugin_term c) = map (UnregisterAction \<circ> fst) all_actions"
  unfolding plugin_term_def uninstall_plugin_def
  by (simp add: filter_action_names del: map_append) (simp add: all_actions_def action_defs)

lemma attached_install: "attached (fst (plugin_init c)) = map fst all_actions"
  by (simp add: plugin_init_def install_plugin_def register_action_def FILTERS_def attached_def map_filter_simps
      filter_action_name_of) (simp add: all_actions_def action_defs)

lemma all_actions_distinct: "distinct (map fst all_actions)"
  by code_simp

lemma all_actions_filters:
  "list_all (\<lambda>a. case snd a of SetFilter f \<Rightarrow> f \<in> set FILTERS | _ \<Rightarrow> True) all_actions"
  by code_simp

lemma activate_ok:
  assumes "(n, cb) \<in> set all_actions"
  shows "\<exists>c'. activate ia cb c = Inr c' \<and> plugin_step c c'"
proof (cases cb)
  case (SetFilter f)
  with assms all_actions_filters have "f \<in> set FILTERS" by (force simp: list_all_iff)
  then obtain c' where c': "ct_set_filter (ia_in_ida ia) f c = Inr c'"
    by (simp add: ct_set_filter_def set_filter_def)
  with SetFilter pl_filter [OF c'] show ?thesis by simp
qed (simp_all add: plugin_step.intros)

lemma registered_mem: "RegisterAction n l cb \<in> set calls \<Longrightarrow> (n, cb) \<in> set (registered calls)"
  by (force simp: registered_def set_map_filter_iff)

lemma attached_mem: "n \<in> set (attached calls) \<Longrightarrow> \<exists>menu. AttachActionToMenu menu n \<in> set calls"
  proof -
  assume "n \<in> set (attached calls)"
  then obtain k where k: "k \<in> set calls" "(case k of AttachActionToMenu menu n \<Rightarrow> Some n | _ \<Rightarrow> None) = Some n"
    by (auto simp: attached_def set_map_filter_iff)
  show ?thesis by (cases k) (use k in auto)
qed

lemma filter_key_once: "distinct (map fst xs) \<Longrightarrow> (k, v) \<in> set xs \<Longrightarrow> length (filter (\<lambda>x. fst x = k) xs) = 1"
  by (induction xs) (auto simp: filter_empty_conv rev_image_eqI)

text \<open>
  C34. The actions the plugin registers are consistent: each is registered once and has a menu
  entry, activating it never raises and is a step of the plugin, and unloading the plugin
  unregisters exactly the registered actions.
\<close>

theorem installed_actions_safe:
  assumes "RegisterAction name label callback \<in> set (fst (plugin_init c0))"
  shows "length (filter (\<lambda>a. fst a = name) (registered (fst (plugin_init c0)))) = 1 \<and>
    (\<exists>menu. AttachActionToMenu menu name \<in> set (fst (plugin_init c0))) \<and>
    (\<exists>c'. activate ia callback c = Inr c' \<and> plugin_step c c') \<and>
    set (fst (plugin_term c1)) = UnregisterAction ` fst ` set (registered (fst (plugin_init c0)))"
proof -
  have a: "(name, callback) \<in> set all_actions" using registered_mem [OF assms] by (simp add: registered_install)
  then have "name \<in> set (attached (fst (plugin_init c0)))" by (force simp: attached_install)
  note attached = attached_mem [OF this]
  have "set (fst (plugin_term c1)) = UnregisterAction ` fst ` set all_actions"
    by (simp add: unregistered_term image_image)
  with attached activate_ok [OF a] filter_key_once [OF all_actions_distinct a] show ?thesis
    by (simp add: registered_install)
qed

lemma installed_actions_safe_witness:
  "\<forall>ia. \<exists>c'. activate ia (SetFilter ''Named locals'') (DayVarController_init None 4) = Inr c'"
proof -
  have "RegisterAction ''dayvarsync:filter:named_locals'' ''DayVarSync Filter: Named locals'' (SetFilter ''Named locals'')
      \<in> set (fst (plugin_init (DayVarController_init None 4)))"
    by (simp add: plugin_init_def install_plugin_def register_action_def FILTERS_def filter_action_name_of)
       (simp add: filter_defs)
  from installed_actions_safe [OF this] show ?thesis by blast
qed

end
