(* ===== verification/Native.thy ===== *)
theory Native
  imports Cfg_Analysis Registers
begin

text \<open>
  The native storage proof of \<^verbatim>\<open>ida_plugin/v_variable_recovery.py\<close>: register writes as bit ranges,
  native instruction and block facts, and \<^verbatim>\<open>_validate_register_storage_cfg\<close>, which walks backwards
  from the current instruction and accepts a register location only if every path meets the
  definition before anything that may change the slice. The soundness theorem is an instance of the
  backward scan of \<^verbatim>\<open>Flow_Graph\<close>.
\<close>

section \<open>Data\<close>

record RegisterWrite =
  rw_full_register :: string
  rw_bit_offset :: int
  rw_bit_size :: int

definition covers :: "RegisterWrite \<Rightarrow> RegisterSpec \<Rightarrow> int \<Rightarrow> bool" where
  "covers w spec width \<longleftrightarrow>
     rw_bit_offset w \<le> rs_bit_offset spec \<and>
     rs_bit_offset spec + width * 8 \<le> rw_bit_offset w + rw_bit_size w"

definition overlaps :: "RegisterWrite \<Rightarrow> RegisterSpec \<Rightarrow> int \<Rightarrow> bool" where
  "overlaps w spec width \<longleftrightarrow>
     rw_bit_offset w < rs_bit_offset spec + width * 8 \<and> rs_bit_offset spec < rw_bit_offset w + rw_bit_size w"

record NativeInstructionFact =
  ni_ea :: int
  ni_size :: int
  ni_writes :: "RegisterWrite list"
  ni_is_call :: bool
  ni_register_access_known :: bool

record NativeBlockFacts =
  nb_block_id :: int
  nb_start_ea :: int
  nb_end_ea :: int
  nb_instructions :: "NativeInstructionFact list"
  nb_predecessors :: "int list"
  nb_successors :: "int list"

record StorageValidation =
  sv_valid :: bool
  sv_reason :: string
  sv_clobber_ea :: "int option"
  sv_visited_blocks :: nat

type_synonym native_cfg = "(int, NativeBlockFacts) dict"

definition REASON_UNRESOLVED_NATIVE_POINT :: string where
  "REASON_UNRESOLVED_NATIVE_POINT = ''unresolved_native_program_point''"
definition REASON_STORAGE_CLOBBERED :: string where
  "REASON_STORAGE_CLOBBERED = ''storage_clobbered_before_current_pc''"

section \<open>The backward walk\<close>

datatype native_scan = NThrough | NDefinition nat | NUnknown nat | NClobber nat

definition writes_slice :: "(RegisterWrite \<Rightarrow> RegisterSpec \<Rightarrow> int \<Rightarrow> bool) \<Rightarrow> NativeInstructionFact \<Rightarrow>
    RegisterSpec \<Rightarrow> int \<Rightarrow> bool" where
  "writes_slice rel i register width \<longleftrightarrow>
     (\<exists>w \<in> set (ni_writes i). rw_full_register w = rs_full_register register \<and> rel w register width)"

text \<open>\<open>for position in range(limit - 1, -1, -1)\<close> with its \<open>break\<close>s.\<close>

fun scan_native ::
    "int \<Rightarrow> RegisterSpec \<Rightarrow> int \<Rightarrow> NativeInstructionFact list \<Rightarrow> nat \<Rightarrow> native_scan" where
  "scan_native definition_ea register width ins 0 = NThrough"
| "scan_native definition_ea register width ins (Suc position) =
     (let i = ins ! position
      in if ni_ea i = definition_ea
         then if \<not> ni_register_access_known i \<or> \<not> writes_slice covers i register width
              then NClobber position else NDefinition position
         else if \<not> ni_register_access_known i then NUnknown position
         else if ni_is_call i \<or> writes_slice overlaps i register width then NClobber position
         else scan_native definition_ea register width ins position)"

record storage_acc =
  sa_reached_definition :: bool
  sa_unresolved :: bool
  sa_clobber_ea :: "int option"

definition native_state_block :: "native_cfg \<Rightarrow> point \<Rightarrow> NativeBlockFacts option" where
  "native_state_block blocks st =
     (case dget blocks (fst st) of
        None \<Rightarrow> None
      | Some block \<Rightarrow>
          if snd st < 0 \<or> int (length (nb_instructions block)) < snd st \<or> nb_instructions block = []
          then None else Some block)"

definition storage_upd ::
    "native_cfg \<Rightarrow> int \<Rightarrow> RegisterSpec \<Rightarrow> int \<Rightarrow> point \<Rightarrow> storage_acc \<Rightarrow> storage_acc" where
  "storage_upd blocks definition_ea register width st a =
     (case native_state_block blocks st of
        None \<Rightarrow> a\<lparr>sa_unresolved := True\<rparr>
      | Some block \<Rightarrow>
          (case scan_native definition_ea register width (nb_instructions block) (nat (snd st)) of
             NDefinition position \<Rightarrow> a\<lparr>sa_reached_definition := True\<rparr>
           | NUnknown position \<Rightarrow> a\<lparr>sa_unresolved := True\<rparr>
           | NClobber position \<Rightarrow> a\<lparr>sa_clobber_ea := Some (ni_ea (nb_instructions block ! position))\<rparr>
           | NThrough \<Rightarrow>
               if nb_predecessors block = [] \<or> (\<exists>p \<in> set (nb_predecessors block). dget blocks p = None)
               then a\<lparr>sa_unresolved := True\<rparr> else a))"

definition storage_next :: "native_cfg \<Rightarrow> int \<Rightarrow> RegisterSpec \<Rightarrow> int \<Rightarrow> point \<Rightarrow> point list" where
  "storage_next blocks definition_ea register width st =
     (case native_state_block blocks st of
        None \<Rightarrow> []
      | Some block \<Rightarrow>
          (case scan_native definition_ea register width (nb_instructions block) (nat (snd st)) of
             NThrough \<Rightarrow>
               List.map_filter
                 (\<lambda>p. map_option (\<lambda>pb. (p, int (length (nb_instructions pb)))) (dget blocks p))
                 (nb_predecessors block)
           | _ \<Rightarrow> []))"

definition native_matches :: "native_cfg \<Rightarrow> int \<Rightarrow> (int \<times> nat) list" where
  "native_matches blocks ea =
     concat (map (\<lambda>block. map (\<lambda>(position, i). (nb_block_id block, position))
       (filter (\<lambda>(position, i). ni_ea i = ea) (List.enumerate 0 (nb_instructions block)))) (dvals blocks))"

definition storage_trav ::
    "native_cfg \<Rightarrow> int \<Rightarrow> RegisterSpec \<Rightarrow> int \<Rightarrow> point \<Rightarrow> (point, storage_acc) traversal" where
  "storage_trav blocks definition_ea register width st =
     traverse (state_budget None (length blocks)) (storage_upd blocks definition_ea register width)
       (storage_next blocks definition_ea register width)
       (start_traversal st \<lparr>sa_reached_definition = False, sa_unresolved = False, sa_clobber_ea = None\<rparr>)"

definition storage_verdict :: "(point, storage_acc) traversal \<Rightarrow> StorageValidation" where
  "storage_verdict t =
     (let blocks_seen = length (remdups (map fst (t_visited t)));
          cut = (t_exhausted t \<or> graph_has_cycle (t_edges t))
      in if sa_clobber_ea (t_acc t) \<noteq> None
         then \<lparr>sv_valid = False, sv_reason = REASON_STORAGE_CLOBBERED, sv_clobber_ea = sa_clobber_ea (t_acc t),
               sv_visited_blocks = blocks_seen\<rparr>
         else if \<not> sa_reached_definition (t_acc t) \<or> sa_unresolved (t_acc t) \<or> cut
         then \<lparr>sv_valid = False,
               sv_reason = (if cut then REASON_CROSS_BLOCK_LIVENESS_UNPROVEN else REASON_UNRESOLVED_NATIVE_POINT),
               sv_clobber_ea = None, sv_visited_blocks = blocks_seen\<rparr>
         else \<lparr>sv_valid = True, sv_reason = ''exact register storage survives to current PC'',
               sv_clobber_ea = None, sv_visited_blocks = blocks_seen\<rparr>)"

definition validate_register_storage_cfg ::
    "native_cfg \<Rightarrow> int \<Rightarrow> int \<Rightarrow> RegisterSpec \<Rightarrow> int \<Rightarrow> StorageValidation" where
  "validate_register_storage_cfg blocks definition_ea current_ea register width =
     (let unresolved = \<lparr>sv_valid = False, sv_reason = REASON_UNRESOLVED_NATIVE_POINT, sv_clobber_ea = None,
                        sv_visited_blocks = 0\<rparr>
      in case (native_matches blocks definition_ea, native_matches blocks current_ea) of
           ([(definition_block_id, definition_position)], [(current_block_id, current_position)]) \<Rightarrow>
             if definition_block_id = current_block_id \<and> current_position \<le> definition_position
             then unresolved
             else storage_verdict (storage_trav blocks definition_ea register width
                    (current_block_id, int current_position))
         | _ \<Rightarrow> unresolved)"

section \<open>The scan as a backward scan\<close>

definition native_len :: "native_cfg \<Rightarrow> int \<Rightarrow> nat option" where
  "native_len blocks b = map_option (\<lambda>bl. length (nb_instructions bl)) (dget blocks b)"

definition native_succs :: "native_cfg \<Rightarrow> int \<Rightarrow> int list" where
  "native_succs blocks b = (case dget blocks b of None \<Rightarrow> [] | Some bl \<Rightarrow> nb_successors bl)"

definition native_preds :: "native_cfg \<Rightarrow> int \<Rightarrow> int list" where
  "native_preds blocks b = (case dget blocks b of None \<Rightarrow> [] | Some bl \<Rightarrow> nb_predecessors bl)"

definition native_fact :: "native_cfg \<Rightarrow> int \<times> nat \<Rightarrow> NativeInstructionFact option" where
  "native_fact blocks x =
     (case dget blocks (fst x) of
        None \<Rightarrow> None
      | Some bl \<Rightarrow> if snd x < length (nb_instructions bl) then Some (nb_instructions bl ! snd x) else None)"

text \<open>An instruction that may change the slice, or is the definition.\<close>

definition disturbs :: "RegisterSpec \<Rightarrow> int \<Rightarrow> NativeInstructionFact \<Rightarrow> bool" where
  "disturbs register width i \<longleftrightarrow>
     \<not> ni_register_access_known i \<or> ni_is_call i \<or> writes_slice overlaps i register width"

definition native_stop :: "native_cfg \<Rightarrow> int \<Rightarrow> RegisterSpec \<Rightarrow> int \<Rightarrow> int \<times> nat \<Rightarrow> bool" where
  "native_stop blocks definition_ea register width x \<longleftrightarrow>
     (case native_fact blocks x of
        None \<Rightarrow> False
      | Some i \<Rightarrow> ni_ea i = definition_ea \<or> disturbs register width i)"

fun stop_index :: "native_scan \<Rightarrow> nat option" where
  "stop_index NThrough = None"
| "stop_index (NDefinition k) = Some k"
| "stop_index (NUnknown k) = Some k"
| "stop_index (NClobber k) = Some k"

definition native_index :: "native_cfg \<Rightarrow> int \<Rightarrow> RegisterSpec \<Rightarrow> int \<Rightarrow> int \<Rightarrow> nat \<Rightarrow> nat option" where
  "native_index blocks definition_ea register width b l =
     (case dget blocks b of
        None \<Rightarrow> None
      | Some bl \<Rightarrow> stop_index (scan_native definition_ea register width (nb_instructions bl)
                     (min l (length (nb_instructions bl)))))"

lemma scan_native_spec:
  fixes de reg w ins
  defines "st \<equiv> \<lambda>k. ni_ea (ins ! k) = de \<or> disturbs reg w (ins ! k)"
  shows "case stop_index (scan_native de reg w ins l) of
     None \<Rightarrow> \<forall>k < l. \<not> st k
   | Some k \<Rightarrow> k < l \<and> st k \<and> (\<forall>j. k < j \<and> j < l \<longrightarrow> \<not> st j)"
proof (induction l)
  case (Suc l)
  have "(\<forall>k < l. P k) \<Longrightarrow> P l \<Longrightarrow> \<forall>k < Suc l. P k" for P by (auto simp: less_Suc_eq)
  with Suc show ?case
    by (auto simp: st_def disturbs_def Let_def less_Suc_eq split: option.splits)
qed simp

lemma scan_native_definition:
  "scan_native de reg w ins l = NDefinition k \<Longrightarrow>
   ni_ea (ins ! k) = de \<and> ni_register_access_known (ins ! k) \<and> writes_slice covers (ins ! k) reg w"
  by (induction l) (auto simp: Let_def split: if_splits)

lemma native_index_cases:
  "case native_index blocks de reg w b l of
     None \<Rightarrow> \<forall>k < l. \<not> native_stop blocks de reg w (b, k)
   | Some k \<Rightarrow> k < l \<and> native_stop blocks de reg w (b, k) \<and>
       (\<forall>j. k < j \<and> j < l \<longrightarrow> \<not> native_stop blocks de reg w (b, j))"
proof (cases "dget blocks b")
  case (Some bl)
  then show ?thesis
    using scan_native_spec [where de = de and reg = reg and w = w and ins = "nb_instructions bl"
        and l = "min l (length (nb_instructions bl))"]
    by (auto simp: native_index_def native_stop_def native_fact_def split: option.splits)
qed (simp add: native_index_def native_stop_def native_fact_def)

interpretation native: backward_scan "native_len blocks" "native_succs blocks" "native_preds blocks"
    "native_stop blocks de reg w" "native_index blocks de reg w" for blocks de reg w
proof
  fix b l k
  show "\<not> native_stop blocks de reg w (b, k)" if "native_index blocks de reg w b l = None" "k < l"
    using native_index_cases [where blocks = blocks and de = de and reg = reg and w = w and b = b and l = l] that
    by simp
  show "k < l \<and> native_stop blocks de reg w (b, k) \<and>
      (\<forall>j. k < j \<and> j < l \<longrightarrow> \<not> native_stop blocks de reg w (b, j))"
    if "native_index blocks de reg w b l = Some k"
    using native_index_cases [where blocks = blocks and de = de and reg = reg and w = w and b = b and l = l] that
    by simp
qed

section \<open>Soundness\<close>

lemma storage_trav_facts:
  fixes blocks de reg w st
  defines "t \<equiv> storage_trav blocks de reg w st"
  shows "t_acc t = fold (storage_upd blocks de reg w) (t_visited t)
           \<lparr>sa_reached_definition = False, sa_unresolved = False, sa_clobber_ea = None\<rparr>"
    and "\<not> t_exhausted t \<Longrightarrow> set (t_visited t) = (next_rel (storage_next blocks de reg w))\<^sup>* `` {st}"
  using traverse_from_start [of "state_budget None (length blocks)" "storage_upd blocks de reg w"
      "storage_next blocks de reg w" st
      "\<lparr>sa_reached_definition = False, sa_unresolved = False, sa_clobber_ea = None\<rparr>"]
  by (auto simp: t_def storage_trav_def trav_core_def trav_done_def)

text \<open>What a visited state contributes when the verdict is positive.\<close>

definition state_fine :: "native_cfg \<Rightarrow> int \<Rightarrow> RegisterSpec \<Rightarrow> int \<Rightarrow> point \<Rightarrow> bool" where
  "state_fine blocks de reg w st \<longleftrightarrow>
     (\<exists>bl. native_state_block blocks st = Some bl \<and>
        (case scan_native de reg w (nb_instructions bl) (nat (snd st)) of
           NThrough \<Rightarrow> nb_predecessors bl \<noteq> [] \<and> (\<forall>p \<in> set (nb_predecessors bl). dget blocks p \<noteq> None)
         | NDefinition k \<Rightarrow> True
         | _ \<Rightarrow> False))"

definition storage_bad :: "storage_acc \<Rightarrow> bool" where
  "storage_bad a \<longleftrightarrow> sa_unresolved a \<or> sa_clobber_ea a \<noteq> None"

lemma storage_upd_fine:
  "storage_bad (storage_upd blocks de reg w st a) \<longleftrightarrow> storage_bad a \<or> \<not> state_fine blocks de reg w st"
  by (auto simp: storage_bad_def storage_upd_def state_fine_def split: option.splits native_scan.splits)

lemma storage_fold_fine:
  "storage_bad (fold (storage_upd blocks de reg w) vs a) \<longleftrightarrow>
   storage_bad a \<or> (\<exists>st \<in> set vs. \<not> state_fine blocks de reg w st)"
  by (induction vs arbitrary: a) (auto simp: storage_upd_fine)

lemma verdict_valid:
  assumes "sv_valid (storage_verdict (storage_trav blocks de reg w st))"
  shows "\<not> t_exhausted (storage_trav blocks de reg w st)"
    and "st' \<in> set (t_visited (storage_trav blocks de reg w st)) \<Longrightarrow> state_fine blocks de reg w st'"
proof -
  let ?t = "storage_trav blocks de reg w st"
  have "\<not> storage_bad (t_acc ?t)" "\<not> t_exhausted ?t"
    using assms by (auto simp: storage_bad_def storage_verdict_def Let_def split: if_splits)
  then show "\<not> t_exhausted ?t" "st' \<in> set (t_visited ?t) \<Longrightarrow> state_fine blocks de reg w st'"
    unfolding storage_trav_facts(1) storage_fold_fine by auto
qed

lemma native_state_block_Some:
  "native_state_block blocks (b, l) = Some bl \<longleftrightarrow>
     dget blocks b = Some bl \<and> 0 \<le> l \<and> l \<le> int (length (nb_instructions bl)) \<and> nb_instructions bl \<noteq> []"
  by (auto simp: native_state_block_def split: option.splits)

lemma native_index_state:
  "native_state_block blocks (b, l) = Some bl \<Longrightarrow>
   native_index blocks de reg w b (nat l) = stop_index (scan_native de reg w (nb_instructions bl) (nat l))"
  by (auto simp: native_index_def native_state_block_Some min_absorb1 nat_le_iff)

lemma storage_next_mem:
  "(p, n) \<in> set (storage_next blocks de reg w (b, l)) \<longleftrightarrow>
     (\<exists>bl pb. native_state_block blocks (b, l) = Some bl \<and>
        scan_native de reg w (nb_instructions bl) (nat l) = NThrough \<and>
        p \<in> set (nb_predecessors bl) \<and> dget blocks p = Some pb \<and> n = int (length (nb_instructions pb)))"
  by (cases "native_state_block blocks (b, l)")
     (auto simp: storage_next_def set_map_filter_iff split: native_scan.splits)

text \<open>The visited states, as points of the flow graph, are closed under predecessors.\<close>

lemma storage_closed:
  assumes "sv_valid (storage_verdict (storage_trav blocks de reg w st))"
  shows "native.closed_states blocks de reg w
    {(b, nat l) |b l. (b, l) \<in> set (t_visited (storage_trav blocks de reg w st))}" (is "native.closed_states _ _ _ _ ?V")
  unfolding native.closed_states_def
proof (intro allI impI ballI)
  fix b l p n
  assume V: "(b, l) \<in> ?V" and none: "native_index blocks de reg w b l = None"
    and p: "p \<in> set (native_preds blocks b)" and n: "native_len blocks p = Some n"
  let ?vs = "set (t_visited (storage_trav blocks de reg w st))"
  from V obtain l' where l': "(b, l') \<in> ?vs" "l = nat l'" by blast
  then obtain bl where bl: "native_state_block blocks (b, l') = Some bl"
    using verdict_valid(2) [OF assms l'(1)] by (auto simp: state_fine_def)
  from n obtain pb where pb: "dget blocks p = Some pb" "n = length (nb_instructions pb)" by (auto simp: native_len_def)
  have "scan_native de reg w (nb_instructions bl) (nat l') = NThrough"
    using none native_index_state [OF bl, of de reg w] l'(2)
    by (cases "scan_native de reg w (nb_instructions bl) (nat l')") auto
  moreover have "p \<in> set (nb_predecessors bl)" using p bl by (simp add: native_preds_def native_state_block_Some)
  ultimately have "(p, int n) \<in> set (storage_next blocks de reg w (b, l'))" using bl pb by (simp add: storage_next_mem)
  then have "(p, int n) \<in> ?vs"
    using l'(1) storage_trav_facts(2) [OF verdict_valid(1) [OF assms]]
    by (auto intro: rtrancl_into_rtrancl)
  then show "(p, n) \<in> ?V" by force
qed

lemma native_reciprocal:
  assumes "validate_cfg_reciprocity nb_predecessors nb_successors blocks label = Inr u"
  shows "native.reciprocal blocks"
  unfolding native.reciprocal_def
  using validated_succ [OF assms] by (force simp: native_len_def native_succs_def native_preds_def)

text \<open>No visited state reaches an entry block without meeting the definition.\<close>

lemma native_entry_not_covered:
  assumes valid: "sv_valid (storage_verdict (storage_trav blocks de reg w st))"
    and entry: "dget blocks e = Some eb" "nb_predecessors eb = []"
  shows "\<not> native.covered blocks de reg w
    {(b, nat l) |b l. (b, l) \<in> set (t_visited (storage_trav blocks de reg w st))} (e, 0)"
proof
  assume "native.covered blocks de reg w
    {(b, nat l) |b l. (b, l) \<in> set (t_visited (storage_trav blocks de reg w st))} (e, 0)"
  then obtain l where l: "(e, l) \<in> set (t_visited (storage_trav blocks de reg w st))"
    and free: "\<forall>k. 0 \<le> k \<and> k < nat l \<longrightarrow> \<not> native_stop blocks de reg w (e, k)" by (auto simp: native.covered_def)
  from verdict_valid(2) [OF valid l] obtain bl where bl: "native_state_block blocks (e, l) = Some bl"
    and fine: "case scan_native de reg w (nb_instructions bl) (nat l) of
           NThrough \<Rightarrow> nb_predecessors bl \<noteq> [] \<and> (\<forall>p \<in> set (nb_predecessors bl). dget blocks p \<noteq> None)
         | NDefinition k \<Rightarrow> True
         | _ \<Rightarrow> False" by (auto simp: state_fine_def)
  have "bl = eb" using bl entry by (simp add: native_state_block_Some)
  moreover have "native_index blocks de reg w e (nat l) = None" using free by (rule native.scan_through)
  ultimately show False
    using fine entry(2) native_index_state [OF bl, of de reg w]
    by (cases "scan_native de reg w (nb_instructions bl) (nat l)") auto
qed

lemma native_match_unique:
  assumes "\<forall>(k, b) \<in> set blocks. nb_block_id b = k" "native_fact blocks (b, pos) = Some i"
  shows "(b, pos) \<in> set (native_matches blocks (ni_ea i))"
proof -
  from assms(2) obtain bl where bl: "dget blocks b = Some bl" "pos < length (nb_instructions bl)"
    "i = nb_instructions bl ! pos" by (auto simp: native_fact_def split: option.splits if_splits)
  then have "(b, bl) \<in> set blocks" by (auto dest: map_of_SomeD)
  with assms(1) have "nb_block_id bl = b" "bl \<in> set (dvals blocks)" by force+
  moreover have "(pos, i) \<in> set (List.enumerate 0 (nb_instructions bl))"
    using bl by (auto simp: in_set_enumerate_eq)
  ultimately show ?thesis unfolding native_matches_def by force
qed

text \<open>On every run from an entry, the definition comes last among the instructions that matter.\<close>

lemma storage_run:
  assumes recip: "validate_cfg_reciprocity nb_predecessors nb_successors blocks label = Inr ()"
    and ids: "\<forall>(k, b) \<in> set blocks. nb_block_id b = k"
    and entry: "dget blocks e = Some eb" "nb_predecessors eb = []"
    and valid: "sv_valid (validate_register_storage_cfg blocks de ce reg w)"
    and run: "flow_run (native_len blocks) (native_succs blocks) (e, 0) xs (cb, pos)"
    and here: "native_fact blocks (cb, pos) = Some i" "ni_ea i = ce"
  shows "\<exists>ys b k zs d. xs = ys @ (b, k) # zs \<and> native_fact blocks (b, k) = Some d \<and> ni_ea d = de \<and>
    ni_register_access_known d \<and> writes_slice covers d reg w \<and>
    (\<forall>z \<in> set zs. \<not> native_stop blocks de reg w z)"
proof -
  have "native_matches blocks ce = [(cb, pos)]"
    using native_match_unique [OF ids here(1)] here(2) valid
    by (auto simp: validate_register_storage_cfg_def Let_def split: list.splits)
  then have valid: "sv_valid (storage_verdict (storage_trav blocks de reg w (cb, int pos)))"
    using valid by (auto simp: validate_register_storage_cfg_def Let_def split: list.splits if_splits)
  let ?vs = "set (t_visited (storage_trav blocks de reg w (cb, int pos)))"
  let ?V = "{(b, nat l) |b l. (b, l) \<in> ?vs}"
  have "(cb, int pos) \<in> ?vs" using storage_trav_facts(2) [OF verdict_valid(1) [OF valid]] by simp
  then have "(cb, pos) \<in> ?V" by force
  from native.run_covered [OF native_reciprocal [OF recip] storage_closed [OF valid] run native.covered_state [OF this]]
    native_entry_not_covered [OF valid entry]
  obtain ys b k zs l where r: "xs = ys @ (b, k) # zs" "\<forall>z \<in> set zs. \<not> native_stop blocks de reg w z"
    and l: "(b, l) \<in> ?V" "native_index blocks de reg w b l = Some k" by blast
  from l(1) obtain l' where l': "(b, l') \<in> ?vs" "l = nat l'" by blast
  from verdict_valid(2) [OF valid l'(1)] obtain bl where bl: "native_state_block blocks (b, l') = Some bl"
    and fine: "case scan_native de reg w (nb_instructions bl) (nat l') of
           NThrough \<Rightarrow> nb_predecessors bl \<noteq> [] \<and> (\<forall>p \<in> set (nb_predecessors bl). dget blocks p \<noteq> None)
         | NDefinition k \<Rightarrow> True
         | _ \<Rightarrow> False" by (auto simp: state_fine_def)
  have "scan_native de reg w (nb_instructions bl) (nat l') = NDefinition k"
    using fine l(2) native_index_state [OF bl, of de reg w] l'(2)
    by (cases "scan_native de reg w (nb_instructions bl) (nat l')") auto
  moreover have "native_fact blocks (b, k) = Some (nb_instructions bl ! k)"
    using bl native.scan_Some [OF l(2)] l'(2) by (auto simp: native_fact_def native_state_block_Some)
  ultimately show ?thesis using scan_native_definition r by blast
qed

section \<open>Register contents\<close>

text \<open>
  What IDA's register accesses promise about an execution step: an instruction whose accesses are
  known, and that is not a call, changes only bits inside its reported writes. A valuation gives
  the contents of every full register.
\<close>

definition keeps_unwritten :: "native_cfg \<Rightarrow> int \<times> nat \<Rightarrow> (string \<Rightarrow> int) \<Rightarrow> (string \<Rightarrow> int) \<Rightarrow> bool" where
  "keeps_unwritten blocks x v v' \<longleftrightarrow>
     (\<forall>i r n. native_fact blocks x = Some i \<longrightarrow> ni_register_access_known i \<longrightarrow> \<not> ni_is_call i \<longrightarrow>
        (\<forall>wr \<in> set (ni_writes i). rw_full_register wr = r \<longrightarrow>
           \<not> (rw_bit_offset wr \<le> int n \<and> int n < rw_bit_offset wr + rw_bit_size wr)) \<longrightarrow>
        bit (v' r) n = bit (v r) n)"

definition register_slice :: "RegisterSpec \<Rightarrow> int \<Rightarrow> (string \<Rightarrow> int) \<Rightarrow> int" where
  "register_slice register width v =
     drop_bit (nat (rs_bit_offset register)) (v (rs_full_register register)) AND width_mask width"

lemma slice_eqI:
  assumes "0 \<le> width" "0 \<le> rs_bit_offset register"
    "\<And>n. rs_bit_offset register \<le> int n \<Longrightarrow> int n < rs_bit_offset register + width * 8 \<Longrightarrow>
       bit (v' (rs_full_register register)) n = bit (v (rs_full_register register)) n"
  shows "register_slice register width v' = register_slice register width v"
proof -
  have "take_bit (nat (width * 8)) (drop_bit (nat (rs_bit_offset register)) (v' (rs_full_register register))) =
      take_bit (nat (width * 8)) (drop_bit (nat (rs_bit_offset register)) (v (rs_full_register register)))"
    using assms by (intro bit_eqI) (auto simp: bit_take_bit_iff bit_drop_bit_eq)
  then show ?thesis
    using assms(1) by (simp add: register_slice_def mask_take_bit flip: take_bit_eq_mod)
qed

lemma slice_undisturbed:
  assumes "0 \<le> width" "0 \<le> rs_bit_offset register" "keeps_unwritten blocks x v v'"
    "\<not> native_stop blocks de register width x" "native_fact blocks x \<noteq> None"
  shows "register_slice register width v' = register_slice register width v"
proof (rule slice_eqI [OF assms(1,2)])
  fix n
  assume n: "rs_bit_offset register \<le> int n" "int n < rs_bit_offset register + width * 8"
  from assms(4,5) obtain i where i: "native_fact blocks x = Some i" "ni_register_access_known i" "\<not> ni_is_call i"
    "\<not> writes_slice overlaps i register width" by (auto simp: native_stop_def disturbs_def)
  have "\<not> (rw_bit_offset wr \<le> int n \<and> int n < rw_bit_offset wr + rw_bit_size wr)"
    if "wr \<in> set (ni_writes i)" "rw_full_register wr = rs_full_register register" for wr
    using that i(4) n unfolding writes_slice_def overlaps_def by force
  with assms(3) i(1-3) show "bit (v' (rs_full_register register)) n = bit (v (rs_full_register register)) n"
    unfolding keeps_unwritten_def by blast
qed

lemma slice_along:
  assumes "0 \<le> width" "0 \<le> rs_bit_offset register"
    "\<forall>z \<in> set zs. \<not> native_stop blocks de register width z \<and> native_fact blocks z \<noteq> None"
    "length vs = length zs" "\<forall>j < length zs. keeps_unwritten blocks (zs ! j) ((v # vs) ! j) (vs ! j)"
  shows "register_slice register width (last (v # vs)) = register_slice register width v"
  using assms(3-5)
proof (induction zs arbitrary: v vs)
  case (Cons z zs)
  then obtain v1 vs1 where vs: "vs = v1 # vs1" by (cases vs) auto
  have "keeps_unwritten blocks z v v1" using Cons.prems(3) vs by force
  then have "register_slice register width v1 = register_slice register width v"
    using Cons.prems(1) by (intro slice_undisturbed [OF assms(1,2)]) auto
  moreover have "register_slice register width (last (v1 # vs1)) = register_slice register width v1"
  proof (rule Cons.IH)
    show "\<forall>j < length zs. keeps_unwritten blocks (zs ! j) ((v1 # vs1) ! j) (vs1 ! j)"
    proof (intro allI impI)
      fix j assume "j < length zs"
      with Cons.prems(3) [THEN spec, of "Suc j"] vs show "keeps_unwritten blocks (zs ! j) ((v1 # vs1) ! j) (vs1 ! j)" by simp
    qed
  qed (use Cons.prems vs in auto)
  ultimately show ?case using vs by simp
qed simp

lemma run_instructions:
  "flow_run (native_len blocks) (native_succs blocks) p xs q \<Longrightarrow> x \<in> set xs \<Longrightarrow> native_fact blocks x \<noteq> None"
  by (induction rule: flow_run.induct) (auto simp: native_len_def native_fact_def)

text \<open>
  A positive storage verdict is sound: take any run from an entry (a block without predecessors)
  to the current instruction and the register contents along it, where instructions change only
  the bits they report. The run executes the definition instruction, which writes the whole slice,
  and the slice still has at the current instruction the contents it had right after the last
  execution of the definition.
\<close>

lemma register_storage_sound:
  assumes recip: "validate_cfg_reciprocity nb_predecessors nb_successors blocks label = Inr ()"
    and ids: "\<forall>(k, b) \<in> set blocks. nb_block_id b = k"
    and entry: "dget blocks e = Some eb" "nb_predecessors eb = []"
    and valid: "sv_valid (validate_register_storage_cfg blocks de ce reg w)"
    and run: "flow_run (native_len blocks) (native_succs blocks) (e, 0) xs (cb, pos)"
    and here: "native_fact blocks (cb, pos) = Some i" "ni_ea i = ce"
    and width: "0 \<le> w" "0 \<le> rs_bit_offset reg"
    and contents: "length vs = Suc (length xs)" "\<forall>j < length xs. keeps_unwritten blocks (xs ! j) (vs ! j) (vs ! Suc j)"
  shows "\<exists>ys b k zs d. xs = ys @ (b, k) # zs \<and> native_fact blocks (b, k) = Some d \<and> ni_ea d = de \<and>
    writes_slice covers d reg w \<and>
    register_slice reg w (last vs) = register_slice reg w (vs ! Suc (length ys))"
proof -
  from storage_run [OF recip ids entry valid run here] obtain ys b k zs d where
    r: "xs = ys @ (b, k) # zs" "native_fact blocks (b, k) = Some d" "ni_ea d = de" "writes_slice covers d reg w"
    "\<forall>z \<in> set zs. \<not> native_stop blocks de reg w z" by blast
  define vs' where "vs' = drop (Suc (Suc (length ys))) vs"
  have vs: "drop (Suc (length ys)) vs = vs ! Suc (length ys) # vs'"
    using contents(1) r(1) by (simp add: vs'_def Cons_nth_drop_Suc)
  have "register_slice reg w (last (vs ! Suc (length ys) # vs')) = register_slice reg w (vs ! Suc (length ys))"
  proof (rule slice_along [OF width])
    show "\<forall>z \<in> set zs. \<not> native_stop blocks de reg w z \<and> native_fact blocks z \<noteq> None"
      using r(1,5) run_instructions [OF run] by auto
    show "length vs' = length zs" using contents(1) r(1) by (simp add: vs'_def)
    show "\<forall>j < length zs. keeps_unwritten blocks (zs ! j) ((vs ! Suc (length ys) # vs') ! j) (vs' ! j)"
    proof (intro allI impI)
      fix j assume j: "j < length zs"
      have "keeps_unwritten blocks (xs ! (Suc (length ys) + j)) (vs ! (Suc (length ys) + j)) (vs ! Suc (Suc (length ys) + j))"
        using contents(2) j r(1) by simp
      then show "keeps_unwritten blocks (zs ! j) ((vs ! Suc (length ys) # vs') ! j) (vs' ! j)"
        using r(1) contents(1) j unfolding vs [symmetric] by (simp add: vs'_def nth_append)
    qed
  qed
  moreover have "last (vs ! Suc (length ys) # vs') = last vs"
    using contents(1) r(1) unfolding vs [symmetric] by (simp add: last_drop)
  ultimately show ?thesis using r by auto
qed

section \<open>Example\<close>

definition ex_ninsn :: "int \<Rightarrow> RegisterWrite list \<Rightarrow> NativeInstructionFact" where
  "ex_ninsn ea ws = \<lparr>ni_ea = ea, ni_size = 4, ni_writes = ws, ni_is_call = False, ni_register_access_known = True\<rparr>"

definition ex_write :: "string \<Rightarrow> RegisterWrite" where
  "ex_write r = \<lparr>rw_full_register = r, rw_bit_offset = 0, rw_bit_size = 64\<rparr>"

text \<open>
  An entry block that is also the target of a jump has predecessors, so the walk does not recognise
  it as an entry: here the definition lies in the loop body, the verdict is positive, and the run of
  length zero from the entry reaches the current instruction without executing the definition.
\<close>

definition ex_entry_loop :: native_cfg where
  "ex_entry_loop =
     [(0, \<lparr>nb_block_id = 0, nb_start_ea = 100, nb_end_ea = 104, nb_instructions = [ex_ninsn 100 []],
           nb_predecessors = [1], nb_successors = [1]\<rparr>),
      (1, \<lparr>nb_block_id = 1, nb_start_ea = 104, nb_end_ea = 108, nb_instructions = [ex_ninsn 104 [ex_write ''rax'']],
           nb_predecessors = [0], nb_successors = [0]\<rparr>)]"

lemma entry_block_with_predecessor:
  "sv_valid (validate_register_storage_cfg ex_entry_loop 104 100 (mk_spec ''rax'' ''rax'' 8 0) 8) \<and>
   validate_cfg_reciprocity nb_predecessors nb_successors ex_entry_loop ''native'' = Inr () \<and>
   flow_run (native_len ex_entry_loop) (native_succs ex_entry_loop) (0, 0) [] (0, 0)"
proof (intro conjI)
  show "sv_valid (validate_register_storage_cfg ex_entry_loop 104 100 (mk_spec ''rax'' ''rax'' 8 0) 8)" by code_simp
  show "validate_cfg_reciprocity nb_predecessors nb_successors ex_entry_loop ''native'' = Inr ()" by code_simp
qed (rule run_refl)

end
