(* ===== verification/Micro_Code.thy ===== *)
theory Micro_Code
  imports V_Recovery
begin

text \<open>
  The microcode side of the static analysis in \<^verbatim>\<open>ida_plugin/v_variable_recovery.py\<close>. What Hex-Rays
  answers is data: operands, instructions linked by \<^verbatim>\<open>next\<close>, blocks, lvars and visited expressions.
  A method that may be missing is an option, a call that may raise is a result. The definitions
  snapshot these answers, check them, and turn them into the facts that the control-flow queries
  of \<^verbatim>\<open>Cfg_Analysis\<close> work on.
\<close>

section \<open>Calls into IDA\<close>

definition safe_bool_call :: "bool call \<Rightarrow> bool" where
  "safe_bool_call m = (case m of Some (Inr b) \<Rightarrow> b | _ \<Rightarrow> False)"

definition safe_bool_call_with_arg :: "bool call \<Rightarrow> bool" where
  "safe_bool_call_with_arg m = (case m of Some (Inr b) \<Rightarrow> b | _ \<Rightarrow> True)"

text \<open>\<open>str(exc)\<close>.\<close>

fun py_exc_str :: "py_error \<Rightarrow> string" where
  "py_exc_str (ProtocolError m) = m"
| "py_exc_str (ValueError m) = m"
| "py_exc_str (TypeError m) = m"
| "py_exc_str (KeyError k) = repr_str k"
| "py_exc_str (OverflowError m) = m"
| "py_exc_str (JSONDecodeError m) = m"
| "py_exc_str (AttributeError m) = m"
| "py_exc_str (RuntimeError m) = m"
| "py_exc_str (CandidateRejected m) = m"
| "py_exc_str _ = []"

section \<open>Data\<close>

text \<open>
  \<open>mo_l\<close> is the lvar reference of the operand (its \<^verbatim>\<open>idx\<close> and \<^verbatim>\<open>off\<close>), \<open>mi_ops\<close> the operands in the
  order in which \<^verbatim>\<open>for_all_ops\<close> visits them, each with its \<^verbatim>\<open>is_target\<close> flag.
\<close>

datatype mop_type = Mop_l | Mop_n | Mop_other

record mop =
  mo_t :: mop_type
  mo_l :: "(int \<times> int) option"
  mo_size :: int
  mo_unsigned_value :: "int res"
  mo_nnn_value :: "int res"

record minsn =
  mi_ea :: "int option"
  mi_is_mov :: bool
  mi_d :: "mop option"
  mi_l :: "mop option"
  mi_modifies_d :: "bool res"
  mi_is_assert :: "bool res"
  mi_ops :: "(mop \<times> bool) list"
  mi_visit_result :: int

text \<open>
  A block of the microcode array. Nodes of its instruction list are addresses; \<open>mb_id\<close> is \<^verbatim>\<open>id()\<close> of
  the object at an address and \<open>mb_obj_id\<close> its \<^verbatim>\<open>obj_id\<close>, where it has one.
\<close>

record mblock =
  mb_serial :: int
  mb_head :: "nat option"
  mb_tail :: "nat option"
  mb_next :: "nat \<Rightarrow> nat option"
  mb_insn :: "nat \<Rightarrow> minsn"
  mb_id :: "nat \<Rightarrow> int"
  mb_obj_id :: "nat \<Rightarrow> int option"
  mb_npred :: "int call"
  mb_pred :: "(int \<Rightarrow> int res) option"
  mb_nsucc :: "int call"
  mb_succ :: "(int \<Rightarrow> int res) option"

text \<open>An lvar of the microcode: \<open>ml_flag\<close> answers the argument-less boolean methods by name.\<close>

record micro_lvar =
  ml_name :: string
  ml_width :: int
  ml_flag :: "string \<Rightarrow> bool call"
  ml_is_aliasable :: "bool call"
  ml_has_common :: "int \<Rightarrow> bool res"
  ml_get_reg1 :: "int res"
  ml_get_stkoff :: "int res"
  ml_location_stkoff :: "int res"

record mba =
  mb_maturity :: int
  mb_qty :: int
  mb_get_mblock :: "int \<Rightarrow> mblock option res"
  mb_vars_size :: int
  mb_vars_at :: "int \<Rightarrow> micro_lvar res"
  mb_has_apis :: bool
  mb_map_fict_ea :: "(int \<Rightarrow> int res) option"
  mb_stkoff_vd2ida :: "int \<Rightarrow> int res"
  mb_badaddr :: int

record InsnAccess =
  ia_uses :: "int list"
  ia_targets :: "(int \<times> int \<times> int) list"

record MicroBlockData =
  md_block_id :: int
  md_instructions :: "minsn list"
  md_accesses :: "InsnAccess list"
  md_eas :: "int option list"
  md_predecessors :: "int list"
  md_successors :: "int list"

type_synonym micro_blocks = "(int, MicroBlockData) dict"

section \<open>Snapshot of the microcode\<close>

definition real_micro_ea :: "mba \<Rightarrow> int option \<Rightarrow> int option" where
  "real_micro_ea m value =
     (case value of
        None \<Rightarrow> None
      | Some ea \<Rightarrow>
          if ea = mb_badaddr m then None
          else Some (case mb_map_fict_ea m of
                 None \<Rightarrow> ea
               | Some mapper \<Rightarrow>
                   (case mapper ea of
                      Inr mapped \<Rightarrow> if mapped \<noteq> mb_badaddr m then mapped else ea
                    | Inl _ \<Rightarrow> ea)))"

definition node_identity :: "mblock \<Rightarrow> nat \<Rightarrow> int" where
  "node_identity b n = (case mb_obj_id b n of None \<Rightarrow> mb_id b n | Some i \<Rightarrow> i)"

definition is_tail :: "mblock \<Rightarrow> nat \<Rightarrow> nat \<Rightarrow> bool" where
  "is_tail b n t \<longleftrightarrow> n = t \<or> mb_obj_id b n \<noteq> None \<and> mb_obj_id b n = mb_obj_id b t"

text \<open>
  The walk along the instruction list: the first argument is what is left of the cap of 100000
  instructions, \<open>seen\<close> the identities met so far.
\<close>

fun top_loop :: "nat \<Rightarrow> mblock \<Rightarrow> nat option \<Rightarrow> int list \<Rightarrow> nat option \<Rightarrow> nat list res" where
  "top_loop left b t seen None = Inl (RuntimeError ''microcode instruction list ended before tail'')"
| "top_loop 0 b t seen (Some n) = Inl (RuntimeError ''microcode instruction list cap exceeded'')"
| "top_loop (Suc left) b t seen (Some n) =
     (if node_identity b n \<in> set seen then Inl (RuntimeError ''cycle in microcode instruction list'')
      else if (case t of Some tn \<Rightarrow> is_tail b n tn | None \<Rightarrow> False) then Inr [n]
      else res_bind (top_loop left b t (node_identity b n # seen) (mb_next b n)) (\<lambda>ns. Inr (n # ns)))"

definition top_instructions :: "mblock \<Rightarrow> nat list res" where
  "top_instructions b =
     (if (mb_head b = None) \<noteq> (mb_tail b = None)
      then Inl (RuntimeError ''incomplete microcode instruction list endpoints'')
      else if mb_head b = None then Inr []
      else top_loop 100000 b (mb_tail b) [] (mb_head b))"

text \<open>The visitor of \<^verbatim>\<open>_collect_lvar_accesses\<close>; the set of uses is a list without repetitions.\<close>

definition visit_mop :: "mop \<times> bool \<Rightarrow> InsnAccess \<Rightarrow> InsnAccess" where
  "visit_mop v a =
     (case v of (op, is_target) \<Rightarrow>
        if mo_t op \<noteq> Mop_l then a
        else case mo_l op of
               None \<Rightarrow> a
             | Some (index, offset) \<Rightarrow>
                 if is_target then a\<lparr>ia_targets := ia_targets a @ [(index, offset, mo_size op)]\<rparr>
                 else a\<lparr>ia_uses := List.insert index (ia_uses a)\<rparr>)"

definition collect_lvar_accesses :: "minsn \<Rightarrow> InsnAccess res" where
  "collect_lvar_accesses insn =
     (if mi_visit_result insn \<noteq> 0
      then Inl (RuntimeError (''microcode operand visitor stopped with result='' @ str_int (mi_visit_result insn)))
      else Inr (fold visit_mop (mi_ops insn) \<lparr>ia_uses = [], ia_targets = []\<rparr>))"

definition micro_edge_ids ::
    "string \<Rightarrow> string \<Rightarrow> int call \<Rightarrow> (int \<Rightarrow> int res) option \<Rightarrow> int \<Rightarrow> int list res" where
  "micro_edge_ids count_method_name edge_method_name count_method edge_method qty =
     (case (count_method, edge_method) of
        (Some count_result, Some edge_of) \<Rightarrow>
          res_bind count_result (\<lambda>count.
            if count < 0 \<or> count > qty
            then Inl (RuntimeError (''invalid microcode edge count '' @ str_int count))
            else res_bind
              (collect_all (\<lambda>edge_index. res_bind (edge_of edge_index) (\<lambda>edge_id.
                 if edge_id < 0 \<or> edge_id \<ge> qty
                 then Inl (RuntimeError (''invalid microcode edge serial '' @ str_int edge_id))
                 else Inr edge_id)) [0..count - 1])
              (\<lambda>edge_ids. Inr (sort (remdups edge_ids))))
      | _ \<Rightarrow> Inl (RuntimeError (''microcode CFG API missing '' @ count_method_name @ ''/'' @ edge_method_name)))"

definition micro_block_data :: "mba \<Rightarrow> int \<Rightarrow> MicroBlockData res" where
  "micro_block_data m serial =
     res_bind (mb_get_mblock m serial) (\<lambda>answer.
       case (case answer of None \<Rightarrow> None | Some b \<Rightarrow> if mb_serial b \<noteq> serial then None else Some b) of
         None \<Rightarrow> Inl (RuntimeError (''microcode block serial mismatch at '' @ str_int serial))
       | Some b \<Rightarrow>
           res_bind (top_instructions b) (\<lambda>nodes.
           res_bind (micro_edge_ids ''npred'' ''pred'' (mb_npred b) (mb_pred b) (mb_qty m)) (\<lambda>predecessors.
           res_bind (micro_edge_ids ''nsucc'' ''succ'' (mb_nsucc b) (mb_succ b) (mb_qty m)) (\<lambda>successors.
             let instructions = map (mb_insn b) nodes
             in res_bind (collect_all collect_lvar_accesses instructions) (\<lambda>accesses.
                  Inr \<lparr>md_block_id = serial, md_instructions = instructions, md_accesses = accesses,
                       md_eas = map (\<lambda>insn. real_micro_ea m (mi_ea insn)) instructions,
                       md_predecessors = predecessors, md_successors = successors\<rparr>)))))"

definition collect_micro_blocks :: "mba \<Rightarrow> micro_blocks res" where
  "collect_micro_blocks m =
     (if mb_qty m \<le> 0 then Inl (RuntimeError ''microcode CFG has no blocks'')
      else res_bind (collect_all (micro_block_data m) [0..mb_qty m - 1]) (\<lambda>datas.
        let blocks = map (\<lambda>d. (md_block_id d, d)) datas
        in res_bind (validate_cfg_reciprocity md_predecessors md_successors blocks ''microcode'')
             (\<lambda>_. Inr blocks)))"

section \<open>The current point and the facts about one lvar\<close>

definition positions_of :: "int \<Rightarrow> MicroBlockData \<Rightarrow> nat list" where
  "positions_of current_ea block =
     map fst (filter (\<lambda>(position, ea). ea = Some current_ea) (List.enumerate 0 (md_eas block)))"

text \<open>The loop over the blocks; \<open>None\<close> is the early return for a run that is not contiguous.\<close>

fun point_matches :: "int \<Rightarrow> MicroBlockData list \<Rightarrow> (MicroBlockData \<times> nat list) list option" where
  "point_matches current_ea [] = Some []"
| "point_matches current_ea (block # blocks) =
     (let positions = positions_of current_ea block
      in if positions = [] then point_matches current_ea blocks
         else if positions \<noteq> [hd positions..<Suc (last positions)] then None
         else map_option (\<lambda>matches. (block, positions) # matches) (point_matches current_ea blocks))"

definition find_exact_microcode_point :: "micro_blocks \<Rightarrow> int \<Rightarrow> (MicroBlockData \<times> int) option" where
  "find_exact_microcode_point blocks current_ea =
     (case point_matches current_ea (dvals blocks) of
        Some [(block, positions)] \<Rightarrow> Some (block, int (hd positions))
      | _ \<Rightarrow> None)"

definition is_whole_lvar_definition :: "minsn \<Rightarrow> int \<Rightarrow> int \<Rightarrow> bool" where
  "is_whole_lvar_definition insn index width =
     (case mi_modifies_d insn of
        Inr True \<Rightarrow>
          (case mi_d insn of
             None \<Rightarrow> False
           | Some destination \<Rightarrow>
               mo_t destination = Mop_l \<and>
               (case mo_l destination of
                  None \<Rightarrow> False
                | Some (idx, off) \<Rightarrow> idx = index \<and> off = 0 \<and> mo_size destination = width))
      | _ \<Rightarrow> False)"

definition direct_constant_definition :: "minsn \<Rightarrow> int \<Rightarrow> int \<Rightarrow> int option" where
  "direct_constant_definition insn index width =
     (if \<not> is_whole_lvar_definition insn index width \<or> \<not> mi_is_mov insn then None
      else case mi_l insn of
             None \<Rightarrow> None
           | Some source \<Rightarrow>
               if mo_t source \<noteq> Mop_n \<or> mo_size source \<notin> {width, 0} then None
               else case mo_unsigned_value source of
                      Inr v \<Rightarrow> Some v
                    | Inl _ \<Rightarrow> (case mo_nnn_value source of Inr v \<Rightarrow> Some v | Inl _ \<Rightarrow> None))"

text \<open>Whether a written operand makes the instruction an overlapping definition of the lvar.\<close>

definition target_overlaps :: "mba \<Rightarrow> micro_lvar \<Rightarrow> int \<Rightarrow> int \<Rightarrow> bool \<Rightarrow> int \<times> int \<times> int \<Rightarrow> bool" where
  "target_overlaps m target_lvar index width whole_definition target =
     (case target of (other_index, offset, sz) \<Rightarrow>
        if other_index = index then \<not> (whole_definition \<and> offset = 0 \<and> sz = width)
        else case mb_vars_at m other_index of
               Inl _ \<Rightarrow> True
             | Inr other_lvar \<Rightarrow>
                 (case ml_has_common target_lvar other_index of Inr b \<Rightarrow> b | Inl _ \<Rightarrow> True))"

definition instruction_fact ::
    "mba \<Rightarrow> micro_lvar \<Rightarrow> int \<Rightarrow> int \<Rightarrow> minsn \<times> InsnAccess \<times> int option \<Rightarrow> CfgInstructionFact" where
  "instruction_fact m target_lvar index width x =
     (case x of (instruction, access, ea) \<Rightarrow>
        let whole_definition = is_whole_lvar_definition instruction index width
        in \<lparr>ci_ea = ea, ci_whole_definition = whole_definition,
            ci_overlapping_definition =
              list_ex (target_overlaps m target_lvar index width whole_definition) (ia_targets access),
            ci_use = (index \<in> set (ia_uses access))\<rparr>)"

definition candidate_cfg_facts :: "mba \<Rightarrow> micro_lvar \<Rightarrow> int \<Rightarrow> int \<Rightarrow> micro_blocks \<Rightarrow> micro_cfg" where
  "candidate_cfg_facts m target_lvar index width blocks =
     map (\<lambda>(block_id, block).
        (block_id,
         \<lparr>cb_block_id = block_id,
          cb_instructions = map (instruction_fact m target_lvar index width)
            (zip (md_instructions block) (zip (md_accesses block) (md_eas block))),
          cb_predecessors = md_predecessors block, cb_successors = md_successors block\<rparr>)) blocks"

text \<open>\<^verbatim>\<open>_validate_straight_line_micro_range\<close>: the real addresses of a range, \<open>None\<close> for the early returns.\<close>

fun straight_line_eas :: "mba \<Rightarrow> int \<times> int \<Rightarrow> minsn list \<Rightarrow> int list option" where
  "straight_line_eas m bounds [] = Some []"
| "straight_line_eas m bounds (instruction # rest) =
     (case real_micro_ea m (mi_ea instruction) of
        None \<Rightarrow> if mi_is_assert instruction = Inr True then straight_line_eas m bounds rest else None
      | Some ea \<Rightarrow>
          if \<not> (fst bounds \<le> ea \<and> ea < snd bounds) then None
          else map_option (\<lambda>eas. ea # eas) (straight_line_eas m bounds rest))"

definition validate_straight_line_micro_range ::
    "mba \<Rightarrow> minsn list \<Rightarrow> nat \<Rightarrow> nat \<Rightarrow> int \<times> int \<Rightarrow> int \<Rightarrow> bool" where
  "validate_straight_line_micro_range m instructions start end_pos native_bounds current_ea =
     (case straight_line_eas m native_bounds (map ((!) instructions) [start..<Suc end_pos]) of
        None \<Rightarrow> False
      | Some real_eas \<Rightarrow>
          real_eas \<noteq> [] \<and> sorted real_eas \<and> hd real_eas < current_ea \<and> current_ea \<le> last real_eas)"

section \<open>Registers of an lvar\<close>

text \<open>
  \<open>mreg_name\<close>, \<open>mreg2reg\<close> and \<open>reg_name\<close> are \<^verbatim>\<open>get_mreg_name\<close>, \<^verbatim>\<open>mreg2reg\<close> and \<^verbatim>\<open>get_reg_name\<close> of IDA.
\<close>

record register_apis =
  ap_get_mreg_name :: "int \<Rightarrow> int \<Rightarrow> string res"
  ap_mreg2reg :: "int \<Rightarrow> int \<Rightarrow> int res"
  ap_get_reg_name :: "int \<Rightarrow> int \<Rightarrow> string res"

definition register_names :: "register_apis \<Rightarrow> int \<Rightarrow> int \<Rightarrow> string list" where
  "register_names ap micro_register width =
     (case ap_get_mreg_name ap micro_register width of Inr name \<Rightarrow> [name] | Inl _ \<Rightarrow> []) @
     (case ap_mreg2reg ap micro_register width of
        Inr processor_register \<Rightarrow>
          if processor_register \<ge> 0
          then (case ap_get_reg_name ap processor_register width of Inr name \<Rightarrow> [name] | Inl _ \<Rightarrow> [])
          else []
      | Inl _ \<Rightarrow> [])"

fun first_fitting_spec :: "int \<Rightarrow> string list \<Rightarrow> RegisterSpec option" where
  "first_fitting_spec width [] = None"
| "first_fitting_spec width (name # names) =
     (case normalize_register_alias name of
        Some spec \<Rightarrow> if width \<le> rs_width spec then Some spec else first_fitting_spec width names
      | None \<Rightarrow> first_fitting_spec width names)"

definition register_spec_from_lvar :: "register_apis \<Rightarrow> micro_lvar \<Rightarrow> int \<Rightarrow> RegisterSpec option" where
  "register_spec_from_lvar ap lvar width =
     (if \<not> safe_bool_call (ml_flag lvar ''is_reg1'') \<or> safe_bool_call (ml_flag lvar ''is_reg2'') then None
      else case ml_get_reg1 lvar of
             Inl _ \<Rightarrow> None
           | Inr micro_register \<Rightarrow> first_fitting_spec width (register_names ap micro_register width))"

section \<open>The expression tree\<close>

text \<open>
  An expression met by the visitor, with what the code asks of it and of its parent. An object is
  its identity and its \<^verbatim>\<open>obj_id\<close>; operators are named as in \<^verbatim>\<open>ida_hexrays\<close>.
\<close>

type_synonym swig_object = "int \<times> int option"

record ctree_parent =
  cp_op :: string
  cp_x :: "swig_object option"
  cp_y_op :: "string option"
  cp_y_numval :: "int res"
  cp_ea :: "int option"

record ctree_expr =
  ce_object :: swig_object
  ce_op :: string
  ce_v :: "int option"
  ce_ea :: "int option"
  ce_parent :: "ctree_parent option"

record CtreeFact =
  cf_lvar_index :: int
  cf_kind :: string
  cf_ea :: "int option"
  cf_constant_value :: "int option"

definition same_swig_object :: "swig_object option \<Rightarrow> swig_object \<Rightarrow> bool" where
  "same_swig_object left right =
     (case left of
        None \<Rightarrow> False
      | Some l \<Rightarrow> fst l = fst right \<or> snd l \<noteq> None \<and> snd l = snd right)"

definition assignment_op_names :: "string list" where
  "assignment_op_names = [''cot_asg'', ''cot_asgbor'', ''cot_asgxor'', ''cot_asgband'', ''cot_asgadd'', ''cot_asgsub'',
     ''cot_asgmul'', ''cot_asgsshr'', ''cot_asgushr'', ''cot_asgshl'', ''cot_asgsdiv'', ''cot_asgudiv'',
     ''cot_asgsmod'', ''cot_asgumod'']"

text \<open>\<open>a or b\<close> on optional addresses: zero counts as absent.\<close>

definition ea_or :: "int option \<Rightarrow> int option \<Rightarrow> int option" where
  "ea_or a b = (if a = None \<or> a = Some 0 then b else a)"

definition visit_expr :: "mba \<Rightarrow> (string \<Rightarrow> bool) \<Rightarrow> ctree_expr \<Rightarrow> CtreeFact list" where
  "visit_expr m has_name expression =
     (if ce_op expression \<noteq> ''cot_var'' then []
      else case ce_v expression of
             None \<Rightarrow> []
           | Some index \<Rightarrow>
               let ea = real_micro_ea m (ce_ea expression);
                   a_use = [\<lparr>cf_lvar_index = index, cf_kind = ''use'', cf_ea = ea, cf_constant_value = None\<rparr>]
               in case ce_parent expression of
                    None \<Rightarrow> a_use
                  | Some parent \<Rightarrow>
                      if cp_op parent \<in> set (filter has_name assignment_op_names) \<and>
                         same_swig_object (cp_x parent) (ce_object expression)
                      then let parent_ea = ea_or (real_micro_ea m (cp_ea parent)) ea
                           in if cp_op parent = ''cot_asg'' \<and> cp_y_op parent = Some ''cot_num''
                              then [\<lparr>cf_lvar_index = index, cf_kind = ''constant_def'', cf_ea = parent_ea,
                                     cf_constant_value = (case cp_y_numval parent of Inr v \<Rightarrow> Some v | Inl _ \<Rightarrow> None)\<rparr>]
                              else [\<lparr>cf_lvar_index = index, cf_kind = ''def'', cf_ea = parent_ea,
                                     cf_constant_value = None\<rparr>]
                      else a_use)"

definition collect_ctree_facts ::
    "mba \<Rightarrow> (string \<Rightarrow> bool) \<Rightarrow> ctree_expr list res \<Rightarrow> CtreeFact list" where
  "collect_ctree_facts m has_name visited =
     (if \<not> list_all has_name [''ctree_visitor_t'', ''CV_PARENTS'', ''cot_var'', ''cot_num'', ''cot_asg''] then []
      else case visited of Inl _ \<Rightarrow> [] | Inr expressions \<Rightarrow> concat (map (visit_expr m has_name) expressions))"

definition mask_value :: "int \<Rightarrow> int \<Rightarrow> int" where
  "mask_value value width = value AND (push_bit (nat (width * 8)) 1 - 1)"

end
