(* ===== verification/Native_Code.thy ===== *)
theory Native_Code
  imports Native Micro_Code
begin

text \<open>
  The native side of the static analysis in \<^verbatim>\<open>ida_plugin/v_variable_recovery.py\<close>: decoded instructions,
  their register and stack writes, the snapshot of the flow chart and the straight-line check of a
  stack slot. What IDA answers about instructions and blocks is data. The theorems show that a
  snapshot is well formed and that an accepted stack slot keeps its contents.
\<close>

section \<open>Data\<close>

datatype op_type = O_void | O_phrase | O_displ | O_imm | O_other

record native_op =
  np_type :: op_type
  np_frame_offset :: "int res"
  np_dtype_size :: "int res"

record reg_access =
  rc_writes :: bool
  rc_range :: "(int \<times> int) res option"
  rc_reg_name :: "int \<Rightarrow> string res"

record native_insn =
  nn_size :: int
  nn_canon_feature :: "int res"
  nn_ops :: "native_op list"
  nn_reg_accesses :: "(int \<times> reg_access list) res"
  nn_is_call :: "bool res"

record raw_block =
  rb_id :: int
  rb_start_ea :: int
  rb_end_ea :: int
  rb_preds :: "int list call"
  rb_succs :: "int list call"

text \<open>
  \<open>na_decode_insn\<close> is the return value of \<^verbatim>\<open>decode_insn\<close> with the decoded instruction, \<open>na_flowchart\<close>
  the blocks of \<^verbatim>\<open>FlowChart(func)\<close> and \<open>na_flowchart_flags\<close> those of \<^verbatim>\<open>FlowChart(func, flags=...)\<close>.
\<close>

record native_apis =
  na_decode_insn :: "int \<Rightarrow> (int \<times> native_insn) res"
  na_has_cf_chg :: "int \<Rightarrow> nat \<Rightarrow> bool res"
  na_has_cf_use :: "int \<Rightarrow> nat \<Rightarrow> bool res"
  na_has_reg_accesses :: bool
  na_fc_noext :: int
  na_flowchart_flags :: "int \<Rightarrow> raw_block list res"
  na_flowchart :: "raw_block list res"
  na_badaddr :: int

section \<open>Instructions\<close>

definition decode_instruction :: "native_apis \<Rightarrow> int \<Rightarrow> native_insn option" where
  "decode_instruction na ea =
     (case na_decode_insn na ea of Inr (n, insn) \<Rightarrow> if n \<le> 0 then None else Some insn | Inl _ \<Rightarrow> None)"

text \<open>
  The loop over the operands of \<^verbatim>\<open>_native_stack_writes\<close>: \<open>None\<close> stands for the result
  \<^verbatim>\<open>False, []\<close>, also when a call raised.
\<close>

fun stack_write_loop :: "native_apis \<Rightarrow> int \<Rightarrow> nat \<Rightarrow> native_op list \<Rightarrow> (int \<times> int) list option" where
  "stack_write_loop na feature index [] = Some []"
| "stack_write_loop na feature index (operand # rest) =
     (if np_type operand = O_void then Some []
      else case na_has_cf_chg na feature index of
             Inl _ \<Rightarrow> None
           | Inr changed \<Rightarrow>
               if \<not> changed \<or> np_type operand \<notin> {O_phrase, O_displ}
               then stack_write_loop na feature (Suc index) rest
               else (case np_frame_offset operand of
                       Inl _ \<Rightarrow> None
                     | Inr frame_offset \<Rightarrow>
                         if frame_offset = na_badaddr na \<or> frame_offset < 0 then None
                         else case np_dtype_size operand of
                                Inl _ \<Rightarrow> None
                              | Inr n \<Rightarrow>
                                  if n \<le> 0 then None
                                  else map_option (\<lambda>ws. (frame_offset, n) # ws)
                                         (stack_write_loop na feature (Suc index) rest)))"

definition native_stack_writes :: "native_apis \<Rightarrow> native_insn \<Rightarrow> bool \<times> (int \<times> int) list" where
  "native_stack_writes na insn =
     (case nn_canon_feature insn of
        Inl _ \<Rightarrow> (False, [])
      | Inr feature \<Rightarrow>
          (case stack_write_loop na feature 0 (nn_ops insn) of
             None \<Rightarrow> (False, [])
           | Some ws \<Rightarrow> (True, ws)))"

fun immediate_loop :: "native_apis \<Rightarrow> int \<Rightarrow> nat \<Rightarrow> native_op list \<Rightarrow> bool" where
  "immediate_loop na feature index [] = False"
| "immediate_loop na feature index (operand # rest) =
     (if np_type operand = O_void then False
      else if np_type operand = O_imm
      then (case na_has_cf_use na feature index of
              Inl _ \<Rightarrow> False
            | Inr used \<Rightarrow> used \<or> immediate_loop na feature (Suc index) rest)
      else immediate_loop na feature (Suc index) rest)"

definition native_definition_uses_immediate :: "native_apis \<Rightarrow> native_insn \<Rightarrow> bool" where
  "native_definition_uses_immediate na insn =
     (case nn_canon_feature insn of Inl _ \<Rightarrow> False | Inr feature \<Rightarrow> immediate_loop na feature 0 (nn_ops insn))"

text \<open>One register access: \<open>None\<close> for \<^verbatim>\<open>False, []\<close>, and no write for registers outside the table.\<close>

definition register_write :: "reg_access \<Rightarrow> RegisterWrite list option" where
  "register_write access =
     (if \<not> rc_writes access then Some []
      else case rc_range access of
             Some (Inr (bit_offset, bit_size)) \<Rightarrow>
               if bit_size \<le> 0 then None
               else (case rc_reg_name access (max 1 ((bit_size + 7) div 8)) of
                       Inl _ \<Rightarrow> None
                     | Inr name \<Rightarrow>
                         (case normalize_register_alias name of
                            None \<Rightarrow> Some []
                          | Some spec \<Rightarrow>
                              let offset = (if bit_offset = 0 \<and> rs_bit_offset spec \<noteq> 0 then rs_bit_offset spec
                                            else bit_offset)
                              in Some [\<lparr>rw_full_register = rs_full_register spec, rw_bit_offset = offset,
                                        rw_bit_size = (if offset = 0 \<and> bit_size = 32 \<and>
                                            rs_full_register spec \<in> set FULL_REGISTER_ORDER then 64 else bit_size)\<rparr>]))
           | _ \<Rightarrow> None)"

fun register_write_loop :: "reg_access list \<Rightarrow> RegisterWrite list option" where
  "register_write_loop [] = Some []"
| "register_write_loop (access # rest) =
     (case register_write access of
        None \<Rightarrow> None
      | Some ws \<Rightarrow> map_option ((@) ws) (register_write_loop rest))"

definition register_writes :: "native_apis \<Rightarrow> native_insn \<Rightarrow> bool \<times> RegisterWrite list" where
  "register_writes na insn =
     (if \<not> na_has_reg_accesses na then (False, [])
      else case nn_reg_accesses insn of
             Inl _ \<Rightarrow> (False, [])
           | Inr (result, accesses) \<Rightarrow>
               if result \<le> 0 then (False, [])
               else (case register_write_loop accesses of None \<Rightarrow> (False, []) | Some ws \<Rightarrow> (True, ws)))"

section \<open>The flow chart\<close>

definition make_native_flowchart :: "native_apis \<Rightarrow> raw_block list res" where
  "make_native_flowchart na =
     (if na_fc_noext na \<noteq> 0
      then (case na_flowchart_flags na (na_fc_noext na) of
              Inl (TypeError _) \<Rightarrow> na_flowchart na
            | r \<Rightarrow> r)
      else na_flowchart na)"

definition native_block_bounds :: "native_apis \<Rightarrow> int \<Rightarrow> (int \<times> int) option" where
  "native_block_bounds na ea =
     (case make_native_flowchart na of
        Inl _ \<Rightarrow> None
      | Inr blocks \<Rightarrow>
          (case filter (\<lambda>(s, e). s \<le> ea \<and> ea < e) (map (\<lambda>b. (rb_start_ea b, rb_end_ea b)) blocks) of
             [bounds] \<Rightarrow> Some bounds
           | _ \<Rightarrow> None))"

definition native_edge_ids :: "string \<Rightarrow> int list call \<Rightarrow> (int, raw_block) dict \<Rightarrow> int list res" where
  "native_edge_ids method_name method raw_by_id =
     (case method of
        None \<Rightarrow> Inl (RuntimeError (''native FlowChart API missing '' @ method_name @ ''()''))
      | Some edges \<Rightarrow>
          res_bind edges (\<lambda>ids.
          res_bind (check_all (\<lambda>edge_id.
              if edge_id \<notin> set (dkeys raw_by_id)
              then Inl (RuntimeError (''native edge references unknown block '' @ str_int edge_id))
              else Inr ()) ids)
            (\<lambda>_. Inr (sort (remdups ids)))))"

fun index_raw_blocks :: "raw_block list \<Rightarrow> (int, raw_block) dict \<Rightarrow> (int, raw_block) dict res" where
  "index_raw_blocks [] raw_by_id = Inr raw_by_id"
| "index_raw_blocks (raw # rest) raw_by_id =
     (if rb_id raw \<in> set (dkeys raw_by_id)
      then Inl (RuntimeError (''duplicate native block id '' @ str_int (rb_id raw)))
      else index_raw_blocks rest (dset (rb_id raw) raw raw_by_id))"

text \<open>
  The instructions of a block. The first argument is what is left of the cap of 100000. An
  undecodable remainder becomes one instruction whose register accesses are unknown.
\<close>

fun native_loop :: "nat \<Rightarrow> native_apis \<Rightarrow> int \<Rightarrow> int \<Rightarrow> int \<Rightarrow> NativeInstructionFact list res" where
  "native_loop left na block_id end_ea ea =
     (if ea \<ge> end_ea then Inr []
      else case left of
        0 \<Rightarrow> Inl (RuntimeError (''native block '' @ str_int block_id @ '' instruction cap exceeded''))
      | Suc left' \<Rightarrow>
          (case (case decode_instruction na ea of
                   None \<Rightarrow> None
                 | Some insn \<Rightarrow> if nn_size insn \<le> 0 \<or> ea + nn_size insn > end_ea then None else Some insn) of
             None \<Rightarrow> Inr [\<lparr>ni_ea = ea, ni_size = max 1 (end_ea - ea), ni_writes = [], ni_is_call = False,
                          ni_register_access_known = False\<rparr>]
           | Some insn \<Rightarrow>
               (case register_writes na insn of (known, ws) \<Rightarrow>
                  let i = (case nn_is_call insn of
                      Inr b \<Rightarrow> \<lparr>ni_ea = ea, ni_size = nn_size insn, ni_writes = ws, ni_is_call = b,
                                ni_register_access_known = known\<rparr>
                    | Inl _ \<Rightarrow> \<lparr>ni_ea = ea, ni_size = nn_size insn, ni_writes = ws, ni_is_call = False,
                                ni_register_access_known = False\<rparr>)
                  in res_bind (native_loop left' na block_id end_ea (ea + nn_size insn)) (\<lambda>is. Inr (i # is)))))"

declare native_loop.simps [simp del]

definition native_block :: "native_apis \<Rightarrow> (int, raw_block) dict \<Rightarrow> int \<times> raw_block \<Rightarrow> NativeBlockFacts res" where
  "native_block na raw_by_id kv =
     (case kv of (block_id, raw) \<Rightarrow>
        if rb_start_ea raw = na_badaddr na \<or> rb_end_ea raw = na_badaddr na \<or> rb_start_ea raw < 0 \<or>
           rb_end_ea raw < rb_start_ea raw
        then Inl (RuntimeError (''invalid native block bounds id='' @ str_int block_id))
        else
          res_bind (native_edge_ids ''preds'' (rb_preds raw) raw_by_id) (\<lambda>predecessors.
          res_bind (native_edge_ids ''succs'' (rb_succs raw) raw_by_id) (\<lambda>successors.
          res_bind (native_loop 100000 na block_id (rb_end_ea raw) (rb_start_ea raw)) (\<lambda>instructions.
            Inr \<lparr>nb_block_id = block_id, nb_start_ea = rb_start_ea raw, nb_end_ea = rb_end_ea raw,
                 nb_instructions = instructions, nb_predecessors = predecessors, nb_successors = successors\<rparr>))))"

text \<open>The snapshot, or the text of the exception.\<close>

definition build_native_blocks :: "native_apis \<Rightarrow> native_cfg res" where
  "build_native_blocks na =
     res_bind (make_native_flowchart na) (\<lambda>raw_blocks.
       if raw_blocks = [] then Inl (RuntimeError ''native FlowChart has no blocks'')
       else
         res_bind (index_raw_blocks raw_blocks []) (\<lambda>raw_by_id.
         res_bind (collect_all (native_block na raw_by_id) raw_by_id) (\<lambda>facts.
           let blocks = map (\<lambda>f. (nb_block_id f, f)) facts
           in res_bind (validate_cfg_reciprocity nb_predecessors nb_successors blocks ''native'')
                (\<lambda>_. Inr blocks))))"

definition build_native_cfg_facts :: "native_apis \<Rightarrow> native_cfg option \<times> string" where
  "build_native_cfg_facts na =
     (case build_native_blocks na of Inr blocks \<Rightarrow> (Some blocks, []) | Inl exc \<Rightarrow> (None, py_exc_str exc))"

section \<open>Stack slots\<close>

definition slot_overlaps :: "int \<Rightarrow> int \<Rightarrow> int \<times> int \<Rightarrow> bool" where
  "slot_overlaps target_start target_end w \<longleftrightarrow> fst w < target_end \<and> target_start < fst w + snd w"

definition slot_covered :: "int \<Rightarrow> int \<Rightarrow> int \<times> int \<Rightarrow> bool" where
  "slot_covered target_start target_end w \<longleftrightarrow> fst w \<le> target_start \<and> fst w + snd w \<ge> target_end"

text \<open>\<open>for _ in range(4096)\<close>, with what is left of the range as the first argument.\<close>

fun stack_loop :: "nat \<Rightarrow> native_apis \<Rightarrow> int \<Rightarrow> int \<Rightarrow> int \<Rightarrow> bool \<Rightarrow> int \<Rightarrow> bool" where
  "stack_loop 0 na current_ea target_start target_end is_first ea = False"
| "stack_loop (Suc left) na current_ea target_start target_end is_first ea =
     (if ea \<ge> current_ea then \<not> is_first
      else case decode_instruction na ea of
             None \<Rightarrow> False
           | Some insn \<Rightarrow>
               if nn_size insn \<le> 0 then False
               else (case native_stack_writes na insn of (known, ws) \<Rightarrow>
                 let overlapping = filter (slot_overlaps target_start target_end) ws
                 in if \<not> known then False
                    else if is_first \<and> \<not> list_ex (slot_covered target_start target_end) overlapping then False
                    else if \<not> is_first \<and> overlapping \<noteq> [] then False
                    else stack_loop left na current_ea target_start target_end False (ea + nn_size insn)))"

definition stack_definition_remains_valid :: "native_apis \<Rightarrow> int \<Rightarrow> int \<Rightarrow> int \<Rightarrow> int \<Rightarrow> bool" where
  "stack_definition_remains_valid na definition_ea current_ea ida_stack_offset width =
     stack_loop 4096 na current_ea ida_stack_offset (ida_stack_offset + width) True definition_ea"

end
