(* ===== verification/V_Static.thy ===== *)
theory V_Static
  imports Native_Code
begin

text \<open>
  The static analysis of \<^verbatim>\<open>ida_plugin/v_variable_recovery.py\<close>, \<^verbatim>\<open>analyze_v_variable_candidates\<close>: it
  snapshots microcode and native code, proves for each lvar that a single definition reaches the
  current point, that the value is still used and that its storage is intact, and rejects
  storage that two lvars claim. What IDA answers is the record \<open>static_apis\<close>. A debug line is
  a text; the lines of a candidate are collected even when it is rejected.
\<close>

definition REASON_SCATTERED :: string where "REASON_SCATTERED = ''unsupported_scattered_location''"
definition REASON_AMBIGUOUS_REGISTER :: string where "REASON_AMBIGUOUS_REGISTER = ''ambiguous_register_location''"

section \<open>What IDA answers\<close>

text \<open>The answers about one function; \<open>fn_native\<close> are the native answers, asked with that function.\<close>

record static_func =
  fn_start_ea :: int
  fn_bits :: "int res"
  fn_analyzed_sp :: "bool call"
  fn_flags :: int
  fn_get_spd :: "int \<Rightarrow> int res"
  fn_frame_off_retaddr :: "int res"
  fn_native :: native_apis

record 'cf static_apis =
  st_modules :: bool
  st_has_name :: "string \<Rightarrow> bool"
  st_ph_get_id :: "int call"
  st_plfm_386 :: "int option"
  st_mmat_lvars :: int
  st_fuzzy_sp :: int
  st_get_func :: "int \<Rightarrow> static_func option res"
  st_decompile :: "int \<Rightarrow> 'cf option res"
  st_mba :: "'cf \<Rightarrow> mba option"
  st_ctree :: "'cf \<Rightarrow> ctree_expr list res"
  st_stkoff_delta :: "'cf \<Rightarrow> int res"
  st_registers :: register_apis

section \<open>Stack location\<close>

definition rejected :: "string \<Rightarrow> 'a res" where
  "rejected reason = Inl (CandidateRejected reason)"

text \<open>The offset of a slot from the current stack pointer, given its offset in the frame.\<close>

definition rsp_offset_of :: "static_func \<Rightarrow> int \<Rightarrow> int res \<Rightarrow> (int \<times> int) res" where
  "rsp_offset_of func current_ea ida_offset_res =
     res_bind ida_offset_res (\<lambda>ida_offset.
     res_bind (fn_get_spd func current_ea) (\<lambda>sp_delta.
     res_bind (fn_frame_off_retaddr func) (\<lambda>return_offset.
       Inr (- sp_delta + ida_offset - return_offset, ida_offset))))"

definition current_rsp_location_for_lvar ::
    "'cf static_apis \<Rightarrow> micro_lvar \<Rightarrow> mba \<Rightarrow> 'cf \<Rightarrow> static_func \<Rightarrow> int \<Rightarrow> (int \<times> int) res" where
  "current_rsp_location_for_lvar st lvar m cf func current_ea =
     res_bind (case fn_analyzed_sp func of None \<Rightarrow> Inr False | Some r \<Rightarrow> r) (\<lambda>analyzed.
       if \<not> analyzed then rejected REASON_UNRESOLVED_STACK
       else if st_fuzzy_sp st \<noteq> 0 \<and> fn_flags func AND st_fuzzy_sp st \<noteq> 0 then rejected REASON_UNRESOLVED_STACK
       else
         let direct = rsp_offset_of func current_ea
               (res_bind (ml_get_stkoff lvar) (\<lambda>vd_offset.
                  if vd_offset < 0 then Inl (ValueError ''negative decompiler stack offset'')
                  else mb_stkoff_vd2ida m vd_offset));
             printed = rsp_offset_of func current_ea
               (res_bind (ml_location_stkoff lvar) (\<lambda>raw_stack_offset.
                res_bind (st_stkoff_delta st cf) (\<lambda>delta. Inr (raw_stack_offset - delta))))
         in res_bind
              (case direct of
                 Inr r \<Rightarrow> Inr r
               | Inl (CandidateRejected reason) \<Rightarrow> rejected reason
               | Inl _ \<Rightarrow> (case printed of Inr r \<Rightarrow> Inr r | Inl _ \<Rightarrow> rejected REASON_UNRESOLVED_STACK))
              (\<lambda>(current_rsp_offset, ida_offset).
                 if \<bar>current_rsp_offset\<bar> > 0x1000000 then rejected REASON_UNRESOLVED_STACK
                 else Inr (current_rsp_offset, ida_offset)))"

section \<open>Debug lines\<close>

definition ea_text :: "int option \<Rightarrow> string" where
  "ea_text ea = (case ea of None \<Rightarrow> ''none'' | Some e \<Rightarrow> hex0x e)"

definition flag_text :: "bool \<Rightarrow> string" where
  "flag_text b = (if b then ''1'' else ''0'')"

definition cfg_point_line :: "string \<Rightarrow> int \<Rightarrow> int \<Rightarrow> int \<Rightarrow> string" where
  "cfg_point_line name block_id boundary current_ea =
     ''v-cfg-point name='' @ name @ '' current_block='' @ str_int block_id @ '' current_instruction='' @
     str_int boundary @ '' current_ea='' @ hex0x current_ea"

definition reaching_line :: "string \<Rightarrow> int \<Rightarrow> int \<Rightarrow> ReachingDefinitionResult \<Rightarrow> string" where
  "reaching_line name block_id current_ea reaching =
     (let selected = (if rd_count reaching = 1 then Some (hd (rd_definitions reaching)) else None)
      in ''v-reaching-def name='' @ name @ '' def_ea='' @
         ea_text (case selected of None \<Rightarrow> None | Some s \<Rightarrow> ds_ea s) @ '' def_block='' @
         (case selected of None \<Rightarrow> ''none'' | Some s \<Rightarrow> str_int (ds_block_id s)) @ '' current_ea='' @ hex0x current_ea @
         '' current_block='' @ str_int block_id @ '' count='' @ str_int (int (rd_count reaching)) @
         '' undefined_paths='' @ flag_text (rd_unresolved_path reaching) @
         '' overlap='' @ flag_text (rd_overlapping_definition reaching) @
         '' loop='' @ flag_text (rd_loop_detected reaching) @
         '' exhausted='' @ flag_text (rd_traversal_exhausted reaching))"

definition live_line :: "string \<Rightarrow> FutureUseResult \<Rightarrow> string" where
  "live_line name liveness =
     (let first_use = (case fu_use_sites liveness of [] \<Rightarrow> None | u # _ \<Rightarrow> Some u);
          live_result = (case first_use of
             Some u \<Rightarrow> if ds_crossed_block u then ''cross_block_use'' else ''same_block_use''
           | None \<Rightarrow> if fu_unresolved_use liveness \<or> fu_loop_detected liveness \<or> fu_traversal_exhausted liveness
                     then ''unproven'' else ''not_live'')
      in ''v-cross-block-live name='' @ name @ '' result='' @ live_result @ '' use_ea='' @
         ea_text (case first_use of None \<Rightarrow> None | Some u \<Rightarrow> ds_ea u) @ '' use_block='' @
         (case first_use of None \<Rightarrow> ''none'' | Some u \<Rightarrow> str_int (ds_block_id u)) @ '' redefinitions='' @
         str_int (int (fu_redefinition_paths liveness)) @ '' loop='' @ flag_text (fu_loop_detected liveness) @
         '' exhausted='' @ flag_text (fu_traversal_exhausted liveness))"

definition storage_line :: "string \<Rightarrow> RegisterSpec \<Rightarrow> StorageValidation \<Rightarrow> string" where
  "storage_line name register v =
     ''v-storage-valid name='' @ name @ '' storage='' @ rs_alias register @ '' result='' @
     (if sv_valid v then ''valid'' else ''unavailable'') @ '' reason='' @ sv_reason v @ '' clobber_ea='' @
     ea_text (sv_clobber_ea v) @ '' blocks='' @ str_int (int (sv_visited_blocks v))"

section \<open>One lvar\<close>

text \<open>The inputs that all candidates share.\<close>

record analysis_point =
  an_mba :: mba
  an_func :: static_func
  an_blocks :: micro_blocks
  an_current_block :: MicroBlockData
  an_boundary :: int
  an_current_ea :: int
  an_native_bounds :: "(int \<times> int) option"
  an_native_cfg :: "native_cfg option"
  an_native_cfg_error :: string
  an_ctree_facts :: "CtreeFact list"

definition lvar_shape_rejection :: "micro_lvar \<Rightarrow> int \<Rightarrow> string option" where
  "lvar_shape_rejection lvar width =
     (let flag = \<lambda>name. safe_bool_call (ml_flag lvar name)
      in if width \<notin> set SUPPORTED_WIDTHS then Some REASON_UNSUPPORTED_WIDTH
         else if flag ''is_scattered'' \<or> flag ''was_scattered_arg'' then Some REASON_SCATTERED
         else if flag ''is_shared'' \<or> flag ''is_overlapped_var'' \<or> flag ''is_used_byref''
         then Some (if flag ''is_reg_var'' then REASON_AMBIGUOUS_REGISTER else REASON_UNRESOLVED_STACK)
         else None)"

text \<open>The instruction and the address of the definition, if the site names one.\<close>

definition definition_at :: "micro_blocks \<Rightarrow> DefinitionSite \<Rightarrow> (minsn \<times> int) option" where
  "definition_at blocks selected =
     (case (dget blocks (ds_block_id selected), ds_ea selected) of
        (Some block, Some ea) \<Rightarrow>
          if ds_instruction_index selected < 0 \<or>
             ds_instruction_index selected \<ge> int (length (md_instructions block)) then None
          else Some (md_instructions block ! nat (ds_instruction_index selected), ea)
      | _ \<Rightarrow> None)"

definition constant_evidence ::
    "CtreeFact list \<Rightarrow> int \<Rightarrow> int \<Rightarrow> int \<Rightarrow> int \<Rightarrow> RecoveryEvidence res" where
  "constant_evidence ctree_facts index width definition_ea constant =
     (if list_ex (\<lambda>f. cf_lvar_index f = index \<and> cf_kind f = ''constant_def'' \<and> cf_ea f = Some definition_ea \<and>
           (case cf_constant_value f of None \<Rightarrow> False | Some v \<Rightarrow> mask_value v width \<noteq> mask_value constant width))
         ctree_facts
      then rejected REASON_NO_DEFINITION
      else res_bind (format_constant constant width) (\<lambda>value_text.
        Inr ((RecoveryEvidence_new index)
          \<lparr>re_storage_kind := ''constant'', re_storage := ''constant:'' @ value_text,
           re_source_ea := Some definition_ea, re_confidence := CONFIDENCE_EXACT_CONSTANT,
           re_reason := ''unique CFG reaching definition proves an exact live constant'',
           re_constant_value := Some constant, re_width := width\<rparr>)))"

definition register_evidence ::
    "analysis_point \<Rightarrow> string \<Rightarrow> int \<Rightarrow> int \<Rightarrow> int \<Rightarrow> RegisterSpec \<Rightarrow> RecoveryEvidence res \<times> string list" where
  "register_evidence an name index width definition_ea register =
     (case an_native_cfg an of
        None \<Rightarrow>
          (rejected REASON_UNRESOLVED_NATIVE_POINT,
           [''v-storage-valid name='' @ name @ '' storage='' @ rs_alias register @ '' result=unavailable reason='' @
            (if an_native_cfg_error an \<noteq> [] then an_native_cfg_error an else REASON_UNRESOLVED_NATIVE_POINT)])
      | Some native_cfg \<Rightarrow>
          let v = validate_register_storage_cfg native_cfg definition_ea (an_current_ea an) register width
          in (if \<not> sv_valid v then rejected (sv_reason v)
              else Inr ((RecoveryEvidence_new index)
                \<lparr>re_storage_kind := ''register'', re_storage := rs_alias register,
                 re_source_ea := Some definition_ea, re_confidence := CONFIDENCE_EXACT_REGISTER_LOCATION,
                 re_reason := ''unique CFG reaching definition and storage proof establish register liveness'',
                 re_register := Some register, re_width := width\<rparr>),
              [storage_line name register v]))"

definition signed_hex :: "int \<Rightarrow> string" where
  "signed_hex n = (if n < 0 then ''-'' @ hex0x (- n) else ''+'' @ hex0x n)"

definition stack_evidence ::
    "'cf static_apis \<Rightarrow> analysis_point \<Rightarrow> 'cf \<Rightarrow> micro_lvar \<Rightarrow> int \<Rightarrow> int \<Rightarrow> int \<Rightarrow> int \<Rightarrow> RecoveryEvidence res" where
  "stack_evidence st an cf lvar index width definition_block_id definition_ea =
     (if definition_block_id \<noteq> md_block_id (an_current_block an) \<or>
         (case an_native_bounds an of None \<Rightarrow> True | Some (s, e) \<Rightarrow> \<not> (s \<le> definition_ea \<and> definition_ea < e)) \<or>
         safe_bool_call_with_arg (ml_is_aliasable lvar)
      then rejected REASON_UNRESOLVED_STACK
      else res_bind (current_rsp_location_for_lvar st lvar (an_mba an) cf (an_func an) (an_current_ea an))
        (\<lambda>(rsp_offset, ida_stack_offset).
           if \<not> stack_definition_remains_valid (fn_native (an_func an)) definition_ea (an_current_ea an)
                 ida_stack_offset width
           then rejected REASON_UNRESOLVED_STACK
           else Inr ((RecoveryEvidence_new index)
             \<lparr>re_storage_kind := ''stack'', re_storage := ''stack:rsp'' @ signed_hex rsp_offset,
              re_source_ea := Some definition_ea, re_confidence := CONFIDENCE_EXACT_STACK_LOCATION,
              re_reason := ''unique reaching definition and future use prove exact stack slot'',
              re_stack_pointer_offset := Some rsp_offset, re_width := width\<rparr>)))"

text \<open>The storage of an lvar whose definition and liveness are proved.\<close>

definition storage_evidence ::
    "'cf static_apis \<Rightarrow> analysis_point \<Rightarrow> 'cf \<Rightarrow> VariableRecord \<Rightarrow> micro_lvar \<Rightarrow> DefinitionSite \<Rightarrow> minsn \<Rightarrow> int \<Rightarrow>
     native_insn \<Rightarrow> RecoveryEvidence res \<times> string list" where
  "storage_evidence st an cf variable lvar selected defn definition_ea native_definition =
     (let index = vr_lvar_index variable; width = vr_size variable;
          register = register_spec_from_lvar (st_registers st) lvar width;
          constant = direct_constant_definition defn index width
      in case (if register = None \<or> native_definition_uses_immediate (fn_native (an_func an)) native_definition
               then constant else None) of
           Some value \<Rightarrow> (constant_evidence (an_ctree_facts an) index width definition_ea value, [])
         | None \<Rightarrow>
             (case register of
                Some spec \<Rightarrow> register_evidence an (vr_name variable) index width definition_ea spec
              | None \<Rightarrow>
                  (if safe_bool_call (ml_flag lvar ''is_reg_var'') then rejected REASON_AMBIGUOUS_REGISTER
                   else if safe_bool_call (ml_flag lvar ''is_stk_var'')
                   then stack_evidence st an cf lvar index width (ds_block_id selected) definition_ea
                   else rejected REASON_NO_DEFINITION, [])))"

definition analyze_one_lvar ::
    "'cf static_apis \<Rightarrow> analysis_point \<Rightarrow> 'cf \<Rightarrow> VariableRecord \<Rightarrow> micro_lvar \<Rightarrow>
     RecoveryEvidence res \<times> string list" where
  "analyze_one_lvar st an cf variable lvar =
     (let index = vr_lvar_index variable; width = vr_size variable; name = vr_name variable;
          block_id = md_block_id (an_current_block an); boundary = an_boundary an;
          lines0 = [cfg_point_line name block_id boundary (an_current_ea an)]
      in case lvar_shape_rejection lvar width of
           Some reason \<Rightarrow> (rejected reason, lines0)
         | None \<Rightarrow>
             let candidate_cfg = candidate_cfg_facts (an_mba an) lvar index width (an_blocks an);
                 reaching = find_reaching_definitions candidate_cfg block_id boundary None;
                 lines1 = lines0 @ [reaching_line name block_id (an_current_ea an) reaching];
                 selected = hd (rd_definitions reaching)
             in case reaching_definition_rejection_reason reaching of
                  Some reason \<Rightarrow> (rejected reason, lines1)
                | None \<Rightarrow>
                    (case definition_at (an_blocks an) selected of
                       None \<Rightarrow> (rejected REASON_NO_DEFINITION, lines1)
                     | Some (defn, definition_ea) \<Rightarrow>
                         (case decode_instruction (fn_native (an_func an)) definition_ea of
                            None \<Rightarrow> (rejected REASON_UNRESOLVED_NATIVE_POINT, lines1)
                          | Some native_definition \<Rightarrow>
                              let liveness = find_future_uses candidate_cfg block_id boundary None;
                                  lines2 = lines1 @ [live_line name liveness]
                              in case future_use_rejection_reason liveness of
                                   Some reason \<Rightarrow> (rejected reason, lines2)
                                 | None \<Rightarrow>
                                     (case storage_evidence st an cf variable lvar selected defn definition_ea
                                             native_definition of
                                        (r, lines) \<Rightarrow> (r, lines2 @ lines)))))"

section \<open>All lvars\<close>

definition unavailable_location_evidence ::
    "register_apis \<Rightarrow> micro_lvar option \<Rightarrow> int \<Rightarrow> int \<Rightarrow> string \<Rightarrow> RecoveryEvidence" where
  "unavailable_location_evidence ap lvar index width reason =
     (let flag = \<lambda>name. (case lvar of None \<Rightarrow> False | Some l \<Rightarrow> safe_bool_call (ml_flag l name));
          e = (RecoveryEvidence_new index)\<lparr>re_reason := reason, re_width := width\<rparr>
      in if flag ''is_scattered'' \<or> flag ''was_scattered_arg''
         then e\<lparr>re_storage_kind := ''scattered'', re_storage := ''scattered''\<rparr>
         else if flag ''is_reg_var''
         then e\<lparr>re_storage_kind := ''register'', re_storage :=
                 (case lvar of
                    None \<Rightarrow> ''ambiguous''
                  | Some l \<Rightarrow> (case register_spec_from_lvar ap l width of None \<Rightarrow> ''ambiguous'' | Some spec \<Rightarrow> rs_alias spec))\<rparr>
         else if flag ''is_stk_var'' then e\<lparr>re_storage_kind := ''stack'', re_storage := ''stack:unresolved''\<rparr>
         else e)"

definition complete_line :: "string \<Rightarrow> string \<Rightarrow> string list \<Rightarrow> string list" where
  "complete_line line_prefix line debug_lines =
     (if list_ex (\<lambda>l. py_startswith l line_prefix) debug_lines then debug_lines else debug_lines @ [line])"

definition complete_candidate_diagnostics ::
    "VariableRecord \<Rightarrow> int \<Rightarrow> int \<Rightarrow> int \<Rightarrow> RecoveryEvidence \<Rightarrow> string list \<Rightarrow> string list" where
  "complete_candidate_diagnostics variable block_id boundary current_ea evidence debug_lines =
     (let name = vr_name variable;
          result = (if re_confidence evidence = CONFIDENCE_EXACT_CONSTANT then ''not_required''
                    else if re_confidence evidence \<in> {CONFIDENCE_EXACT_REGISTER_LOCATION, CONFIDENCE_EXACT_STACK_LOCATION}
                    then ''valid'' else ''unavailable'')
      in complete_line (''v-storage-valid name='' @ name @ '' '')
           (''v-storage-valid name='' @ name @ '' storage='' @
            (if re_storage evidence \<noteq> [] then re_storage evidence else ''unproven'') @ '' result='' @ result @
            '' reason='' @ re_reason evidence @ '' current_instruction='' @ str_int boundary)
         (complete_line (''v-cross-block-live name='' @ name @ '' '')
           (''v-cross-block-live name='' @ name @ '' result=unproven use_ea=none use_block=none redefinitions=0 '' @
            ''loop=0 exhausted=0 reason='' @ re_reason evidence)
         (complete_line (''v-reaching-def name='' @ name @ '' '')
           (''v-reaching-def name='' @ name @ '' def_ea=none def_block=none current_ea='' @ hex0x current_ea @
            '' current_block='' @ str_int block_id @ '' count=0 undefined_paths=0 overlap=0 loop=0 exhausted=0 reason='' @
            re_reason evidence)
         (complete_line (''v-cfg-point name='' @ name @ '' '')
           (cfg_point_line name block_id boundary current_ea) debug_lines))))"

text \<open>
  The body of the loop: the evidence for a variable and its debug lines. An exception other than a
  rejection is confined to its candidate.
\<close>

definition candidate_result ::
    "'cf static_apis \<Rightarrow> analysis_point \<Rightarrow> 'cf \<Rightarrow> VariableRecord \<Rightarrow>
     micro_lvar option \<times> RecoveryEvidence res \<times> string list" where
  "candidate_result st an cf variable =
     (let index = vr_lvar_index variable; m = an_mba an
      in if index < 0 \<or> index \<ge> mb_vars_size m then (None, rejected REASON_NO_DEFINITION, [])
         else case mb_vars_at m index of
                Inl exc \<Rightarrow> (None, Inl exc, [])
              | Inr lvar \<Rightarrow>
                  if ml_name lvar \<noteq> (if vr_name variable = ''<unnamed>'' then [] else vr_name variable)
                  then (Some lvar, rejected REASON_MICROCODE, [])
                  else if ml_width lvar \<noteq> vr_size variable then (Some lvar, rejected REASON_UNSUPPORTED_WIDTH, [])
                  else (Some lvar, analyze_one_lvar st an cf variable lvar))"

definition candidate_evidence ::
    "'cf static_apis \<Rightarrow> analysis_point \<Rightarrow> 'cf \<Rightarrow> VariableRecord \<Rightarrow> RecoveryEvidence" where
  "candidate_evidence st an cf variable =
     (case candidate_result st an cf variable of
        (_, Inr evidence, _) \<Rightarrow> evidence
      | (lvar, Inl (CandidateRejected reason), _) \<Rightarrow>
          unavailable_location_evidence (st_registers st) lvar (vr_lvar_index variable) (vr_size variable) reason
      | (_, Inl _, _) \<Rightarrow> (RecoveryEvidence_new (vr_lvar_index variable))\<lparr>re_reason := REASON_MICROCODE\<rparr>)"

definition candidate_lines :: "'cf static_apis \<Rightarrow> analysis_point \<Rightarrow> 'cf \<Rightarrow> VariableRecord \<Rightarrow> string list" where
  "candidate_lines st an cf variable =
     (case candidate_result st an cf variable of
        (_, r, lines) \<Rightarrow>
          (case r of
             Inr _ \<Rightarrow> []
           | Inl (CandidateRejected _) \<Rightarrow> []
           | Inl exc \<Rightarrow> [''v-analysis candidate index='' @ str_int (vr_lvar_index variable) @ '' failed reason='' @
                         py_exc_str exc]) @
          complete_candidate_diagnostics variable (md_block_id (an_current_block an)) (an_boundary an)
            (an_current_ea an) (candidate_evidence st an cf variable) lines)"

definition claims_conflict :: "RecoveryEvidence \<Rightarrow> RecoveryEvidence \<Rightarrow> string option" where
  "claims_conflict left right =
     (let lr = the (re_register left); rr = the (re_register right);
          ls = the (re_stack_pointer_offset left); rs = the (re_stack_pointer_offset right)
      in if re_storage_kind left \<noteq> re_storage_kind right then None
         else if re_storage_kind left = ''register'' \<and> re_register left \<noteq> None \<and> re_register right \<noteq> None \<and>
                 rs_full_register lr = rs_full_register rr
         then if rs_bit_offset lr < rs_bit_offset rr + re_width right * 8 \<and>
                 rs_bit_offset rr < rs_bit_offset lr + re_width left * 8
              then Some REASON_AMBIGUOUS_REGISTER else None
         else if re_storage_kind left = ''stack'' \<and> re_stack_pointer_offset left \<noteq> None \<and>
                 re_stack_pointer_offset right \<noteq> None
         then if ls < rs + re_width right \<and> rs < ls + re_width left then Some REASON_UNRESOLVED_STACK else None
         else None)"

text \<open>The entries the loop over all pairs puts into \<^verbatim>\<open>rejected\<close>, in order.\<close>

fun duplicate_claims :: "(int, RecoveryEvidence) dict \<Rightarrow> (int \<times> string) list" where
  "duplicate_claims [] = []"
| "duplicate_claims ((left_index, left) # claims) =
     concat (map (\<lambda>(right_index, right).
        case claims_conflict left right of
          None \<Rightarrow> []
        | Some reason \<Rightarrow> [(left_index, reason), (right_index, reason)]) claims) @
     duplicate_claims claims"

definition reject_duplicate_storage_claims :: "(int, RecoveryEvidence) dict \<Rightarrow> (int, RecoveryEvidence) dict" where
  "reject_duplicate_storage_claims evidence_by_index =
     fold (\<lambda>(index, reason). dset index ((RecoveryEvidence_new index)\<lparr>re_reason := reason\<rparr>))
       (fold (\<lambda>(index, reason). dset index reason) (duplicate_claims evidence_by_index) [])
       evidence_by_index"

section \<open>The analysis\<close>

definition analysis_failed :: "int list \<Rightarrow> string \<Rightarrow> RecoveryAnalysis" where
  "analysis_failed indexes err =
     \<lparr>ra_ok = False,
      ra_evidence_by_index = fold (\<lambda>i. dset i ((RecoveryEvidence_new i)\<lparr>re_reason := REASON_MICROCODE\<rparr>)) indexes [],
      ra_error = err, ra_debug_lines = []\<rparr>"

definition required_hexrays_names :: "string list" where
  "required_hexrays_names = [''MMAT_LVARS'', ''mop_l'', ''mop_n'', ''m_mov'', ''mop_visitor_t'', ''get_mreg_name'',
     ''mreg2reg'']"

definition require :: "bool \<Rightarrow> string \<Rightarrow> unit res" where
  "require ok message = (if ok then Inr () else Inl (RuntimeError message))"

definition is_x64 :: "'cf static_apis \<Rightarrow> static_func \<Rightarrow> bool res" where
  "is_x64 st func =
     (case (st_ph_get_id st, st_plfm_386 st) of
        (Some id_res, Some plfm) \<Rightarrow>
          res_bind id_res (\<lambda>i.
            if i \<noteq> plfm then Inr False else res_bind (fn_bits func) (\<lambda>bits. Inr (bits = 64)))
      | _ \<Rightarrow> Inr False)"

text \<open>
  The snapshots and the current point; \<open>Inr None\<close> says that the current address has no unique
  microcode point.
\<close>

definition analysis_snapshot ::
    "'cf static_apis \<Rightarrow> static_func \<Rightarrow> 'cf \<Rightarrow> mba \<Rightarrow> int \<Rightarrow> ('cf \<times> analysis_point) option res" where
  "analysis_snapshot st func cf m current_ea =
     res_bind (require (mb_maturity m \<ge> st_mmat_lvars st) ''microcode has not reached MMAT_LVARS'') (\<lambda>_.
     res_bind (require (mb_has_apis m) ''microcode lvar/block APIs are unavailable'') (\<lambda>_.
     res_bind (require (decode_instruction (fn_native func) current_ea \<noteq> None)
         (''native instruction decode failed at '' @ hex0x current_ea)) (\<lambda>_.
     res_bind (collect_micro_blocks m) (\<lambda>blocks.
       Inr (case find_exact_microcode_point blocks current_ea of
              None \<Rightarrow> None
            | Some (current_block, boundary) \<Rightarrow>
                (case build_native_cfg_facts (fn_native func) of
                   (native_cfg, native_cfg_error) \<Rightarrow>
                     Some (cf,
                       \<lparr>an_mba = m, an_func = func, an_blocks = blocks, an_current_block = current_block,
                        an_boundary = boundary, an_current_ea = current_ea,
                        an_native_bounds = native_block_bounds (fn_native func) current_ea,
                        an_native_cfg = native_cfg, an_native_cfg_error = native_cfg_error,
                        an_ctree_facts = collect_ctree_facts m (st_has_name st) (st_ctree st cf)\<rparr>)))))))"

text \<open>The guarded first half of the analysis: the checks, then the snapshots.\<close>

definition analysis_setup ::
    "'cf static_apis \<Rightarrow> int \<Rightarrow> int \<Rightarrow> 'cf option \<Rightarrow> ('cf \<times> analysis_point) option res" where
  "analysis_setup st function_ea current_ea cfunc =
     res_bind (st_get_func st current_ea) (\<lambda>answer.
     case (case answer of None \<Rightarrow> None | Some f \<Rightarrow> if fn_start_ea f \<noteq> function_ea then None else Some f) of
       None \<Rightarrow> Inl (RuntimeError ''mapped EA does not belong to the enumerated function'')
     | Some func \<Rightarrow>
         res_bind (is_x64 st func) (\<lambda>x64.
         res_bind (require x64 ''v recovery currently supports x64 functions only'') (\<lambda>_.
         res_bind (case cfunc of None \<Rightarrow> st_decompile st function_ea | Some cf \<Rightarrow> Inr (Some cf)) (\<lambda>cf_opt.
         case cf_opt of
           None \<Rightarrow> Inl (RuntimeError ''Hex-Rays decompilation returned no cfunc'')
         | Some cf \<Rightarrow>
             (case st_mba st cf of
                None \<Rightarrow> Inl (RuntimeError ''cfunc has no underlying microcode'')
              | Some m \<Rightarrow> analysis_snapshot st func cf m current_ea)))))"

definition analysis_line :: "int \<Rightarrow> analysis_point \<Rightarrow> string list" where
  "analysis_line function_ea an =
     (''v-analysis function='' @ hex0x function_ea @ '' current_block='' @ str_int (md_block_id (an_current_block an)) @
      '' current_instruction='' @ str_int (an_boundary an) @ '' current_ea='' @ hex0x (an_current_ea an) @
      '' micro_blocks='' @ str_int (int (length (an_blocks an))) @ '' micro_insns='' @
      str_int (int (length (md_instructions (an_current_block an)))) @ '' ctree_facts='' @
      str_int (int (length (an_ctree_facts an)))) #
     (if an_native_cfg an = None then [''v-native-cfg unavailable reason='' @ an_native_cfg_error an] else [])"

definition analyze_v_variable_candidates :: "'cf static_apis \<Rightarrow> 'cf AnalysisProvider" where
  "analyze_v_variable_candidates st function_ea current_ea variables cfunc =
     (let indexes = map vr_lvar_index variables
      in if \<not> st_modules st then Inr (analysis_failed indexes ''IDA/Hex-Rays recovery APIs are unavailable'')
         else if \<not> list_all (st_has_name st) required_hexrays_names
         then Inr (analysis_failed indexes ''required IDA 9.3 microcode APIs are unavailable'')
         else case analysis_setup st function_ea current_ea cfunc of
                Inl exc \<Rightarrow> Inr (analysis_failed indexes (REASON_MICROCODE @ '': '' @ py_exc_str exc))
              | Inr None \<Rightarrow>
                  Inr \<lparr>ra_ok = True,
                       ra_evidence_by_index = fold (\<lambda>i. dset i
                         ((RecoveryEvidence_new i)\<lparr>re_reason := REASON_UNRESOLVED_NATIVE_POINT\<rparr>)) indexes [],
                       ra_error = [],
                       ra_debug_lines = [''v-analysis current EA has no unique contiguous top-level MMAT_LVARS run'']\<rparr>
              | Inr (Some (cf, an)) \<Rightarrow>
                  Inr \<lparr>ra_ok = True,
                       ra_evidence_by_index = reject_duplicate_storage_claims
                         (fold (\<lambda>v. dset (vr_lvar_index v) (candidate_evidence st an cf v)) variables []),
                       ra_error = [],
                       ra_debug_lines = analysis_line function_ea an @
                         concat (map (candidate_lines st an cf) variables)\<rparr>)"

end
