(* ===== verification/Native_Code_Proofs.thy ===== *)
theory Native_Code_Proofs
  imports Native_Code
begin

text \<open>
  Correctness of the native snapshot and of the stack slot check: what a snapshot of the flow chart
  guarantees to the register storage proof, and that an accepted slot keeps the bytes the
  definition wrote on every straight-line execution up to the current instruction.
\<close>

section \<open>Snapshots of the flow chart\<close>

text \<open>The instructions cover the addresses from \<open>s\<close> to \<open>e\<close> in order, without gap or overlap.\<close>

fun tiles :: "int \<Rightarrow> int \<Rightarrow> NativeInstructionFact list \<Rightarrow> bool" where
  "tiles s e [] \<longleftrightarrow> s = e"
| "tiles s e (i # is) \<longleftrightarrow> ni_ea i = s \<and> 0 < ni_size i \<and> tiles (s + ni_size i) e is"

lemma native_loop_tiles:
  "native_loop left na b e ea = Inr is \<Longrightarrow> ea \<le> e \<Longrightarrow> tiles ea e is"
proof (induction left arbitrary: ea "is")
  case 0
  then show ?case by (simp add: native_loop.simps [of 0] split: if_splits)
next
  case (Suc left)
  show ?case
  proof (cases "ea \<ge> e")
    case False
    show ?thesis
    proof (cases "case decode_instruction na ea of
                   None \<Rightarrow> None
                 | Some insn \<Rightarrow> if nn_size insn \<le> 0 \<or> ea + nn_size insn > e then None else Some insn")
      case None
      with Suc.prems False show ?thesis by (auto simp: native_loop.simps [of "Suc left"])
    next
      case (Some insn)
      then have sz: "0 < nn_size insn" "ea + nn_size insn \<le> e" by (auto split: option.splits if_splits)
      from Suc.prems(1) False Some obtain i is' where
        "native_loop left na b e (ea + nn_size insn) = Inr is'" "is = i # is'" "ni_ea i = ea" "ni_size i = nn_size insn"
        by (auto simp: native_loop.simps [of "Suc left"] Let_def case_prod_beta res_bind_Inr_iff split: sum.splits)
      with Suc.IH sz show ?thesis by simp
    qed
  qed (use Suc.prems in \<open>simp add: native_loop.simps [of "Suc left"]\<close>)
qed

lemma tiles_bounds: "tiles s e is \<Longrightarrow> i \<in> set is \<Longrightarrow> s \<le> ni_ea i \<and> 0 < ni_size i \<and> ni_ea i + ni_size i \<le> e"
proof (induction "is" arbitrary: s)
  case (Cons j js)
  have le: "tiles s' e js' \<Longrightarrow> s' \<le> e" for s' js' by (induction js' arbitrary: s') fastforce+
  from Cons le [of "s + ni_size j" js] show ?case by fastforce
qed simp

lemma tiles_sorted: "tiles s e is \<Longrightarrow> sorted_wrt (<) (map ni_ea is)"
proof (induction "is" arbitrary: s)
  case (Cons i "is")
  then show ?case using tiles_bounds [of "s + ni_size i" e "is"] by fastforce
qed simp

lemma native_edge_ids_ok:
  assumes "native_edge_ids name method raw = Inr ids"
  shows "sorted ids \<and> distinct ids \<and> set ids \<subseteq> set (dkeys raw)"
  using assms
  by (auto simp: native_edge_ids_def res_bind_Inr_iff check_all_Inr split: option.splits if_splits)

lemma native_block_ok:
  assumes "native_block na raw (k, rb) = Inr f"
  shows "nb_block_id f = k" "tiles (nb_start_ea f) (nb_end_ea f) (nb_instructions f)"
    "sorted (nb_predecessors f)" "distinct (nb_predecessors f)" "sorted (nb_successors f)" "distinct (nb_successors f)"
  using assms native_loop_tiles
  by (auto simp: native_block_def res_bind_Inr_iff dest!: native_edge_ids_ok split: if_splits)

lemma index_raw_blocks_ok: "index_raw_blocks raws d = Inr d' \<Longrightarrow> dwf d \<Longrightarrow> dwf d'"
  by (induction raws arbitrary: d) (auto simp: distinct_update split: if_splits)

lemma build_native_blocks_ok:
  assumes "build_native_blocks na = Inr blocks"
  shows "dwf blocks" "\<forall>(k, f) \<in> set blocks. nb_block_id f = k \<and> tiles (nb_start_ea f) (nb_end_ea f) (nb_instructions f)"
    "validate_cfg_reciprocity nb_predecessors nb_successors blocks ''native'' = Inr ()"
proof -
  from assms obtain raws raw facts where r: "index_raw_blocks raws [] = Inr raw"
    and f: "collect_all (native_block na raw) raw = Inr facts"
    and b: "blocks = map (\<lambda>f. (nb_block_id f, f)) facts"
    and v: "validate_cfg_reciprocity nb_predecessors nb_successors blocks ''native'' = Inr ()"
    by (auto simp: build_native_blocks_def res_bind_Inr_iff Let_def split: if_splits)
  have nth: "native_block na raw (raw ! i) = Inr (facts ! i)" if "i < length raw" for i
    using collect_all_nth [OF f that] .
  have len: "length facts = length raw" using collect_all_length [OF f] .
  have ids: "nb_block_id (facts ! i) = fst (raw ! i)" if "i < length raw" for i
    using native_block_ok(1) nth [OF that] by (metis prod.collapse)
  then have keys: "dkeys blocks = dkeys raw" using len by (auto intro: nth_equalityI simp: b)
  have "dwf raw" using index_raw_blocks_ok [OF r] by simp
  then show "dwf blocks" by (simp only: keys)
  have "tiles (nb_start_ea f) (nb_end_ea f) (nb_instructions f)" if "f \<in> set facts" for f
    using that nth native_block_ok(2) len by (metis in_set_conv_nth prod.collapse)
  then show "\<forall>(k, f) \<in> set blocks. nb_block_id f = k \<and> tiles (nb_start_ea f) (nb_end_ea f) (nb_instructions f)"
    by (auto simp: b)
  show "validate_cfg_reciprocity nb_predecessors nb_successors blocks ''native'' = Inr ()" by (rule v)
qed

section \<open>Stack slots\<close>

text \<open>Memory of the frame by offset, and an instruction that changes only the bytes it reports.\<close>

type_synonym frame = "int \<Rightarrow> int"

definition frame_step :: "native_apis \<Rightarrow> native_insn \<Rightarrow> frame \<Rightarrow> frame \<Rightarrow> bool" where
  "frame_step na insn m m' \<longleftrightarrow>
     (\<forall>x. (\<forall>w \<in> set (snd (native_stack_writes na insn)). \<not> (fst w \<le> x \<and> x < fst w + snd w)) \<longrightarrow> m' x = m x)"

text \<open>Straight-line execution from \<open>ea\<close> until the address \<open>ce\<close> is reached.\<close>

inductive straight_exec :: "native_apis \<Rightarrow> int \<Rightarrow> int \<Rightarrow> frame \<Rightarrow> frame \<Rightarrow> bool" for na ce where
  arrived: "ce \<le> ea \<Longrightarrow> straight_exec na ce ea m m"
| executed: "ea < ce \<Longrightarrow> decode_instruction na ea = Some insn \<Longrightarrow> frame_step na insn m m1 \<Longrightarrow>
    straight_exec na ce (ea + nn_size insn) m1 m2 \<Longrightarrow> straight_exec na ce ea m m2"

lemma stack_loop_keeps:
  assumes "straight_exec na ce ea m m'" "stack_loop left na ce s e False ea" "s \<le> x" "x < e"
  shows "m' x = m x"
  using assms
proof (induction arbitrary: left rule: straight_exec.induct)
  case (executed ea insn m m1 m2)
  then obtain left' where left: "left = Suc left'" by (cases left) auto
  from executed.prems(1) executed.hyps(1,2) have
    none: "filter (slot_overlaps s e) (snd (native_stack_writes na insn)) = []"
    and rest: "stack_loop left' na ce s e False (ea + nn_size insn)"
    unfolding left by (auto simp: Let_def case_prod_beta split: if_splits)
  have "m1 x = m x"
  proof -
    have "\<not> (fst w \<le> x \<and> x < fst w + snd w)" if "w \<in> set (snd (native_stack_writes na insn))" for w
      using none that executed.prems(2,3) by (fastforce simp: filter_empty_conv slot_overlaps_def)
    with executed.hyps(3) show ?thesis unfolding frame_step_def by blast
  qed
  with executed.IH [OF rest executed.prems(2,3)] show ?case by simp
qed simp

lemma stack_loop_first:
  assumes "stack_loop left na ce s e True de"
  shows "\<exists>insn left' w. de < ce \<and> decode_instruction na de = Some insn \<and> 0 < nn_size insn \<and>
    w \<in> set (snd (native_stack_writes na insn)) \<and> slot_covered s e w \<and>
    stack_loop left' na ce s e False (de + nn_size insn)"
proof -
  from assms obtain left' insn where
    "left = Suc left'" "de < ce" "decode_instruction na de = Some insn" "0 < nn_size insn"
    "list_ex (slot_covered s e) (filter (slot_overlaps s e) (snd (native_stack_writes na insn)))"
    "stack_loop left' na ce s e False (de + nn_size insn)"
    by (cases left) (auto simp: Let_def case_prod_beta split: if_splits option.splits)
  then show ?thesis by (auto simp: list_ex_iff)
qed

text \<open>
  An accepted stack definition is current: the definition lies before the current instruction and
  decodes to an instruction with a write that covers the whole slot, and on every straight-line
  execution from there in which instructions change only the stack bytes they report, the slot
  still holds at the current instruction what the definition left in it.
\<close>

lemma stack_definition_sound:
  assumes valid: "stack_definition_remains_valid na de ce off width"
    and at_def: "decode_instruction na de = Some insn"
    and run: "straight_exec na ce (de + nn_size insn) m m'"
  shows "de < ce \<and>
    (\<exists>w \<in> set (snd (native_stack_writes na insn)). fst w \<le> off \<and> off + width \<le> fst w + snd w) \<and>
    (\<forall>x. off \<le> x \<and> x < off + width \<longrightarrow> m' x = m x)"
proof -
  from stack_loop_first [OF valid [unfolded stack_definition_remains_valid_def]] at_def obtain left' w where
    "de < ce" "w \<in> set (snd (native_stack_writes na insn))" "slot_covered off (off + width) w"
    and rest: "stack_loop left' na ce off (off + width) False (de + nn_size insn)" by auto
  with stack_loop_keeps [OF run rest] show ?thesis by (auto simp: slot_covered_def)
qed

end
