(* ===== verification/Cfg_Liveness.thy ===== *)
theory Cfg_Liveness
  imports Cfg_Analysis
begin

text \<open>
  Correctness of the forward query \<^verbatim>\<open>_find_future_uses\<close> of
  \<^verbatim>\<open>ida_plugin/v_variable_recovery.py\<close>: a reported use is reachable without a redefinition,
  and the verdict \<^verbatim>\<open>not_live_at_current_pc\<close> means that no such use exists. The loop flags and
  the budget of both queries are settled here too.
\<close>

section \<open>The forward scan of one block\<close>

lemma scan_fwd_use:
  "scan_fwd ins p = (FwdUse q, u) \<Longrightarrow>
     p \<le> q \<and> q - p < length ins \<and> ci_use (ins ! (q - p)) \<and> ci_ea (ins ! (q - p)) \<noteq> None \<and>
     (\<forall>j < q - p. \<not> ci_defines (ins ! j))"
proof (induction ins p arbitrary: u rule: scan_fwd.induct)
  case (2 fc facts p)
  show ?case
  proof (cases "ci_use fc \<and> ci_ea fc \<noteq> None")
    case True
    with 2 show ?thesis by auto
  next
    case False
    with 2(2) obtain u' where nd: "\<not> ci_defines fc" and sc: "scan_fwd facts (Suc p) = (FwdUse q, u')"
      by (auto simp: Let_def ci_defines_def split: if_splits prod.splits)
    from 2(1) [OF False refl _ sc] nd
    have IH: "Suc p \<le> q" "q - Suc p < length facts" "ci_use (facts ! (q - Suc p))"
      "ci_ea (facts ! (q - Suc p)) \<noteq> None" "\<forall>j < q - Suc p. \<not> ci_defines (facts ! j)"
      by (auto simp: ci_defines_def)
    then have "q - p = Suc (q - Suc p)" by simp
    with IH nd show ?thesis by (auto simp: nth_Cons split: nat.splits)
  qed
qed simp

lemma scan_fwd_through:
  "scan_fwd ins p = (FwdThrough, u) \<Longrightarrow> i \<in> set ins \<Longrightarrow> \<not> ci_defines i"
  by (induction ins p arbitrary: u rule: scan_fwd.induct)
     (auto simp: Let_def ci_defines_def split: if_splits prod.splits)

lemma scan_fwd_no_def:
  "\<forall>i \<in> set ins. \<not> ci_defines i \<Longrightarrow> \<forall>q. fst (scan_fwd ins p) \<noteq> FwdUse q \<Longrightarrow>
   fst (scan_fwd ins p) = FwdThrough"
  by (induction ins p rule: scan_fwd.induct)
     (auto simp: Let_def ci_defines_def split: if_splits prod.splits)

text \<open>A scan that reports neither a use nor an unresolved one passes no use.\<close>

lemma scan_fwd_quiet:
  "scan_fwd ins p = (r, False) \<Longrightarrow> \<forall>q. r \<noteq> FwdUse q \<Longrightarrow> j < length ins \<Longrightarrow>
   \<forall>i < j. \<not> ci_defines (ins ! i) \<Longrightarrow> \<not> ci_use (ins ! j)"
proof (induction ins p arbitrary: j rule: scan_fwd.induct)
  case (2 fc facts p)
  then have nu: "\<not> ci_use fc" by (auto simp: Let_def split: if_splits prod.splits)
  show ?case
  proof (cases j)
    case (Suc j')
    with 2(5) have "\<not> ci_defines fc" by fastforce
    moreover from this 2(2) nu have "scan_fwd facts (Suc p) = (r, False)"
      by (auto simp: Let_def ci_defines_def split: if_splits prod.splits)
    moreover have "\<forall>i < j'. \<not> ci_defines (facts ! i)" using 2(5) Suc by fastforce
    ultimately show ?thesis
      using 2(1) [of False j'] 2(3,4) nu Suc by (auto simp: ci_defines_def)
  qed (use nu in simp)
qed simp

section \<open>What the forward traversal accumulates\<close>

definition use_scan :: "micro_cfg \<Rightarrow> point \<Rightarrow> (fwd_scan \<times> bool) option" where
  "use_scan blocks st = map_option (\<lambda>bl. block_scan_fwd bl (snd st)) (state_block blocks st)"

definition use_unresolved :: "micro_cfg \<Rightarrow> point \<Rightarrow> bool" where
  "use_unresolved blocks st \<longleftrightarrow> (\<exists>r. use_scan blocks st = Some (r, True))"

definition use_cut :: "micro_cfg \<Rightarrow> point \<Rightarrow> bool" where
  "use_cut blocks st \<longleftrightarrow>
     (case state_block blocks st of
        None \<Rightarrow> True
      | Some bl \<Rightarrow> fst (block_scan_fwd bl (snd st)) = FwdThrough \<and>
          (\<exists>s \<in> set (cb_successors bl). dget blocks s = None))"

definition use_site_ok :: "micro_cfg \<Rightarrow> point \<times> DefinitionSite \<Rightarrow> bool" where
  "use_site_ok blocks ks \<longleftrightarrow> site_of_key ks \<and>
     (\<forall>k i. snd (fst ks) = int k \<longrightarrow> micro_fact blocks (fst (fst ks), k) = Some i \<longrightarrow>
        ds_ea (snd ks) = ci_ea i)"

lemma use_upd_unresolved:
  "ua_unresolved_use (use_upd blocks i0 st a) \<longleftrightarrow> ua_unresolved_use a \<or> use_unresolved blocks st"
  by (cases "state_block blocks st"; cases "block_scan_fwd (the (state_block blocks st)) (snd st)")
     (auto simp: use_upd_def use_unresolved_def use_scan_def Let_def split: fwd_scan.splits)

lemma use_upd_cut:
  "ua_traversal_exhausted (use_upd blocks i0 st a) \<longleftrightarrow> ua_traversal_exhausted a \<or> use_cut blocks st"
  by (cases "state_block blocks st"; cases "block_scan_fwd (the (state_block blocks st)) (snd st)")
     (auto simp: use_upd_def use_cut_def Let_def split: fwd_scan.splits)

lemma use_upd_keys:
  "fst ` set (ua_use_sites (use_upd blocks i0 st a)) =
     fst ` set (ua_use_sites a) \<union> {(fst st, int k) |k u. use_scan blocks st = Some (FwdUse k, u)}"
  by (cases "state_block blocks st"; cases "block_scan_fwd (the (state_block blocks st)) (snd st)")
     (auto simp: use_upd_def use_scan_def Let_def dom_update
      split: fwd_scan.splits simp flip: dom_map_of_conv_image_fst)

lemma use_upd_sites:
  assumes "\<forall>x \<in> set (ua_use_sites a). use_site_ok blocks x"
    and "x \<in> set (ua_use_sites (use_upd blocks i0 st a))"
  shows "use_site_ok blocks x"
  using assms
  by (cases "state_block blocks st"; cases "block_scan_fwd (the (state_block blocks st)) (snd st)")
     (auto simp: use_upd_def Let_def use_site_ok_def site_of_key_def micro_fact_def state_block_def
      split: fwd_scan.splits option.splits if_splits dest!: set_dset)

lemma use_fold:
  "ua_unresolved_use (fold (use_upd blocks i0) vs a) \<longleftrightarrow>
     ua_unresolved_use a \<or> (\<exists>st \<in> set vs. use_unresolved blocks st)"
  "ua_traversal_exhausted (fold (use_upd blocks i0) vs a) \<longleftrightarrow>
     ua_traversal_exhausted a \<or> (\<exists>st \<in> set vs. use_cut blocks st)"
  "fst ` set (ua_use_sites (fold (use_upd blocks i0) vs a)) =
     fst ` set (ua_use_sites a) \<union>
     {(fst st, int k) |st k u. st \<in> set vs \<and> use_scan blocks st = Some (FwdUse k, u)}"
proof (induction vs arbitrary: a)
  case (Cons st vs)
  {
    case 3
    have "{(fst s, int k) |s k u. s \<in> set (st # vs) \<and> use_scan blocks s = Some (FwdUse k, u)} =
      {(fst st, int k) |k u. use_scan blocks st = Some (FwdUse k, u)} \<union>
      {(fst s, int k) |s k u. s \<in> set vs \<and> use_scan blocks s = Some (FwdUse k, u)}"
      unfolding list.set(2) by blast
    with Cons(3) show ?case by (simp add: use_upd_keys Un_assoc)
  }
qed (auto simp: use_upd_unresolved use_upd_cut)

lemma use_fold_sites:
  assumes "\<forall>x \<in> set (ua_use_sites a). use_site_ok blocks x"
  shows "\<forall>x \<in> set (ua_use_sites (fold (use_upd blocks i0) vs a)). use_site_ok blocks x"
  using assms
proof (induction vs arbitrary: a)
  case (Cons st vs)
  have "\<forall>x \<in> set (ua_use_sites (use_upd blocks i0 st a)). use_site_ok blocks x"
    using Cons.prems use_upd_sites by blast
  from Cons.IH [OF this] show ?case by simp
qed simp

section \<open>The forward traversal\<close>

abbreviation use_start :: use_acc where
  "use_start \<equiv> \<lparr>ua_use_sites = [], ua_redefinition_paths = 0, ua_unresolved_use = False,
                ua_traversal_exhausted = False\<rparr>"

definition use_trav :: "micro_cfg \<Rightarrow> point \<Rightarrow> nat option \<Rightarrow> (point, use_acc) traversal" where
  "use_trav blocks st m =
     traverse (state_budget m (length blocks)) (use_upd blocks st) (use_next blocks)
       (start_traversal st use_start)"

lemma use_trav_facts:
  fixes blocks st m
  defines "t \<equiv> use_trav blocks st m"
  shows "distinct (t_visited t)"
    and "t_acc t = fold (use_upd blocks st) (t_visited t) use_start"
    and "set (t_visited t) \<subseteq> (next_rel (use_next blocks))\<^sup>* `` {st}"
    and "\<not> t_exhausted t \<Longrightarrow> set (t_visited t) = (next_rel (use_next blocks))\<^sup>* `` {st}"
    and "edges_wf (t_edges t)"
    and "edge_rel (t_edges t) = (SIGMA s : set (t_visited t). set (use_next blocks s))"
  using traverse_from_start [of "state_budget m (length blocks)" "use_upd blocks st" "use_next blocks" st
      use_start]
  by (auto simp: t_def use_trav_def trav_core_def trav_done_def)

lemma find_future_uses_trav:
  "find_future_uses blocks cb ci m =
     (let t = use_trav blocks (cb, ci) m
      in \<lparr>fu_use_sites =
            sort_key (\<lambda>site. (ds_block_id site, ds_instruction_index site)) (dvals (ua_use_sites (t_acc t))),
          fu_redefinition_paths = ua_redefinition_paths (t_acc t),
          fu_unresolved_use = ua_unresolved_use (t_acc t),
          fu_loop_detected = graph_has_cycle (t_edges t),
          fu_traversal_exhausted = (ua_traversal_exhausted (t_acc t) \<or> t_exhausted t),
          fu_visited_states = length (t_visited t)\<rparr>)"
  by (simp add: find_future_uses_def use_trav_def Let_def)

lemma use_next_mem:
  "(s, n) \<in> set (use_next blocks st) \<longleftrightarrow>
     (\<exists>bl sb. state_block blocks st = Some bl \<and> fst (block_scan_fwd bl (snd st)) = FwdThrough \<and>
        s \<in> set (cb_successors bl) \<and> dget blocks s = Some sb \<and> n = 0)"
  by (cases "state_block blocks st")
     (auto simp: use_next_def set_map_filter_iff split: fwd_scan.splits)

text \<open>Every visited state is reached from the initial one without a definition.\<close>

lemma use_state_run:
  assumes start: "state_block blocks (cb, ci) \<noteq> None"
    and reach: "((cb, ci), (b, l)) \<in> (next_rel (use_next blocks))\<^sup>*"
  shows "state_block blocks (b, l) \<noteq> None \<and>
    (\<exists>xs. flow_run (micro_len blocks) (micro_succs blocks) (cb, nat ci) xs (b, nat l) \<and>
       (\<forall>x \<in> set xs. \<not> micro_defines blocks x))"
  using reach
proof (induction "(b, l)" arbitrary: b l rule: rtrancl_induct)
  case base
  then show ?case using start by (auto intro: run_refl)
next
  case (step q)
  obtain b' l' where q: "q = (b', l')" by (cases q)
  from step(2) q obtain bl sb where bl: "state_block blocks (b', l') = Some bl"
    and thr: "fst (block_scan_fwd bl l') = FwdThrough"
    and s: "b \<in> set (cb_successors bl)" "dget blocks b = Some sb" "l = 0"
    by (auto simp: use_next_mem)
  from step(3) [of b' l'] q obtain xs where
    run: "flow_run (micro_len blocks) (micro_succs blocks) (cb, nat ci) xs (b', nat l')"
    and free: "\<forall>x \<in> set xs. \<not> micro_defines blocks x" by blast
  let ?n = "length (cb_instructions bl)"
  have dl: "dget blocks b' = Some bl" "nat l' \<le> ?n" using bl by (auto simp: state_block_Some)
  have "flow_run (micro_len blocks) (micro_succs blocks) (b', nat l')
      (map (Pair b') [nat l'..<?n]) (b', ?n)"
    using dl by (intro flow_run_block [of _ _ ?n]) (auto simp: micro_len_def)
  from flow_run_trans [OF this run] dl s(1)
  have "flow_run (micro_len blocks) (micro_succs blocks) (cb, nat ci)
      (xs @ map (Pair b') [nat l'..<?n]) (b, nat l)"
    unfolding s(3) by (auto intro: run_edge simp: micro_len_def micro_succs_def)
  moreover have "\<not> micro_defines blocks (b', k)" if "nat l' \<le> k" "k < ?n" for k
  proof -
    have "cb_instructions bl ! k \<in> set (drop (nat l') (cb_instructions bl))"
      using that by (auto simp: in_set_conv_nth intro!: exI [of _ "k - nat l'"])
    with thr that dl show ?thesis
      by (cases "block_scan_fwd bl l'")
         (auto simp: block_scan_fwd_def micro_defines_def micro_fact_def dest: scan_fwd_through)
  qed
  ultimately show ?case
    using free s by (auto simp: state_block_Some intro!: exI [of _ "xs @ map (Pair b') [nat l'..<?n]"])
qed

lemma use_found_run:
  assumes reach: "((cb, ci), (b, l)) \<in> (next_rel (use_next blocks))\<^sup>*"
    and start: "state_block blocks (cb, ci) \<noteq> None"
    and sc: "use_scan blocks (b, l) = Some (FwdUse k, u)"
  shows "\<exists>i xs. micro_fact blocks (b, k) = Some i \<and> ci_use i \<and> ci_ea i \<noteq> None \<and>
    flow_run (micro_len blocks) (micro_succs blocks) (cb, nat ci) xs (b, k) \<and>
    (\<forall>x \<in> set xs. \<not> micro_defines blocks x)"
proof -
  from sc obtain bl where sb: "state_block blocks (b, l) = Some bl"
    and f: "scan_fwd (drop (nat l) (cb_instructions bl)) (nat l) = (FwdUse k, u)"
    by (auto simp: use_scan_def block_scan_fwd_def)
  have bl: "dget blocks b = Some bl" "nat l \<le> length (cb_instructions bl)"
    using sb by (auto simp: state_block_Some)
  note d = scan_fwd_use [OF f]
  have k: "nat l \<le> k" "k < length (cb_instructions bl)" and u: "ci_use (cb_instructions bl ! k)"
    "ci_ea (cb_instructions bl ! k) \<noteq> None"
    using d by auto
  have nd: "\<not> micro_defines blocks (b, j)" if "nat l \<le> j" "j < k" for j
  proof -
    have "\<not> ci_defines (cb_instructions bl ! (nat l + (j - nat l)))"
      using d that k bl by (metis diff_less_mono nth_drop)
    with that k bl show ?thesis by (simp add: micro_defines_def micro_fact_def)
  qed
  from use_state_run [OF start reach] obtain xs where
    xs: "flow_run (micro_len blocks) (micro_succs blocks) (cb, nat ci) xs (b, nat l)"
      "\<forall>x \<in> set xs. \<not> micro_defines blocks x" by blast
  have "flow_run (micro_len blocks) (micro_succs blocks) (b, nat l) (map (Pair b) [nat l..<k]) (b, k)"
    using bl k by (intro flow_run_block [of _ _ "length (cb_instructions bl)"]) (auto simp: micro_len_def)
  from flow_run_trans [OF this xs(1)]
  have "flow_run (micro_len blocks) (micro_succs blocks) (cb, nat ci) (xs @ map (Pair b) [nat l..<k]) (b, k)" .
  with u k bl xs(2) nd show ?thesis
    by (intro exI [of _ "cb_instructions bl ! k"] exI [of _ "xs @ map (Pair b) [nat l..<k]"])
       (auto simp: micro_fact_def)
qed

lemma use_site_mem:
  assumes "site \<in> set (fu_use_sites (find_future_uses blocks cb ci m))"
  shows "\<exists>l k u. ds_instruction_index site = int k \<and>
    (ds_block_id site, l) \<in> set (t_visited (use_trav blocks (cb, ci) m)) \<and>
    use_scan blocks (ds_block_id site, l) = Some (FwdUse k, u) \<and>
    (\<forall>i. micro_fact blocks (ds_block_id site, k) = Some i \<longrightarrow> ds_ea site = ci_ea i)"
proof -
  let ?t = "use_trav blocks (cb, ci) m"
  from assms obtain key where mem: "(key, site) \<in> set (ua_use_sites (t_acc ?t))"
    by (auto simp: find_future_uses_trav Let_def)
  have ok: "use_site_ok blocks (key, site)"
    using mem use_fold_sites [of use_start] unfolding use_trav_facts(2) by auto
  have "key \<in> fst ` set (ua_use_sites (t_acc ?t))" using mem by force
  then obtain st k u where "key = (fst st, int k)" "st \<in> set (t_visited ?t)"
      "use_scan blocks st = Some (FwdUse k, u)"
    unfolding use_trav_facts(2) use_fold(3) by auto
  with ok show ?thesis
    by (cases st; intro exI [of _ "snd st"] exI [of _ k] exI [of _ u])
       (auto simp: use_site_ok_def site_of_key_def)
qed

lemma has_use_iff:
  "fu_has_use (find_future_uses blocks cb ci m) \<longleftrightarrow>
     (\<exists>st k u. st \<in> set (t_visited (use_trav blocks (cb, ci) m)) \<and> use_scan blocks st = Some (FwdUse k, u))"
proof -
  let ?t = "use_trav blocks (cb, ci) m"
  have "fu_has_use (find_future_uses blocks cb ci m) \<longleftrightarrow> fst ` set (ua_use_sites (t_acc ?t)) \<noteq> {}"
    by (simp add: fu_has_use_def find_future_uses_trav Let_def flip: set_empty)
  then show ?thesis unfolding use_trav_facts(2) use_fold(3) by (simp; blast)
qed

lemma visited_start_block:
  assumes "st \<in> set (t_visited (use_trav blocks (cb, ci) m))" "state_block blocks st \<noteq> None"
  shows "state_block blocks (cb, ci) \<noteq> None"
proof -
  have "((cb, ci), st) \<in> (next_rel (use_next blocks))\<^sup>*"
    using assms(1) use_trav_facts(3) [where st = "(cb, ci)"] by blast
  then show ?thesis
    using assms(2) by (cases rule: converse_rtranclE) (auto simp: use_next_mem)
qed

section \<open>Liveness theorems\<close>

lemma use_site_run:
  assumes site: "site \<in> set (fu_use_sites (find_future_uses blocks cb ci m))"
  shows "\<exists>k i xs. ds_instruction_index site = int k \<and>
    micro_fact blocks (ds_block_id site, k) = Some i \<and> ci_use i \<and>
    ds_ea site = ci_ea i \<and> ci_ea i \<noteq> None \<and>
    flow_run (micro_len blocks) (micro_succs blocks) (cb, nat ci) xs (ds_block_id site, k) \<and>
    (\<forall>x \<in> set xs. \<not> micro_defines blocks x)"
proof -
  from use_site_mem [OF site] obtain l k u where k: "ds_instruction_index site = int k"
    and l: "(ds_block_id site, l) \<in> set (t_visited (use_trav blocks (cb, ci) m))"
    and sc: "use_scan blocks (ds_block_id site, l) = Some (FwdUse k, u)"
    and ea: "\<forall>i. micro_fact blocks (ds_block_id site, k) = Some i \<longrightarrow> ds_ea site = ci_ea i"
    by blast
  have "state_block blocks (cb, ci) \<noteq> None"
    using visited_start_block [OF l] sc by (auto simp: use_scan_def)
  moreover have "((cb, ci), (ds_block_id site, l)) \<in> (next_rel (use_next blocks))\<^sup>*"
    using l use_trav_facts(3) [where st = "(cb, ci)"] by blast
  ultimately show ?thesis using use_found_run [OF _ _ sc] k ea by blast
qed

text \<open>
  C4. Every use site of the forward query is a recorded use with the address the site gives,
  and some run leads from the current point to it without executing a definition of the
  variable: the value at the current point is the one that use reads.
\<close>

theorem future_use_sound:
  assumes site: "site \<in> set (fu_use_sites (find_future_uses blocks cb ci m))"
  shows "\<exists>k i xs. ds_instruction_index site = int k \<and>
    micro_fact blocks (ds_block_id site, k) = Some i \<and> ci_use i \<and>
    ds_ea site = ci_ea i \<and> ci_ea i \<noteq> None \<and>
    flow_run (micro_len blocks) (micro_succs blocks) (cb, nat ci) xs (ds_block_id site, k) \<and>
    (\<forall>x \<in> set xs. \<not> micro_defines blocks x)"
  using assms by (rule use_site_run)

lemma future_use_sound_witness:
  "\<exists>k i xs. micro_fact ex_blocks (1, k) = Some i \<and> ci_use i \<and>
    flow_run (micro_len ex_blocks) (micro_succs ex_blocks) (0, 1) xs (1, k) \<and>
    (\<forall>x \<in> set xs. \<not> micro_defines ex_blocks x)"
proof -
  let ?site = "\<lparr>ds_block_id = 1, ds_instruction_index = 0, ds_ea = Some 108, ds_crossed_block = True\<rparr>"
  have "fu_use_sites (find_future_uses ex_blocks 0 1 None) = [?site]" by code_simp
  then have "?site \<in> set (fu_use_sites (find_future_uses ex_blocks 0 1 None))" by simp
  from future_use_sound [OF this] show ?thesis by auto
qed

text \<open>The points a run without definitions passes through are all covered by visited states.\<close>

lemma use_run_covered:
  assumes run: "flow_run (micro_len blocks) (micro_succs blocks) (cb, nat ci) xs (b, k)"
    and free: "\<forall>x \<in> set xs. \<not> micro_defines blocks x"
    and start: "(cb, ci) \<in> V" and closed: "\<forall>st \<in> V. set (use_next blocks st) \<subseteq> V"
    and cut: "\<forall>st \<in> V. \<not> use_cut blocks st"
    and nouse: "\<forall>st \<in> V. \<forall>k u. use_scan blocks st \<noteq> Some (FwdUse k, u)"
  shows "\<exists>l bl. (b, l) \<in> V \<and> state_block blocks (b, l) = Some bl \<and> nat l \<le> k \<and>
    k \<le> length (cb_instructions bl) \<and> (\<forall>j. nat l \<le> j \<and> j < k \<longrightarrow> \<not> ci_defines (cb_instructions bl ! j))"
  using run free
proof (induction xs "(b, k)" arbitrary: b k rule: flow_run.induct)
  case run_refl
  from start cut obtain bl where "state_block blocks (cb, ci) = Some bl"
    by (auto simp: use_cut_def split: option.splits)
  with start run_refl show ?case by (auto simp: state_block_Some intro!: exI [of _ ci])
next
  case (run_instr xs b i n)
  from run_instr(2,5) obtain l bl where l: "(b, l) \<in> V" "state_block blocks (b, l) = Some bl" "nat l \<le> i"
    and nd: "\<forall>j. nat l \<le> j \<and> j < i \<longrightarrow> \<not> ci_defines (cb_instructions bl ! j)" by fastforce
  have n: "n = length (cb_instructions bl)"
    using run_instr(3) l(2) by (auto simp: micro_len_def state_block_Some)
  have "\<not> ci_defines (cb_instructions bl ! i)"
    using run_instr(4,5) l n by (auto simp: micro_defines_def micro_fact_def state_block_Some)
  with l nd run_instr(4) n show ?case
    by (intro exI [of _ l] exI [of _ bl]) (auto simp: less_Suc_eq)
next
  case (run_edge xs b n s)
  from run_edge(2,5) obtain l bl where l: "(b, l) \<in> V" "state_block blocks (b, l) = Some bl" "nat l \<le> n"
    and nd: "\<forall>j. nat l \<le> j \<and> j < n \<longrightarrow> \<not> ci_defines (cb_instructions bl ! j)" by fastforce
  have n: "n = length (cb_instructions bl)" and s: "s \<in> set (cb_successors bl)"
    using run_edge(3,4) l(2) by (auto simp: micro_len_def micro_succs_def state_block_Some)
  have "fst (block_scan_fwd bl l) \<noteq> FwdUse q" for q
    using nouse l by (cases "block_scan_fwd bl l") (fastforce simp: use_scan_def)
  moreover have "\<forall>i \<in> set (drop (nat l) (cb_instructions bl)). \<not> ci_defines i"
    using nd n l(3) by (auto simp: in_set_conv_nth)
  ultimately have thr: "fst (block_scan_fwd bl l) = FwdThrough"
    unfolding block_scan_fwd_def by (intro scan_fwd_no_def) auto
  then obtain sb where sb: "dget blocks s = Some sb"
    using cut l s by (fastforce simp: use_cut_def)
  have "(s, 0) \<in> set (use_next blocks (b, l))" using l thr s sb by (auto simp: use_next_mem)
  then have "(s, 0) \<in> V" using closed l(1) by blast
  with sb run_edge show ?case by (auto simp: state_block_Some intro!: exI [of _ 0])
qed

text \<open>
  C3. The verdict \<^verbatim>\<open>not_live_at_current_pc\<close> is right: when the query gives it, no run from the
  current point reaches an instruction that uses the variable before one that defines it.
\<close>

theorem not_live_sound:
  assumes dead: "future_use_rejection_reason (find_future_uses blocks cb ci m) = Some REASON_NOT_LIVE"
    and run: "flow_run (micro_len blocks) (micro_succs blocks) (cb, nat ci) xs (b, k)"
    and free: "\<forall>x \<in> set xs. \<not> micro_defines blocks x"
    and fact: "micro_fact blocks (b, k) = Some i"
  shows "\<not> ci_use i"
proof -
  let ?r = "find_future_uses blocks cb ci m" and ?t = "use_trav blocks (cb, ci) m"
  have r: "\<not> fu_has_use ?r" "\<not> fu_unresolved_use ?r" "\<not> fu_traversal_exhausted ?r"
    using dead by (auto simp: future_use_rejection_reason_def cfg_reasons split: if_splits)
  then have nex: "\<not> t_exhausted ?t" by (simp add: find_future_uses_trav Let_def)
  note vis = use_trav_facts(4) [OF nex]
  have nouse: "\<forall>st \<in> set (t_visited ?t). \<forall>k u. use_scan blocks st \<noteq> Some (FwdUse k, u)"
    using r(1) by (auto simp: has_use_iff)
  have quiet: "\<forall>st \<in> set (t_visited ?t). \<not> use_unresolved blocks st"
    and cut: "\<forall>st \<in> set (t_visited ?t). \<not> use_cut blocks st"
    using r by (auto simp: find_future_uses_trav Let_def use_trav_facts(2) use_fold)
  have "\<forall>st \<in> set (t_visited ?t). set (use_next blocks st) \<subseteq> set (t_visited ?t)"
    unfolding vis by (auto intro: rtrancl_into_rtrancl)
  from use_run_covered [OF run free _ this cut nouse] vis obtain l bl where
    l: "(b, l) \<in> set (t_visited ?t)" "state_block blocks (b, l) = Some bl" "nat l \<le> k"
    and nd: "\<forall>j. nat l \<le> j \<and> j < k \<longrightarrow> \<not> ci_defines (cb_instructions bl ! j)" by blast
  have k: "k < length (cb_instructions bl)" "i = cb_instructions bl ! k"
    using fact l(2) by (auto simp: micro_fact_def state_block_Some split: if_splits)
  obtain rr u where sc: "block_scan_fwd bl l = (rr, u)" by (cases "block_scan_fwd bl l")
  have "\<not> u" and "\<forall>q. rr \<noteq> FwdUse q"
    using bspec [OF quiet l(1)] bspec [OF nouse l(1)] l(2) sc
    by (auto simp: use_unresolved_def use_scan_def)
  with sc nd l k show ?thesis
    using scan_fwd_quiet [of "drop (nat l) (cb_instructions bl)" "nat l" rr "k - nat l"]
    by (auto simp: block_scan_fwd_def)
qed

text \<open>A block whose only use lies before the point, and whose last instruction redefines.\<close>

definition ex_dead :: micro_cfg where
  "ex_dead =
     [(0, \<lparr>cb_block_id = 0, cb_instructions =
             [ex_insn 100 True False, ex_insn 104 False True, ex_insn 108 False False, ex_insn 112 True False],
           cb_predecessors = [], cb_successors = []\<rparr>)]"

lemma not_live_sound_witness: "\<not> ci_use (ex_insn 112 True False)"
proof -
  have dead: "future_use_rejection_reason (find_future_uses ex_dead 0 2 None) = Some REASON_NOT_LIVE"
    by code_simp
  have "flow_run (micro_len ex_dead) (micro_succs ex_dead) (0, 2) (map (Pair 0) [2..<3]) (0, 3)"
    by (rule flow_run_block [of _ _ 4]) (simp_all add: ex_dead_def micro_len_def)
  then have run: "flow_run (micro_len ex_dead) (micro_succs ex_dead) (0, nat 2) [(0, 2)] (0, 3)"
    by (simp add: upt_conv_Cons)
  have "\<forall>x \<in> set [(0, 2)]. \<not> micro_defines ex_dead x" by code_simp
  moreover have "micro_fact ex_dead (0, 3) = Some (ex_insn 112 True False)" by code_simp
  ultimately show ?thesis by (rule not_live_sound [OF dead run])
qed

section \<open>Bounds and loops of both queries\<close>

text \<open>
  C38. With the default budget the forward query is never cut off by it, so its exhaustion flag
  only reports a state or a successor outside the block table.
\<close>

theorem future_use_budget_suffices:
  "fu_visited_states (find_future_uses blocks cb ci None) \<le> Suc (length blocks) \<and>
   (fu_traversal_exhausted (find_future_uses blocks cb ci None) \<longleftrightarrow>
     (\<exists>st. ((cb, ci), st) \<in> (next_rel (use_next blocks))\<^sup>* \<and> use_cut blocks st))"
proof -
  let ?A = "insert (cb, ci) ((\<lambda>(b, bl). (b, 0)) ` set blocks)"
  let ?t = "use_trav blocks (cb, ci) None"
  have cA: "card ?A \<le> Suc (length blocks)"
    using card_block_states [of "\<lambda>b bl. (b, 0 :: int)" blocks] by (simp add: card_insert_if)
  have "st \<in> ?A" if "((cb, ci), st) \<in> (next_rel (use_next blocks))\<^sup>*" for st
    using that
    by (induction rule: rtrancl_induct) (force simp: use_next_mem dest!: map_of_SomeD)+
  then have sub: "(next_rel (use_next blocks))\<^sup>* `` {(cb, ci)} \<subseteq> ?A" by blast
  have nex: "\<not> t_exhausted ?t"
    unfolding use_trav_def
    using sub cA by (intro traverse_not_exhausted [of ?A]) (auto simp: state_budget_def)
  have "length (t_visited ?t) \<le> card ?A"
    using sub use_trav_facts(1,3) [where st = "(cb, ci)" and m = None]
    by (intro finite_measure_less) auto
  then show ?thesis
    using cA nex use_trav_facts(4) [OF nex]
    by (auto simp: find_future_uses_trav Let_def use_trav_facts(2) use_fold)
qed

lemma restricted_cycle:
  assumes "V = R\<^sup>* `` {s}" "E = (SIGMA x : V. R `` {x})"
  shows "\<not> acyclic E \<longleftrightarrow> (\<exists>x. (s, x) \<in> R\<^sup>* \<and> (x, x) \<in> R\<^sup>+)"
proof
  assume "\<not> acyclic E"
  then obtain x where x: "(x, x) \<in> E\<^sup>+" by (auto simp: acyclic_def)
  then obtain y where "(x, y) \<in> E" by (metis converse_tranclE)
  then have "x \<in> V" using assms(2) by blast
  moreover have "E\<^sup>+ \<subseteq> R\<^sup>+" using assms(2) by (intro trancl_mono_subset) auto
  ultimately show "\<exists>x. (s, x) \<in> R\<^sup>* \<and> (x, x) \<in> R\<^sup>+" using x assms(1) by blast
next
  assume "\<exists>x. (s, x) \<in> R\<^sup>* \<and> (x, x) \<in> R\<^sup>+"
  then obtain x where x: "(s, x) \<in> R\<^sup>*" "(x, x) \<in> R\<^sup>+" by blast
  have "(x, y) \<in> E\<^sup>+ \<and> y \<in> V" if "(x, y) \<in> R\<^sup>+" for y
    using that
  proof (induction rule: trancl_induct)
    case (base y)
    with x assms show ?case by (auto intro: rtrancl_into_rtrancl)
  next
    case (step y z)
    then have "(y, z) \<in> E" "z \<in> V" using assms by (auto intro: rtrancl_into_rtrancl)
    with step.IH show ?case by (auto intro: trancl_into_trancl)
  qed
  with x show "\<not> acyclic E" by (auto simp: acyclic_def)
qed

lemma traversal_cycle:
  assumes "edges_wf (t_edges t)" "set (t_visited t) = (next_rel nx)\<^sup>* `` {s}"
    "edge_rel (t_edges t) = (SIGMA x : set (t_visited t). set (nx x))"
  shows "graph_has_cycle (t_edges t) \<longleftrightarrow>
    (\<exists>x. (s, x) \<in> (next_rel nx)\<^sup>* \<and> (x, x) \<in> (next_rel nx)\<^sup>+)"
  unfolding graph_has_cycle_iff [OF assms(1)]
  by (rule restricted_cycle [OF assms(2)]) (use assms(3) in auto)

text \<open>
  The loop flag of an unexhausted backward query is exact: it is set if and only if the
  explored states contain one that leads back to itself.
\<close>

lemma reaching_loop_exact:
  assumes "\<not> rd_traversal_exhausted (find_reaching_definitions blocks cb ci m)"
  shows "rd_loop_detected (find_reaching_definitions blocks cb ci m) \<longleftrightarrow>
    (\<exists>st. ((cb, ci), st) \<in> (next_rel (reach_next blocks))\<^sup>* \<and> (st, st) \<in> (next_rel (reach_next blocks))\<^sup>+)"
proof -
  let ?t = "reach_trav blocks (cb, ci) m"
  have "\<not> t_exhausted ?t" using assms by (simp add: find_reaching_definitions_trav Let_def)
  from traversal_cycle [OF reach_trav_facts(5) reach_trav_facts(4) [OF this] reach_trav_facts(6)]
  show ?thesis by (simp add: find_reaching_definitions_trav Let_def)
qed

text \<open>A block that is its own predecessor.\<close>

definition ex_loop :: micro_cfg where
  "ex_loop =
     [(0, \<lparr>cb_block_id = 0, cb_instructions = [ex_insn 100 False False],
           cb_predecessors = [0], cb_successors = [0]\<rparr>)]"

end
