(* ===== verification/V_Static_Proofs.thy ===== *)
theory V_Static_Proofs
  imports V_Static Native_Code_Proofs Cfg_Liveness
begin

text \<open>
  Correctness of the static analysis: the snapshots meet the conditions of the control-flow queries,
  every piece of exact evidence is backed by a definition that reaches the current point and a
  later use, the claimed register slice or stack slot still holds what the definition left there, and
  no storage is claimed twice.
\<close>

section \<open>The microcode snapshot\<close>

lemma micro_block_data_ok:
  assumes "micro_block_data m serial = Inr d"
  shows "md_block_id d = serial" "length (md_accesses d) = length (md_instructions d)"
    "length (md_eas d) = length (md_instructions d)"
  using assms by (auto simp: micro_block_data_def res_bind_Inr_iff Let_def dest!: collect_all_length
      split: option.splits if_splits)

lemma collect_micro_blocks_ok:
  assumes "collect_micro_blocks m = Inr blocks"
  shows "dkeys blocks = [0..mb_qty m - 1]"
    "validate_cfg_reciprocity md_predecessors md_successors blocks ''microcode'' = Inr ()"
    "dget blocks k = Some d \<Longrightarrow> md_block_id d = k \<and> length (md_accesses d) = length (md_instructions d) \<and>
      length (md_eas d) = length (md_instructions d)"
proof -
  from assms obtain datas where d: "collect_all (micro_block_data m) [0..mb_qty m - 1] = Inr datas"
    and b: "blocks = map (\<lambda>d. (md_block_id d, d)) datas"
    and v: "validate_cfg_reciprocity md_predecessors md_successors blocks ''microcode'' = Inr ()"
    by (auto simp: collect_micro_blocks_def res_bind_Inr_iff Let_def split: if_splits)
  have nth: "micro_block_data m ([0..mb_qty m - 1] ! i) = Inr (datas ! i)" if "i < length datas" for i
    using collect_all_nth [OF d] collect_all_length [OF d] that by simp
  show "dkeys blocks = [0..mb_qty m - 1]"
    unfolding b using collect_all_length [OF d] micro_block_data_ok(1) [OF nth] by (auto intro: nth_equalityI)
  show "validate_cfg_reciprocity md_predecessors md_successors blocks ''microcode'' = Inr ()" by (rule v)
  show "md_block_id d = k \<and> length (md_accesses d) = length (md_instructions d) \<and>
      length (md_eas d) = length (md_instructions d)" if "dget blocks k = Some d"
    using map_of_SomeD [OF that] nth micro_block_data_ok(2,3) unfolding b
    by (auto simp: in_set_conv_nth) metis+
qed

lemma check_all_map: "check_all g (map h xs) = check_all (\<lambda>x. g (h x)) xs"
  by (induction xs) auto

text \<open>Validation only looks at the recorded edges.\<close>

lemma validate_mapped:
  assumes "\<And>k b. preds' (f k b) = preds b" "\<And>k b. succs' (f k b) = succs b"
  shows "validate_cfg_reciprocity preds' succs' (map (\<lambda>(k, b). (k, f k b)) blocks) label =
    validate_cfg_reciprocity preds succs blocks label"
proof -
  have get: "dget (map (\<lambda>(k, b). (k, f k b)) blocks) x = map_option (f x) (dget blocks x)" for x
    by (induction blocks) auto
  have edge: "check_edge label preds' (map (\<lambda>(k, b). (k, f k b)) blocks) b s x y = check_edge label preds blocks b s x y"
    "check_edge label succs' (map (\<lambda>(k, b). (k, f k b)) blocks) b s x y = check_edge label succs blocks b s x y" for b s x y
    by (auto simp: check_edge_def get assms split: option.splits)
  show ?thesis
    unfolding validate_cfg_reciprocity_def check_all_map case_prod_beta by (simp add: edge [unfolded case_prod_beta] assms)
qed

lemma candidate_cfg_get:
  "dget (candidate_cfg_facts m l i w blocks) k =
     map_option (\<lambda>d. \<lparr>cb_block_id = k,
          cb_instructions = map (instruction_fact m l i w) (zip (md_instructions d) (zip (md_accesses d) (md_eas d))),
          cb_predecessors = md_predecessors d, cb_successors = md_successors d\<rparr>) (dget blocks k)"
  unfolding candidate_cfg_facts_def by (induction blocks) auto

lemma candidate_cfg_recip:
  assumes "collect_micro_blocks m = Inr blocks"
  shows "validate_cfg_reciprocity cb_predecessors cb_successors (candidate_cfg_facts m' l i w blocks) ''microcode'' = Inr ()"
  unfolding candidate_cfg_facts_def using collect_micro_blocks_ok(2) [OF assms] by (subst validate_mapped) auto

text \<open>A fact of the candidate graph is about the instruction at the same place of the snapshot.\<close>

lemma candidate_fact:
  assumes "collect_micro_blocks m = Inr blocks" "micro_fact (candidate_cfg_facts m' l i w blocks) (b, k) = Some f"
  shows "\<exists>d. dget blocks b = Some d \<and> k < length (md_instructions d) \<and> ci_ea f = md_eas d ! k \<and>
    ci_whole_definition f = is_whole_lvar_definition (md_instructions d ! k) i w \<and>
    ci_overlapping_definition f =
      list_ex (target_overlaps m' l i w (ci_whole_definition f)) (ia_targets (md_accesses d ! k)) \<and>
    ci_use f = (i \<in> set (ia_uses (md_accesses d ! k)))"
proof -
  from assms(2) obtain d where d: "dget blocks b = Some d"
    by (auto simp: micro_fact_def candidate_cfg_get split: option.splits)
  with assms(2) collect_micro_blocks_ok(3) [OF assms(1) d] show ?thesis
    by (auto simp: micro_fact_def candidate_cfg_get instruction_fact_def Let_def split: if_splits)
qed

section \<open>The current point\<close>

lemma point_matches_mem:
  "point_matches ea blocks = Some ms \<Longrightarrow>
   map fst ms = filter (\<lambda>b. positions_of ea b \<noteq> []) blocks \<and> (\<forall>(b, ps) \<in> set ms. ps = positions_of ea b)"
proof (induction blocks arbitrary: ms)
  case (Cons b blocks)
  show ?case
  proof (cases "positions_of ea b = []")
    case False
    with Cons.prems obtain ms' where "point_matches ea blocks = Some ms'" "ms = (b, positions_of ea b) # ms'"
      by (auto simp: Let_def split: if_splits)
    with Cons.IH False show ?thesis by auto
  qed (use Cons in \<open>simp add: Let_def\<close>)
qed simp

lemma positions_of_mem: "p \<in> set (positions_of ea b) \<longleftrightarrow> p < length (md_eas b) \<and> md_eas b ! p = Some ea"
  by (auto simp: positions_of_def in_set_enumerate_eq image_iff)

lemma positions_of_sorted: "sorted_wrt (<) (positions_of ea b)"
proof -
  have "sorted_wrt (\<lambda>x y. fst x < fst y) (List.enumerate n xs)" for n and xs :: "int option list"
    by (induction xs arbitrary: n) (auto simp: in_set_enumerate_eq)
  then show ?thesis unfolding positions_of_def sorted_wrt_map by (rule sorted_wrt_filter)
qed

text \<open>
  The point is the first microinstruction of the current address, and no other block has an
  instruction of that address.
\<close>

lemma exact_point:
  assumes "find_exact_microcode_point blocks ea = Some (b, pos)"
  shows "\<exists>p. pos = int p \<and> b \<in> set (dvals blocks) \<and> p < length (md_eas b) \<and> md_eas b ! p = Some ea \<and>
    (\<forall>q < p. md_eas b ! q \<noteq> Some ea) \<and>
    (\<forall>b' \<in> set (dvals blocks). Some ea \<in> set (md_eas b') \<longrightarrow> b' = b)"
proof -
  from assms obtain ps where m: "point_matches ea (dvals blocks) = Some [(b, ps)]" and pos: "pos = int (hd ps)"
    by (auto simp: find_exact_microcode_point_def split: option.splits list.splits)
  from point_matches_mem [OF m] have f: "filter (\<lambda>b. positions_of ea b \<noteq> []) (dvals blocks) = [b]"
    and ps: "ps = positions_of ea b" by auto
  from f have b: "b \<in> set (dvals blocks)" "positions_of ea b \<noteq> []" 
    using filter_set [of "\<lambda>b. positions_of ea b \<noteq> []" "dvals blocks"] by auto
  have other: "b' = b" if "b' \<in> set (dvals blocks)" "Some ea \<in> set (md_eas b')" for b'
  proof -
    from that(2) obtain p where "p \<in> set (positions_of ea b')" by (metis in_set_conv_nth positions_of_mem)
    then have "b' \<in> set (filter (\<lambda>b. positions_of ea b \<noteq> []) (dvals blocks))" using that(1) by auto
    with f show ?thesis by simp
  qed
  let ?p = "hd (positions_of ea b)"
  have hd: "?p < length (md_eas b)" "md_eas b ! ?p = Some ea" using b(2) hd_in_set positions_of_mem by blast+
  have "\<not> q < ?p" if "q \<in> set (positions_of ea b)" for q
    using that positions_of_sorted [of ea b] by (cases "positions_of ea b") auto
  then have "md_eas b ! q \<noteq> Some ea" if "q < ?p" for q using that hd(1) by (meson less_trans positions_of_mem)
  with hd b(1) other pos ps show ?thesis by blast
qed

section \<open>Where exact evidence comes from\<close>

definition exact_confidences :: "string list" where
  "exact_confidences = [CONFIDENCE_EXACT_CONSTANT, CONFIDENCE_EXACT_REGISTER_LOCATION, CONFIDENCE_EXACT_STACK_LOCATION]"

lemmas exact_defs = exact_confidences_def CONFIDENCE_EXACT_CONSTANT_def CONFIDENCE_EXACT_REGISTER_LOCATION_def
  CONFIDENCE_EXACT_STACK_LOCATION_def CONFIDENCE_UNKNOWN_def

lemma not_exact [simp]:
  "re_confidence (RecoveryEvidence_new i) = CONFIDENCE_UNKNOWN"
  "re_confidence (unavailable_location_evidence ap l i w r) = CONFIDENCE_UNKNOWN"
  "CONFIDENCE_UNKNOWN \<notin> set exact_confidences"
  by (simp_all add: RecoveryEvidence_new_def unavailable_location_evidence_def Let_def)
    (simp add: exact_defs)

lemma fold_dset_SomeD:
  assumes "dget (fold (\<lambda>x. dset (f x) (g x)) xs d) i = Some v"
  shows "(\<exists>x \<in> set xs. f x = i \<and> v = g x) \<or> dget d i = Some v"
  using assms
proof (induction xs arbitrary: d)
  case (Cons x xs)
  from Cons.IH [of "dset (f x) (g x) d"] Cons.prems show ?case by (auto split: if_splits)
qed simp

text \<open>Rejection for storage claimed twice only ever replaces evidence by unproved evidence.\<close>

lemma reject_get:
  "dget (reject_duplicate_storage_claims ev) i =
     (case map_of (rev (duplicate_claims ev)) i of
        None \<Rightarrow> dget ev i
      | Some reason \<Rightarrow> Some ((RecoveryEvidence_new i)\<lparr>re_reason := reason\<rparr>))"
proof -
  define R where "R = fold (\<lambda>(index, reason). dset index reason) (duplicate_claims ev) []"
  have R: "dget R k = map_of (rev (duplicate_claims ev)) k" for k
    unfolding R_def by (subst ad.get_put_all) (simp split: option.split)
  have wf: "dwf R" unfolding R_def by (rule ad.wf_put_all) simp
  have "dget (fold (\<lambda>(index, reason). dset index (g index reason)) R' ev) k =
      (case dget R' k of None \<Rightarrow> dget ev k | Some r \<Rightarrow> Some (g k r))" if "dwf R'" for g R' k and ev :: "(int, RecoveryEvidence) dict"
    using that
  proof (induction R' arbitrary: ev)
    case (Cons x R')
    then have "dget R' (fst x) = None" by (simp add: dget_None_iff)
    with Cons show ?case by (auto simp: case_prod_beta split: option.split)
  qed simp
  from this [OF wf] show ?thesis unfolding reject_duplicate_storage_claims_def R_def [symmetric] R .
qed

lemma exact_from_candidate:
  assumes "analyze_v_variable_candidates st fea ce vars cf0 = Inr a" "dget (ra_evidence_by_index a) i = Some e"
    "re_confidence e \<in> set exact_confidences"
  shows "\<exists>cf an v l. analysis_setup st fea ce cf0 = Inr (Some (cf, an)) \<and> v \<in> set vars \<and> vr_lvar_index v = i \<and>
    mb_vars_at (an_mba an) i = Inr l \<and> fst (analyze_one_lvar st an cf v l) = Inr e"
proof -
  have unknown: "re_confidence e = CONFIDENCE_UNKNOWN"
    if "dget (fold (\<lambda>i. dset i ((RecoveryEvidence_new i)\<lparr>re_reason := r\<rparr>)) is []) i = Some e" for r "is"
    using fold_dset_SomeD [OF that] by auto
  have apis: "st_modules st" "list_all (st_has_name st) required_hexrays_names"
    using assms unknown by (auto simp: analyze_v_variable_candidates_def analysis_failed_def Let_def split: if_splits)
  obtain cf an where an: "analysis_setup st fea ce cf0 = Inr (Some (cf, an))"
  proof (cases "analysis_setup st fea ce cf0")
    case (Inl exc)
    with assms apis unknown show ?thesis by (auto simp: analyze_v_variable_candidates_def analysis_failed_def)
  next
    case (Inr r)
    with assms apis unknown that show ?thesis by (cases r) (auto simp: analyze_v_variable_candidates_def)
  qed
  with assms apis have "dget (reject_duplicate_storage_claims
      (fold (\<lambda>v. dset (vr_lvar_index v) (candidate_evidence st an cf v)) vars [])) i = Some e"
    by (auto simp: analyze_v_variable_candidates_def)
  then have "dget (fold (\<lambda>v. dset (vr_lvar_index v) (candidate_evidence st an cf v)) vars []) i = Some e"
    using assms(3) by (auto simp: reject_get split: option.splits)
  from fold_dset_SomeD [OF this] obtain v where v: "v \<in> set vars" "vr_lvar_index v = i" "candidate_evidence st an cf v = e"
    by auto
  then obtain lo lines where r: "candidate_result st an cf v = (lo, Inr e, lines)"
    using assms(3) by (auto simp: candidate_evidence_def split: prod.splits sum.splits py_error.splits)
  then obtain l where "mb_vars_at (an_mba an) i = Inr l" "analyze_one_lvar st an cf v l = (Inr e, lines)"
    using v(2) by (auto simp: candidate_result_def rejected_def Let_def split: if_splits sum.splits)
  with an v show ?thesis by auto
qed

section \<open>One lvar\<close>

text \<open>What the analysis has established when it returns evidence for an lvar.\<close>

lemma analyze_one_exact:
  assumes "fst (analyze_one_lvar st an cf v l) = Inr e"
  defines "cfg \<equiv> candidate_cfg_facts (an_mba an) l (vr_lvar_index v) (vr_size v) (an_blocks an)"
  shows "lvar_shape_rejection l (vr_size v) = None"
    "reaching_definition_rejection_reason
       (find_reaching_definitions cfg (md_block_id (an_current_block an)) (an_boundary an) None) = None"
    "future_use_rejection_reason
       (find_future_uses cfg (md_block_id (an_current_block an)) (an_boundary an) None) = None"
    "\<exists>defn de nd. definition_at (an_blocks an) (hd (rd_definitions
         (find_reaching_definitions cfg (md_block_id (an_current_block an)) (an_boundary an) None))) = Some (defn, de) \<and>
       decode_instruction (fn_native (an_func an)) de = Some nd \<and>
       fst (storage_evidence st an cf v l (hd (rd_definitions
         (find_reaching_definitions cfg (md_block_id (an_current_block an)) (an_boundary an) None))) defn de nd) = Inr e"
  using assms(1) unfolding cfg_def analyze_one_lvar_def Let_def rejected_def
  by (auto split: option.splits prod.splits)

lemma storage_evidence_cases:
  assumes "fst (storage_evidence st an cf v l site defn de nd) = Inr e"
  shows "re_source_ea e = Some de" "re_width e = vr_size v"
    and "re_confidence e = CONFIDENCE_EXACT_CONSTANT \<and>
        re_constant_value e = direct_constant_definition defn (vr_lvar_index v) (vr_size v) \<and> re_constant_value e \<noteq> None \<or>
      re_confidence e = CONFIDENCE_EXACT_REGISTER_LOCATION \<and>
        (\<exists>reg blocks. register_spec_from_lvar (st_registers st) l (vr_size v) = Some reg \<and> re_register e = Some reg \<and>
           an_native_cfg an = Some blocks \<and>
           sv_valid (validate_register_storage_cfg blocks de (an_current_ea an) reg (vr_size v))) \<or>
      re_confidence e = CONFIDENCE_EXACT_STACK_LOCATION \<and>
        (\<exists>rsp off. current_rsp_location_for_lvar st l (an_mba an) cf (an_func an) (an_current_ea an) = Inr (rsp, off) \<and>
           re_stack_pointer_offset e = Some rsp \<and>
           stack_definition_remains_valid (fn_native (an_func an)) de (an_current_ea an) off (vr_size v))"
    (is "?C \<or> ?R \<or> ?S")
proof -
  have c: "re_source_ea e = Some de \<and> re_width e = w \<and> re_confidence e = CONFIDENCE_EXACT_CONSTANT \<and>
      re_constant_value e = Some c" if "constant_evidence fs i w de c = Inr e" for fs i w c
    using that by (auto simp: constant_evidence_def rejected_def res_bind_Inr_iff split: if_splits)
  have r: "re_source_ea e = Some de \<and> re_width e = w \<and> re_confidence e = CONFIDENCE_EXACT_REGISTER_LOCATION \<and>
      re_register e = Some reg \<and> (\<exists>blocks. an_native_cfg an = Some blocks \<and>
        sv_valid (validate_register_storage_cfg blocks de (an_current_ea an) reg w))"
    if "fst (register_evidence an n i w de reg) = Inr e" for n i w reg
    using that by (auto simp: register_evidence_def rejected_def Let_def split: option.splits if_splits)
  have s: "re_source_ea e = Some de \<and> re_width e = w \<and> re_confidence e = CONFIDENCE_EXACT_STACK_LOCATION \<and>
      (\<exists>rsp off. current_rsp_location_for_lvar st l (an_mba an) cf (an_func an) (an_current_ea an) = Inr (rsp, off) \<and>
         re_stack_pointer_offset e = Some rsp \<and>
         stack_definition_remains_valid (fn_native (an_func an)) de (an_current_ea an) off w)"
    if "stack_evidence st an cf l i w b de = Inr e" for i w b
    using that by (auto simp: stack_evidence_def rejected_def res_bind_Inr_iff split: if_splits)
  have "(\<exists>c. direct_constant_definition defn (vr_lvar_index v) (vr_size v) = Some c \<and>
        constant_evidence (an_ctree_facts an) (vr_lvar_index v) (vr_size v) de c = Inr e) \<or>
      (\<exists>reg. register_spec_from_lvar (st_registers st) l (vr_size v) = Some reg \<and>
        fst (register_evidence an (vr_name v) (vr_lvar_index v) (vr_size v) de reg) = Inr e) \<or>
      stack_evidence st an cf l (vr_lvar_index v) (vr_size v) (ds_block_id site) de = Inr e"
    using assms unfolding storage_evidence_def Let_def rejected_def by (auto split: option.splits if_splits)
  then have "re_source_ea e = Some de \<and> re_width e = vr_size v \<and> (?C \<or> ?R \<or> ?S)"
  proof (elim disjE exE conjE)
    fix k assume "direct_constant_definition defn (vr_lvar_index v) (vr_size v) = Some k"
      "constant_evidence (an_ctree_facts an) (vr_lvar_index v) (vr_size v) de k = Inr e"
    with c show ?thesis by simp
  next
    fix reg assume "register_spec_from_lvar (st_registers st) l (vr_size v) = Some reg"
      "fst (register_evidence an (vr_name v) (vr_lvar_index v) (vr_size v) de reg) = Inr e"
    with r show ?thesis by blast
  next
    assume "stack_evidence st an cf l (vr_lvar_index v) (vr_size v) (ds_block_id site) de = Inr e"
    with s show ?thesis by blast
  qed
  then show "re_source_ea e = Some de" "re_width e = vr_size v" "?C \<or> ?R \<or> ?S" by blast+
qed

lemma opt_case_Inr: "(case x of None \<Rightarrow> Inl err | Some y \<Rightarrow> f y) = Inr b \<longleftrightarrow> (\<exists>y. x = Some y \<and> f y = Inr b)"
  by (cases x) auto

lemma analysis_setup_parts:
  assumes "analysis_setup st fea ce cf0 = Inr (Some (cf, an))"
  shows "collect_micro_blocks (an_mba an) = Inr (an_blocks an)"
    "find_exact_microcode_point (an_blocks an) ce = Some (an_current_block an, an_boundary an)"
    "an_current_ea an = ce" "st_get_func st ce = Inr (Some (an_func an))"
    "build_native_cfg_facts (fn_native (an_func an)) = (an_native_cfg an, an_native_cfg_error an)"
proof -
  from assms obtain func cf' m where f: "st_get_func st ce = Inr (Some func)"
    and s: "analysis_snapshot st func cf' m ce = Inr (Some (cf, an))"
    unfolding analysis_setup_def res_bind_Inr_iff opt_case_Inr by (fastforce split: option.split_asm if_split_asm)
  from s obtain blocks where "collect_micro_blocks m = Inr blocks"
    "(case find_exact_microcode_point blocks ce of None \<Rightarrow> None
      | Some (current_block, boundary) \<Rightarrow> Some (cf',
          \<lparr>an_mba = m, an_func = func, an_blocks = blocks, an_current_block = current_block,
           an_boundary = boundary, an_current_ea = ce, an_native_bounds = native_block_bounds (fn_native func) ce,
           an_native_cfg = fst (build_native_cfg_facts (fn_native func)),
           an_native_cfg_error = snd (build_native_cfg_facts (fn_native func)),
           an_ctree_facts = collect_ctree_facts m (st_has_name st) (st_ctree st cf')\<rparr>)) = Some (cf, an)"
    unfolding analysis_snapshot_def case_prod_beta res_bind_Inr_iff sum.inject by blast
  with f show "collect_micro_blocks (an_mba an) = Inr (an_blocks an)"
    "find_exact_microcode_point (an_blocks an) ce = Some (an_current_block an, an_boundary an)"
    "an_current_ea an = ce" "st_get_func st ce = Inr (Some (an_func an))"
    "build_native_cfg_facts (fn_native (an_func an)) = (an_native_cfg an, an_native_cfg_error an)"
    by (auto split: option.split_asm)
qed

text \<open>The definition and the use behind the evidence for an lvar.\<close>

lemma exact_definition:
  assumes snap: "collect_micro_blocks (an_mba an) = Inr (an_blocks an)" and one: "fst (analyze_one_lvar st an cf v l) = Inr e"
  defines "cfg \<equiv> candidate_cfg_facts (an_mba an) l (vr_lvar_index v) (vr_size v) (an_blocks an)"
  shows "re_width e = vr_size v \<and> (\<exists>site k d.
    rd_definitions (find_reaching_definitions cfg (md_block_id (an_current_block an)) (an_boundary an) None) = [site] \<and>
    ds_instruction_index site = int k \<and> dget (an_blocks an) (ds_block_id site) = Some d \<and> k < length (md_instructions d) \<and>
    md_eas d ! k = re_source_ea e \<and>
    (re_confidence e = CONFIDENCE_EXACT_CONSTANT \<longrightarrow> re_constant_value e \<noteq> None \<and>
      direct_constant_definition (md_instructions d ! k) (vr_lvar_index v) (vr_size v) = re_constant_value e))"
proof -
  let ?r = "find_reaching_definitions cfg (md_block_id (an_current_block an)) (an_boundary an) None"
  note an1 = analyze_one_exact [OF one, folded cfg_def]
  from rejection_None(1) [OF an1(2)] obtain site where site: "rd_definitions ?r = [site]" by blast
  from an1(4) site obtain defn de nd where at: "definition_at (an_blocks an) site = Some (defn, de)"
    and se: "fst (storage_evidence st an cf v l site defn de nd) = Inr e" by auto
  note se' = storage_evidence_cases [OF se]
  from at obtain d where d: "dget (an_blocks an) (ds_block_id site) = Some d" "0 \<le> ds_instruction_index site"
    "ds_instruction_index site < int (length (md_instructions d))" "defn = md_instructions d ! nat (ds_instruction_index site)"
    "ds_ea site = Some de"
    by (auto simp: definition_at_def split: option.splits if_splits)
  define k where "k = nat (ds_instruction_index site)"
  have k: "ds_instruction_index site = int k" "k < length (md_instructions d)" using d by (auto simp: k_def)
  have "length (md_accesses d) = length (md_instructions d)" "length (md_eas d) = length (md_instructions d)"
    using collect_micro_blocks_ok(3) [OF snap d(1)] by auto
  then obtain f where f: "micro_fact cfg (ds_block_id site, k) = Some f" "ci_ea f = md_eas d ! k"
    using d(1) k(2) by (simp add: cfg_def micro_fact_def candidate_cfg_get instruction_fact_def Let_def)
  have "ds_ea site = ci_ea f"
    using reach_site_ea [of site cfg "md_block_id (an_current_block an)" "an_boundary an" None f] site f(1) by (simp add: k_def)
  with d(5) f(2) have ea: "md_eas d ! k = Some de" by simp
  have "re_constant_value e \<noteq> None \<and>
      direct_constant_definition (md_instructions d ! k) (vr_lvar_index v) (vr_size v) = re_constant_value e"
    if "re_confidence e = CONFIDENCE_EXACT_CONSTANT"
  proof -
    have "re_confidence e \<noteq> CONFIDENCE_EXACT_REGISTER_LOCATION" "re_confidence e \<noteq> CONFIDENCE_EXACT_STACK_LOCATION"
      unfolding that by (simp_all add: exact_defs)
    with se'(3) d(4) show ?thesis unfolding k_def by metis
  qed
  with site k d(1) ea se'(1,2) show ?thesis by metis
qed

lemma exact_use:
  assumes snap: "collect_micro_blocks (an_mba an) = Inr (an_blocks an)" and one: "fst (analyze_one_lvar st an cf v l) = Inr e"
  defines "cfg \<equiv> candidate_cfg_facts (an_mba an) l (vr_lvar_index v) (vr_size v) (an_blocks an)"
  shows "\<exists>b k d us. dget (an_blocks an) b = Some d \<and> k < length (md_instructions d) \<and>
    vr_lvar_index v \<in> set (ia_uses (md_accesses d ! k)) \<and>
    flow_run (micro_len cfg) (micro_succs cfg) (md_block_id (an_current_block an), nat (an_boundary an)) us (b, k) \<and>
    (\<forall>u \<in> set us. \<not> micro_defines cfg u)"
proof -
  let ?u = "find_future_uses cfg (md_block_id (an_current_block an)) (an_boundary an) None"
  have "fu_use_sites ?u \<noteq> []"
    using analyze_one_exact(3) [OF one, folded cfg_def]
    by (auto simp: future_use_rejection_reason_def fu_has_use_def split: if_splits)
  then obtain use where "use \<in> set (fu_use_sites ?u)" using list.set_sel(1) by blast
  from use_site_run [OF this] obtain k f us where
    u: "micro_fact cfg (ds_block_id use, k) = Some f" "ci_use f"
      "flow_run (micro_len cfg) (micro_succs cfg) (md_block_id (an_current_block an), nat (an_boundary an)) us (ds_block_id use, k)"
      "\<forall>x \<in> set us. \<not> micro_defines cfg x"
    by blast
  from candidate_fact [OF snap u(1) [unfolded cfg_def]] u(2) obtain d where
    "dget (an_blocks an) (ds_block_id use) = Some d" "k < length (md_instructions d)"
    "vr_lvar_index v \<in> set (ia_uses (md_accesses d ! k))" by auto
  with u(3,4) show ?thesis by blast
qed

text \<open>The storage facts behind exact evidence of each kind.\<close>

lemma exact_storage:
  assumes "analyze_v_variable_candidates st fea ce vars cf0 = Inr a" "dget (ra_evidence_by_index a) i = Some e"
    "re_confidence e \<in> set exact_confidences"
  shows "\<exists>cf (m :: mba) l de func.
    st_get_func st ce = Inr (Some func) \<and> re_source_ea e = Some de \<and> re_width e \<in> set SUPPORTED_WIDTHS \<and>
    (re_confidence e = CONFIDENCE_EXACT_REGISTER_LOCATION \<longrightarrow>
      (\<exists>reg blocks err name. re_register e = Some reg \<and> normalize_register_alias name = Some reg \<and> re_width e \<le> rs_width reg \<and>
         build_native_cfg_facts (fn_native func) = (Some blocks, err) \<and>
         sv_valid (validate_register_storage_cfg blocks de ce reg (re_width e)))) \<and>
    (re_confidence e = CONFIDENCE_EXACT_STACK_LOCATION \<longrightarrow>
      (\<exists>rsp off. current_rsp_location_for_lvar st l m cf func ce = Inr (rsp, off) \<and>
         re_stack_pointer_offset e = Some rsp \<and>
         stack_definition_remains_valid (fn_native func) de ce off (re_width e)))"
proof -
  from exact_from_candidate [OF assms] obtain cf an v l where
    an: "analysis_setup st fea ce cf0 = Inr (Some (cf, an))" and v: "fst (analyze_one_lvar st an cf v l) = Inr e" by blast
  note parts = analysis_setup_parts [OF an]
  note one = analyze_one_exact [OF v]
  from one(4) obtain defn de nd site where se: "fst (storage_evidence st an cf v l site defn de nd) = Inr e" by blast
  note se' = storage_evidence_cases [OF se]
  have width: "re_width e \<in> set SUPPORTED_WIDTHS"
    using one(1) unfolding se'(2) by (auto simp: lvar_shape_rejection_def Let_def split: if_splits)
  have spec: "\<exists>name. normalize_register_alias name = Some reg \<and> w \<le> rs_width reg"
    if "register_spec_from_lvar ap l w = Some reg" for ap w reg
  proof -
    have "first_fitting_spec w names = Some reg \<Longrightarrow> \<exists>name. normalize_register_alias name = Some reg \<and> w \<le> rs_width reg" for names
      by (induction names) (auto split: option.splits if_splits)
    with that show ?thesis by (auto simp: register_spec_from_lvar_def split: if_splits sum.splits)
  qed
  have kinds: "CONFIDENCE_EXACT_REGISTER_LOCATION \<noteq> CONFIDENCE_EXACT_CONSTANT"
    "CONFIDENCE_EXACT_STACK_LOCATION \<noteq> CONFIDENCE_EXACT_CONSTANT"
    "CONFIDENCE_EXACT_REGISTER_LOCATION \<noteq> CONFIDENCE_EXACT_STACK_LOCATION"
    by (simp_all add: exact_defs)
  show ?thesis
    using parts(3-5) se'(1,3) kinds width unfolding se'(2)
    by - (rule exI [of _ cf], rule exI [of _ "an_mba an"], rule exI [of _ l], rule exI [of _ de], rule exI [of _ "an_func an"],
      auto dest!: spec)
qed

section \<open>Storage claimed twice\<close>

lemma claims_conflict_iff:
  "claims_conflict left right \<noteq> None \<longleftrightarrow>
     re_storage_kind left = re_storage_kind right \<and>
     (re_storage_kind left = ''register'' \<and>
        (\<exists>lr rr. re_register left = Some lr \<and> re_register right = Some rr \<and> rs_full_register lr = rs_full_register rr \<and>
           rs_bit_offset lr < rs_bit_offset rr + re_width right * 8 \<and> rs_bit_offset rr < rs_bit_offset lr + re_width left * 8) \<or>
      re_storage_kind left = ''stack'' \<and>
        (\<exists>ls rs. re_stack_pointer_offset left = Some ls \<and> re_stack_pointer_offset right = Some rs \<and>
           ls < rs + re_width right \<and> rs < ls + re_width left))"
  by (auto simp: claims_conflict_def Let_def)

lemma claims_conflict_sym: "claims_conflict left right \<noteq> None \<longleftrightarrow> claims_conflict right left \<noteq> None"
  unfolding claims_conflict_iff by metis

lemma pair_claims:
  "i \<in> fst ` set (concat (map (\<lambda>(j, f). case claims_conflict c f of None \<Rightarrow> [] | Some r \<Rightarrow> [(k, r), (j, r)]) xs)) \<longleftrightarrow>
   (\<exists>j f. (j, f) \<in> set xs \<and> claims_conflict c f \<noteq> None \<and> (i = k \<or> i = j))"
proof (induction xs)
  case (Cons x xs)
  obtain j f where "x = (j, f)" by (cases x)
  with Cons show ?case by (cases "claims_conflict c f") (auto simp: image_Un)
qed simp

lemma duplicate_claims_iff:
  assumes "dwf ev"
  shows "i \<in> fst ` set (duplicate_claims ev) \<longleftrightarrow>
    (\<exists>e j f. dget ev i = Some e \<and> dget ev j = Some f \<and> j \<noteq> i \<and> claims_conflict e f \<noteq> None)"
  using assms
proof (induction ev)
  case (Cons x ev)
  obtain k c where x: "x = (k, c)" by (cases x)
  with Cons.prems have new: "dget ev k = None" and wf: "dwf ev" by (auto simp: dget_None_iff)
  have mem: "(j, f) \<in> set ev \<longleftrightarrow> dget ev j = Some f" for j f using wf by (simp add: map_of_eq_Some_iff)
  have "i \<in> fst ` set (concat (map (\<lambda>(j, f). case claims_conflict c f of None \<Rightarrow> [] | Some r \<Rightarrow> [(k, r), (j, r)]) ev)) \<longleftrightarrow>
      (\<exists>j f. dget ev j = Some f \<and> claims_conflict c f \<noteq> None \<and> (i = k \<or> i = j))"
    unfolding pair_claims mem ..
  moreover have "(\<exists>e j f. dget (x # ev) i = Some e \<and> dget (x # ev) j = Some f \<and> j \<noteq> i \<and> P e f) \<longleftrightarrow>
      (\<exists>j f. dget ev j = Some f \<and> P c f \<and> (i = k \<or> i = j)) \<or>
      (\<exists>e j f. dget ev i = Some e \<and> dget ev j = Some f \<and> j \<noteq> i \<and> P e f)"
    if "\<And>a b. P a b \<longleftrightarrow> P b a" for P
  proof -
    have get: "dget (x # ev) y = (if y = k then Some c else dget ev y)" for y by (simp add: x)
    show ?thesis
    proof (cases "i = k")
      case True
      moreover have "j \<noteq> k" if "dget ev j = Some f" for j f using that new by auto
      ultimately show ?thesis using new unfolding get by simp blast
    next
      case False
      have "(\<exists>j f. (if j = k then Some c else dget ev j) = Some f \<and> j \<noteq> i \<and> P e f) \<longleftrightarrow>
          P c e \<or> (\<exists>j f. dget ev j = Some f \<and> j \<noteq> i \<and> P e f)" for e
        using False new that [of e c] by (auto split: if_splits) (metis option.distinct(1))
      with False show ?thesis unfolding get by simp blast
    qed
  qed
  note this [of "\<lambda>a b. claims_conflict a b \<noteq> None", OF claims_conflict_sym]
  ultimately show ?case using Cons.IH [OF wf] by (simp add: x image_Un)
qed simp

lemma reject_conflict_free:
  assumes "dwf ev" "dget (reject_duplicate_storage_claims ev) i = Some e" "dget (reject_duplicate_storage_claims ev) j = Some f" "i \<noteq> j"
  shows "claims_conflict e f = None"
proof -
  have fresh: "claims_conflict ((RecoveryEvidence_new k)\<lparr>re_reason := r\<rparr>) g = None" for k r g
    using claims_conflict_iff [of "(RecoveryEvidence_new k)\<lparr>re_reason := r\<rparr>" g] by (auto simp: RecoveryEvidence_new_def)
  have fresh': "claims_conflict g ((RecoveryEvidence_new k)\<lparr>re_reason := r\<rparr>) = None" for k r g
    using fresh claims_conflict_sym by blast
  have none: "map_of (rev (duplicate_claims ev)) k = None \<longleftrightarrow> k \<notin> fst ` set (duplicate_claims ev)" for k
    by (simp add: map_of_eq_None_iff)
  show ?thesis
  proof (cases "i \<in> fst ` set (duplicate_claims ev) \<or> j \<in> fst ` set (duplicate_claims ev)")
    case True
    then obtain r where "map_of (rev (duplicate_claims ev)) i = Some r \<or> map_of (rev (duplicate_claims ev)) j = Some r"
      using none by (metis option.exhaust)
    with assms(2,3) fresh fresh' show ?thesis by (auto simp: reject_get)
  next
    case False
    then have "map_of (rev (duplicate_claims ev)) i = None" "map_of (rev (duplicate_claims ev)) j = None"
      using none by blast+
    with assms(2,3) have "dget ev i = Some e" "dget ev j = Some f" by (simp_all add: reject_get)
    with False duplicate_claims_iff [OF assms(1), of i] assms(4) show ?thesis by metis
  qed
qed

text \<open>The evidence of an analysis: the same reason for all lvars, or the surviving candidates.\<close>

lemma analysis_evidence_cases:
  assumes "analyze_v_variable_candidates st fea ce vars cf0 = Inr a"
  shows "(\<exists>r. ra_evidence_by_index a = fold (\<lambda>i. dset i ((RecoveryEvidence_new i)\<lparr>re_reason := r\<rparr>)) (map vr_lvar_index vars) []) \<or>
    (\<exists>cf an. ra_evidence_by_index a = reject_duplicate_storage_claims
       (fold (\<lambda>v. dset (vr_lvar_index v) (candidate_evidence st an cf v)) vars []))"
proof (cases "\<not> st_modules st \<or> \<not> list_all (st_has_name st) required_hexrays_names")
  case True
  with assms show ?thesis by (auto simp: analyze_v_variable_candidates_def analysis_failed_def Let_def split: if_splits)
next
  case False
  show ?thesis
  proof (cases "analysis_setup st fea ce cf0")
    case (Inl exc)
    with False assms show ?thesis by (auto simp: analyze_v_variable_candidates_def analysis_failed_def)
  next
    case (Inr r)
    show ?thesis
    proof (cases r)
      case None
      with Inr False assms show ?thesis by (auto simp: analyze_v_variable_candidates_def)
    next
      case (Some x)
      obtain cf an where x: "x = (cf, an)" by (cases x)
      from Inr Some False assms have "ra_evidence_by_index a = reject_duplicate_storage_claims
          (fold (\<lambda>v. dset (vr_lvar_index v) (candidate_evidence st an cf v)) vars [])"
        by (auto simp: analyze_v_variable_candidates_def x)
      then show ?thesis by blast
    qed
  qed
qed

lemma fold_dset_wf: "dwf d \<Longrightarrow> dwf (fold (\<lambda>x. dset (f x) (g x)) xs d)"
  by (induction xs arbitrary: d) (simp_all add: distinct_update)

section \<open>Register claims\<close>

lemma register_evidence_run:
  assumes analysis: "analyze_v_variable_candidates st fea ce vars cf0 = Inr a" "dget (ra_evidence_by_index a) i = Some e"
      "re_confidence e = CONFIDENCE_EXACT_REGISTER_LOCATION"
    and code: "st_get_func st ce = Inr (Some func)" "build_native_cfg_facts (fn_native func) = (Some blocks, err)"
    and entry: "dget blocks b0 = Some eb" "nb_predecessors eb = []"
    and run: "flow_run (native_len blocks) (native_succs blocks) (b0, 0) xs (cb, pos)"
    and here: "native_fact blocks (cb, pos) = Some c" "ni_ea c = ce"
    and contents: "length vs = Suc (length xs)" "\<forall>j < length xs. keeps_unwritten blocks (xs ! j) (vs ! j) (vs ! Suc j)"
  shows "\<exists>reg ys b k zs d. re_register e = Some reg \<and> re_width e \<in> set SUPPORTED_WIDTHS \<and> re_width e \<le> rs_width reg \<and>
    xs = ys @ (b, k) # zs \<and> native_fact blocks (b, k) = Some d \<and> re_source_ea e = Some (ni_ea d) \<and>
    writes_slice covers d reg (re_width e) \<and>
    register_slice reg (re_width e) (last vs) = register_slice reg (re_width e) (vs ! Suc (length ys))"
proof -
  from exact_storage [OF analysis(1,2)] analysis(3) code obtain de reg name where
    r: "re_source_ea e = Some de" "re_width e \<in> set SUPPORTED_WIDTHS" "re_register e = Some reg"
      "normalize_register_alias name = Some reg" "re_width e \<le> rs_width reg"
      "sv_valid (validate_register_storage_cfg blocks de ce reg (re_width e))"
    by (auto simp: exact_confidences_def)
  have wf: "build_native_blocks na = Inr blocks" if "build_native_cfg_facts na = (Some blocks, err)" for na
    using that by (auto simp: build_native_cfg_facts_def split: sum.splits)
  note wf = build_native_blocks_ok [OF wf [OF code(2)]]
  have ids: "\<forall>(k, b) \<in> set blocks. nb_block_id b = k" using wf(2) by auto
  have w: "0 \<le> re_width e" "0 \<le> rs_bit_offset reg"
    using r(2) supported_pos normalize_spec_ok [OF r(4)] by (fastforce, auto simp: spec_ok_def)
  from register_storage_sound [OF wf(3) ids entry r(6) run here w contents] r show ?thesis by metis
qed

end
