(* ===== verification/V_Static_Example.thy ===== *)
theory V_Static_Example
  imports V_Static_Proofs
begin

text \<open>
  A small function on which the static analysis is evaluated: one block that writes two byte
  variables into the halves of \<^verbatim>\<open>ax\<close> and a third variable into a stack slot, and reads all three at
  the current instruction.
\<close>

section \<open>Native code\<close>

definition ex_op :: "op_type \<Rightarrow> native_op" where
  "ex_op t = \<lparr>np_type = t, np_frame_offset = Inr 8, np_dtype_size = Inr 4\<rparr>"

definition ex_access :: "int \<Rightarrow> string \<Rightarrow> reg_access" where
  "ex_access offset name = \<lparr>rc_writes = True, rc_range = Some (Inr (offset, 8)), rc_reg_name = (\<lambda>_. Inr name)\<rparr>"

definition ex_native_insn :: "int \<Rightarrow> op_type \<Rightarrow> reg_access list \<Rightarrow> native_insn" where
  "ex_native_insn sz t accesses =
     \<lparr>nn_size = sz, nn_canon_feature = Inr 0, nn_ops = [ex_op t], nn_reg_accesses = Inr (1, accesses),
      nn_is_call = Inr False\<rparr>"

lemma ex_native_insn_simps [simp]:
  "nn_size (ex_native_insn sz t accesses) = sz" "nn_is_call (ex_native_insn sz t accesses) = Inr False"
  by (simp_all add: ex_native_insn_def)

text \<open>A write of \<^verbatim>\<open>al\<close>, a write of \<^verbatim>\<open>ah\<close>, a write of the slot at offset 8, and the current instruction.\<close>

definition ex_native :: native_apis where
  "ex_native =
     \<lparr>na_decode_insn = (\<lambda>ea.
        if ea = 0x10 then Inr (2, ex_native_insn 2 O_other [ex_access 0 ''al''])
        else if ea = 0x12 then Inr (2, ex_native_insn 2 O_other [ex_access 8 ''ah''])
        else if ea = 0x14 then Inr (4, ex_native_insn 4 O_displ [])
        else if ea = 0x18 then Inr (2, ex_native_insn 2 O_other [])
        else Inr (0, ex_native_insn 0 O_void [])),
      na_has_cf_chg = (\<lambda>_ index. Inr (index = 0)), na_has_cf_use = (\<lambda>_ _. Inr False),
      na_has_reg_accesses = True, na_fc_noext = 0, na_flowchart_flags = (\<lambda>_. Inr []),
      na_flowchart = Inr [\<lparr>rb_id = 0, rb_start_ea = 0x10, rb_end_ea = 0x1a, rb_preds = Some (Inr []),
                           rb_succs = Some (Inr [])\<rparr>],
      na_badaddr = 2 ^ 64 - 1\<rparr>"

definition ex_native_fact :: "int \<Rightarrow> int \<Rightarrow> RegisterWrite list \<Rightarrow> NativeInstructionFact" where
  "ex_native_fact ea sz ws =
     \<lparr>ni_ea = ea, ni_size = sz, ni_writes = ws, ni_is_call = False, ni_register_access_known = True\<rparr>"

definition ex_native_cfg :: native_cfg where
  "ex_native_cfg =
     [(0, \<lparr>nb_block_id = 0, nb_start_ea = 0x10, nb_end_ea = 0x1a,
           nb_instructions = [
             ex_native_fact 0x10 2 [\<lparr>rw_full_register = ''rax'', rw_bit_offset = 0, rw_bit_size = 8\<rparr>],
             ex_native_fact 0x12 2 [\<lparr>rw_full_register = ''rax'', rw_bit_offset = 8, rw_bit_size = 8\<rparr>],
             ex_native_fact 0x14 4 [], ex_native_fact 0x18 2 []],
           nb_predecessors = [], nb_successors = []\<rparr>)]"

text \<open>One round of a loop whose bound is not yet used up.\<close>

lemma native_loop_round:
  "0 < left \<Longrightarrow> ea < e \<Longrightarrow> decode_instruction na ea = Some insn \<Longrightarrow> 0 < nn_size insn \<Longrightarrow> ea + nn_size insn \<le> e \<Longrightarrow>
   nn_is_call insn = Inr c \<Longrightarrow> register_writes na insn = (known, ws) \<Longrightarrow>
   native_loop left na b e ea =
     res_bind (native_loop (left - 1) na b e (ea + nn_size insn))
       (\<lambda>is. Inr (\<lparr>ni_ea = ea, ni_size = nn_size insn, ni_writes = ws, ni_is_call = c, ni_register_access_known = known\<rparr> # is))"
  by (cases left) (simp_all add: native_loop.simps [of "Suc _"])

lemma native_loop_end: "e \<le> ea \<Longrightarrow> native_loop left na b e ea = Inr []"
  by (subst native_loop.simps) simp

lemma ex_specs:
  "normalize_register_alias ''al'' = Some (mk_spec ''al'' ''rax'' 1 0)"
  "normalize_register_alias ''ah'' = Some (mk_spec ''ah'' ''rax'' 1 8)"
  by code_simp+

lemma ex_decode:
  "decode_instruction ex_native 0x10 = Some (ex_native_insn 2 O_other [ex_access 0 ''al''])"
  "decode_instruction ex_native 0x12 = Some (ex_native_insn 2 O_other [ex_access 8 ''ah''])"
  "decode_instruction ex_native 0x14 = Some (ex_native_insn 4 O_displ [])"
  "decode_instruction ex_native 0x18 = Some (ex_native_insn 2 O_other [])"
  by (simp_all add: decode_instruction_def ex_native_def)

lemma ex_register_writes:
  "register_writes ex_native (ex_native_insn sz t []) = (True, [])"
  "register_writes ex_native (ex_native_insn sz t [ex_access 0 ''al'']) =
     (True, [\<lparr>rw_full_register = ''rax'', rw_bit_offset = 0, rw_bit_size = 8\<rparr>])"
  "register_writes ex_native (ex_native_insn sz t [ex_access 8 ''ah'']) =
     (True, [\<lparr>rw_full_register = ''rax'', rw_bit_offset = 8, rw_bit_size = 8\<rparr>])"
  by (simp_all add: register_writes_def ex_native_def ex_native_insn_def register_write_def ex_access_def ex_specs mk_spec_def)

lemmas ex_rounds =
  native_loop_round [OF _ _ ex_decode(1) _ _ ex_native_insn_simps(2) ex_register_writes(2)]
  native_loop_round [OF _ _ ex_decode(2) _ _ ex_native_insn_simps(2) ex_register_writes(3)]
  native_loop_round [OF _ _ ex_decode(3) _ _ ex_native_insn_simps(2) ex_register_writes(1)]
  native_loop_round [OF _ _ ex_decode(4) _ _ ex_native_insn_simps(2) ex_register_writes(1)]

lemma ex_snapshot: "build_native_cfg_facts ex_native = (Some ex_native_cfg, [])"
proof -
  have loop: "native_loop 100000 ex_native 0 0x1a 0x10 = Inr (nb_instructions (snd (hd ex_native_cfg)))"
    by (simp add: ex_rounds native_loop_end ex_native_cfg_def ex_native_fact_def)
  have chart: "make_native_flowchart ex_native =
      Inr [\<lparr>rb_id = 0, rb_start_ea = 0x10, rb_end_ea = 0x1a, rb_preds = Some (Inr []), rb_succs = Some (Inr [])\<rparr>]"
    "na_badaddr ex_native = 2 ^ 64 - 1"
    by (simp_all add: make_native_flowchart_def ex_native_def)
  have "build_native_blocks ex_native = Inr ex_native_cfg"
    using loop by (simp add: build_native_blocks_def chart native_block_def native_edge_ids_def ex_native_cfg_def
        validate_cfg_reciprocity_def)
  then show ?thesis by (simp add: build_native_cfg_facts_def)
qed

lemma ex_native_bounds: "native_block_bounds ex_native 0x18 = Some (0x10, 0x1a)"
  by (simp add: native_block_bounds_def make_native_flowchart_def ex_native_def)

text \<open>The slices of both variables stay intact, and so does the slot.\<close>

lemma ex_storage:
  "sv_valid (validate_register_storage_cfg ex_native_cfg 0x10 0x18 (mk_spec ''al'' ''rax'' 1 0) 1)"
  "sv_valid (validate_register_storage_cfg ex_native_cfg 0x12 0x18 (mk_spec ''ah'' ''rax'' 1 8) 1)"
  by code_simp+

lemma stack_loop_round:
  "0 < left \<Longrightarrow> ea < ce \<Longrightarrow> decode_instruction na ea = Some insn \<Longrightarrow> 0 < nn_size insn \<Longrightarrow>
   native_stack_writes na insn = (True, ws) \<Longrightarrow>
   stack_loop left na ce s e is_first ea =
     ((if is_first then list_ex (slot_covered s e) (filter (slot_overlaps s e) ws) else filter (slot_overlaps s e) ws = []) \<and>
      stack_loop (left - 1) na ce s e False (ea + nn_size insn))"
  by (cases left) (simp_all add: Let_def)

lemma stack_loop_end: "0 < left \<Longrightarrow> ce \<le> ea \<Longrightarrow> stack_loop left na ce s e is_first ea = (\<not> is_first)"
  by (cases left) simp_all

lemma ex_stack_writes: "native_stack_writes ex_native (ex_native_insn 4 O_displ []) = (True, [(8, 4)])"
  by (simp add: native_stack_writes_def ex_native_insn_def ex_op_def ex_native_def)

lemma ex_stack: "stack_definition_remains_valid ex_native 0x14 0x18 8 4"
  by (simp add: stack_definition_remains_valid_def stack_loop_round [OF _ _ ex_decode(3) _ ex_stack_writes] stack_loop_end
      slot_covered_def slot_overlaps_def del: stack_loop.simps)

section \<open>Microcode\<close>

definition ex_mop :: "int \<Rightarrow> int \<Rightarrow> mop" where
  "ex_mop index width =
     \<lparr>mo_t = Mop_l, mo_l = Some (index, 0), mo_size = width, mo_unsigned_value = Inl (AttributeError []),
      mo_nnn_value = Inl (AttributeError [])\<rparr>"

definition ex_def :: "int \<Rightarrow> int \<Rightarrow> int \<Rightarrow> minsn" where
  "ex_def ea index width =
     \<lparr>mi_ea = Some ea, mi_is_mov = True, mi_d = Some (ex_mop index width), mi_l = None, mi_modifies_d = Inr True,
      mi_is_assert = Inr False, mi_ops = [(ex_mop index width, True)], mi_visit_result = 0\<rparr>"

definition ex_use :: "int \<Rightarrow> minsn" where
  "ex_use ea =
     \<lparr>mi_ea = Some ea, mi_is_mov = False, mi_d = None, mi_l = None, mi_modifies_d = Inr False,
      mi_is_assert = Inr False, mi_ops = [(ex_mop 0 1, False), (ex_mop 1 1, False), (ex_mop 2 4, False)],
      mi_visit_result = 0\<rparr>"

definition ex_insns :: "minsn list" where
  "ex_insns = [ex_def 0x10 0 1, ex_def 0x12 1 1, ex_def 0x14 2 4, ex_use 0x18]"

definition ex_mblock :: mblock where
  "ex_mblock =
     \<lparr>mb_serial = 0, mb_head = Some 0, mb_tail = Some 3, mb_next = (\<lambda>n. Some (n + 1)), mb_insn = (!) ex_insns,
      mb_id = int, mb_obj_id = (\<lambda>_. None), mb_npred = Some (Inr 0), mb_pred = Some (\<lambda>_. Inr 0),
      mb_nsucc = Some (Inr 0), mb_succ = Some (\<lambda>_. Inr 0)\<rparr>"

text \<open>Lvars 0 and 1 live in the micro registers 0 and 1, lvar 2 at decompiler stack offset 8.\<close>

definition ex_mlvar :: "int \<Rightarrow> micro_lvar" where
  "ex_mlvar index =
     \<lparr>ml_name = (if index = 0 then ''a'' else if index = 1 then ''b'' else ''c''),
      ml_width = (if index = 2 then 4 else 1),
      ml_flag = (\<lambda>name. Some (Inr (if index = 2 then name = ''is_stk_var'' else name \<in> {''is_reg_var'', ''is_reg1''}))),
      ml_is_aliasable = Some (Inr False), ml_has_common = (\<lambda>_. Inr False), ml_get_reg1 = Inr index,
      ml_get_stkoff = Inr 8, ml_location_stkoff = Inr 8\<rparr>"

definition ex_mba :: mba where
  "ex_mba =
     \<lparr>mb_maturity = 8, mb_qty = 1, mb_get_mblock = (\<lambda>_. Inr (Some ex_mblock)), mb_vars_size = 3,
      mb_vars_at = (\<lambda>i. Inr (ex_mlvar i)), mb_has_apis = True, mb_map_fict_ea = None, mb_stkoff_vd2ida = Inr,
      mb_badaddr = 2 ^ 64 - 1\<rparr>"

definition ex_block_data :: MicroBlockData where
  "ex_block_data =
     \<lparr>md_block_id = 0, md_instructions = ex_insns,
      md_accesses = [\<lparr>ia_uses = [], ia_targets = [(0, 0, 1)]\<rparr>, \<lparr>ia_uses = [], ia_targets = [(1, 0, 1)]\<rparr>,
        \<lparr>ia_uses = [], ia_targets = [(2, 0, 4)]\<rparr>, \<lparr>ia_uses = [2, 1, 0], ia_targets = []\<rparr>],
      md_eas = [Some 0x10, Some 0x12, Some 0x14, Some 0x18], md_predecessors = [], md_successors = []\<rparr>"

lemma top_loop_round:
  "0 < left \<Longrightarrow> top_loop left b t seen (Some n) =
     (if node_identity b n \<in> set seen then Inl (RuntimeError ''cycle in microcode instruction list'')
      else if (case t of Some tn \<Rightarrow> is_tail b n tn | None \<Rightarrow> False) then Inr [n]
      else res_bind (top_loop (left - 1) b t (node_identity b n # seen) (mb_next b n)) (\<lambda>ns. Inr (n # ns)))"
  by (cases left) simp_all

lemma ex_top: "top_instructions ex_mblock = Inr [0, 1, 2, 3]"
  by (simp add: top_instructions_def ex_mblock_def top_loop_round node_identity_def is_tail_def del: top_loop.simps)

lemma ex_accesses:
  "collect_lvar_accesses (ex_def ea i w) = Inr \<lparr>ia_uses = [], ia_targets = [(i, 0, w)]\<rparr>"
  "collect_lvar_accesses (ex_use ea) = Inr \<lparr>ia_uses = [2, 1, 0], ia_targets = []\<rparr>"
  by (simp_all add: collect_lvar_accesses_def ex_def_def ex_use_def visit_mop_def ex_mop_def)

lemma ex_eas:
  "real_micro_ea ex_mba (mi_ea (ex_def ea i w)) = (if ea = 2 ^ 64 - 1 then None else Some ea)"
  "real_micro_ea ex_mba (mi_ea (ex_use ea)) = (if ea = 2 ^ 64 - 1 then None else Some ea)"
  by (simp_all add: real_micro_ea_def ex_mba_def ex_def_def ex_use_def)

lemma ex_micro: "collect_micro_blocks ex_mba = Inr [(0, ex_block_data)]"
proof -
  have fields: "mb_get_mblock ex_mba 0 = Inr (Some ex_mblock)" "mb_qty ex_mba = 1" "mb_serial ex_mblock = 0"
    "mb_npred ex_mblock = Some (Inr 0)" "mb_pred ex_mblock = Some (\<lambda>_. Inr 0)" "mb_insn ex_mblock = (!) ex_insns"
    "mb_nsucc ex_mblock = Some (Inr 0)" "mb_succ ex_mblock = Some (\<lambda>_. Inr 0)"
    by (simp_all add: ex_mba_def ex_mblock_def)
  have "micro_block_data ex_mba 0 = Inr ex_block_data"
    by (simp add: micro_block_data_def fields ex_top micro_edge_ids_def ex_insns_def ex_accesses ex_eas ex_block_data_def
        numeral_3_eq_3)
  then show ?thesis
    by (simp add: collect_micro_blocks_def fields validate_cfg_reciprocity_def ex_block_data_def)
qed

lemma ex_exact_point: "find_exact_microcode_point [(0, ex_block_data)] 0x18 = Some (ex_block_data, 3)"
  by (simp add: find_exact_microcode_point_def positions_of_def ex_block_data_def Let_def upt_rec)

text \<open>The facts about each of the three lvars.\<close>

definition ex_facts :: "int \<Rightarrow> micro_cfg" where
  "ex_facts i =
     [(0, \<lparr>cb_block_id = 0,
           cb_instructions = [ex_insn 0x10 (i = 0) False, ex_insn 0x12 (i = 1) False, ex_insn 0x14 (i = 2) False,
             ex_insn 0x18 False True],
           cb_predecessors = [], cb_successors = []\<rparr>)]"

lemma ex_whole:
  "is_whole_lvar_definition (ex_def ea i w) j v \<longleftrightarrow> i = j \<and> w = v" "\<not> is_whole_lvar_definition (ex_use ea) j v"
  by (simp_all add: is_whole_lvar_definition_def ex_def_def ex_use_def ex_mop_def)

lemma ex_fields [simp]:
  "mb_vars_at ex_mba i = Inr (ex_mlvar i)" "ml_has_common (ex_mlvar i) j = Inr False" "ml_width (ex_mlvar 2) = 4"
  "ml_width (ex_mlvar 0) = 1" "ml_width (ex_mlvar 1) = 1"
  by (simp_all add: ex_mba_def ex_mlvar_def)

lemma ex_cfg:
  "candidate_cfg_facts ex_mba (ex_mlvar i) i (ml_width (ex_mlvar i)) [(0, ex_block_data)] = ex_facts i" if "i \<in> {0, 1, 2}"
  using that
  by (auto simp: candidate_cfg_facts_def ex_block_data_def ex_insns_def instruction_fact_def ex_whole target_overlaps_def
      ex_facts_def ex_insn_def)

definition ex_site :: "int \<Rightarrow> DefinitionSite" where
  "ex_site i = \<lparr>ds_block_id = 0, ds_instruction_index = i, ds_ea = Some (0x10 + 2 * i), ds_crossed_block = False\<rparr>"

lemma ex_reaching:
  "reaching_definition_rejection_reason (find_reaching_definitions (ex_facts 0) 0 3 None) = None"
  "reaching_definition_rejection_reason (find_reaching_definitions (ex_facts 1) 0 3 None) = None"
  "reaching_definition_rejection_reason (find_reaching_definitions (ex_facts 2) 0 3 None) = None"
  "rd_definitions (find_reaching_definitions (ex_facts 0) 0 3 None) = [ex_site 0]"
  "rd_definitions (find_reaching_definitions (ex_facts 1) 0 3 None) = [ex_site 1]"
  "rd_definitions (find_reaching_definitions (ex_facts 2) 0 3 None) = [ex_site 2]"
  "future_use_rejection_reason (find_future_uses (ex_facts 0) 0 3 None) = None"
  "future_use_rejection_reason (find_future_uses (ex_facts 1) 0 3 None) = None"
  "future_use_rejection_reason (find_future_uses (ex_facts 2) 0 3 None) = None"
  by code_simp+

section \<open>The analysis\<close>

definition ex_func :: static_func where
  "ex_func =
     \<lparr>fn_start_ea = 0x10, fn_bits = Inr 64, fn_analyzed_sp = Some (Inr True), fn_flags = 0, fn_get_spd = (\<lambda>_. Inr (- 24)),
      fn_frame_off_retaddr = Inr 16, fn_native = ex_native\<rparr>"

definition ex_static :: "unit static_apis" where
  "ex_static =
     \<lparr>st_modules = True, st_has_name = (\<lambda>_. True), st_ph_get_id = Some (Inr 15), st_plfm_386 = Some 15,
      st_mmat_lvars = 8, st_fuzzy_sp = 0, st_get_func = (\<lambda>_. Inr (Some ex_func)), st_decompile = (\<lambda>_. Inr (Some ())),
      st_mba = (\<lambda>_. Some ex_mba), st_ctree = (\<lambda>_. Inr []), st_stkoff_delta = (\<lambda>_. Inr 0),
      st_registers = \<lparr>ap_get_mreg_name = (\<lambda>r _. Inr (if r = 0 then ''al'' else ''ah'')),
        ap_mreg2reg = (\<lambda>_ _. Inr (- 1)), ap_get_reg_name = (\<lambda>_ _. Inr [])\<rparr>\<rparr>"

definition ex_an :: analysis_point where
  "ex_an =
     \<lparr>an_mba = ex_mba, an_func = ex_func, an_blocks = [(0, ex_block_data)], an_current_block = ex_block_data,
      an_boundary = 3, an_current_ea = 0x18, an_native_bounds = Some (0x10, 0x1a), an_native_cfg = Some ex_native_cfg,
      an_native_cfg_error = [], an_ctree_facts = []\<rparr>"

lemma ex_setup: "analysis_setup ex_static 0x10 0x18 None = Inr (Some ((), ex_an))"
proof -
  have static: "st_get_func ex_static ea = Inr (Some ex_func)" "is_x64 ex_static ex_func = Inr True"
    "st_decompile ex_static ea = Inr (Some ())" "st_mba ex_static cf = Some ex_mba" "st_mmat_lvars ex_static = 8"
    "mb_maturity ex_mba = 8" "mb_has_apis ex_mba" "fn_native ex_func = ex_native" "fn_start_ea ex_func = 0x10"
    "collect_ctree_facts ex_mba names (st_ctree ex_static cf) = []" for ea cf names
    by (simp_all add: ex_static_def is_x64_def ex_func_def ex_mba_def collect_ctree_facts_def)
  show ?thesis
    by (simp add: analysis_setup_def analysis_snapshot_def static require_def ex_decode ex_micro ex_exact_point
        ex_snapshot ex_native_bounds ex_an_def)
qed

definition ex_var :: "int \<Rightarrow> VariableRecord" where
  "ex_var i = VariableRecord_new i (ml_name (ex_mlvar i)) ''local'' [] (ml_width (ex_mlvar i)) False None [] ''0x10'' 0x10"

text \<open>When every check passes, the outcome is that of the storage step.\<close>

lemma analyze_one_accepts:
  assumes "lvar_shape_rejection l (vr_size v) = None"
    "cfg = candidate_cfg_facts (an_mba an) l (vr_lvar_index v) (vr_size v) (an_blocks an)"
    "reach = find_reaching_definitions cfg (md_block_id (an_current_block an)) (an_boundary an) None"
    "reaching_definition_rejection_reason reach = None" "rd_definitions reach = [site]"
    "definition_at (an_blocks an) site = Some (defn, de)" "decode_instruction (fn_native (an_func an)) de = Some nd"
    "future_use_rejection_reason (find_future_uses cfg (md_block_id (an_current_block an)) (an_boundary an) None) = None"
  shows "fst (analyze_one_lvar st an cf v l) = fst (storage_evidence st an cf v l site defn de nd)"
  using assms by (simp add: analyze_one_lvar_def Let_def case_prod_beta)

lemma candidate_accepts:
  assumes "0 \<le> vr_lvar_index v" "vr_lvar_index v < mb_vars_size (an_mba an)" "mb_vars_at (an_mba an) (vr_lvar_index v) = Inr l"
    "ml_name l = vr_name v" "vr_name v \<noteq> ''<unnamed>''" "ml_width l = vr_size v" "fst (analyze_one_lvar st an cf v l) = Inr e"
  shows "candidate_evidence st an cf v = e"
  using assms by (cases "analyze_one_lvar st an cf v l") (simp add: candidate_evidence_def candidate_result_def Let_def)

definition ex_register_evidence :: "int \<Rightarrow> RegisterSpec \<Rightarrow> RecoveryEvidence" where
  "ex_register_evidence i spec =
     (RecoveryEvidence_new i)
       \<lparr>re_storage_kind := ''register'', re_storage := rs_alias spec, re_source_ea := Some (0x10 + 2 * i),
        re_confidence := CONFIDENCE_EXACT_REGISTER_LOCATION,
        re_reason := ''unique CFG reaching definition and storage proof establish register liveness'',
        re_register := Some spec, re_width := 1\<rparr>"

definition ex_stack_evidence :: RecoveryEvidence where
  "ex_stack_evidence =
     (RecoveryEvidence_new 2)
       \<lparr>re_storage_kind := ''stack'', re_storage := ''stack:rsp'' @ signed_hex 16, re_source_ea := Some 0x14,
        re_confidence := CONFIDENCE_EXACT_STACK_LOCATION,
        re_reason := ''unique reaching definition and future use prove exact stack slot'',
        re_stack_pointer_offset := Some 16, re_width := 4\<rparr>"

lemma ex_an_fields [simp]:
  "an_mba ex_an = ex_mba" "an_func ex_an = ex_func" "an_blocks ex_an = [(0, ex_block_data)]"
  "an_current_block ex_an = ex_block_data" "an_boundary ex_an = 3" "an_current_ea ex_an = 0x18"
  "an_native_bounds ex_an = Some (0x10, 0x1a)" "an_native_cfg ex_an = Some ex_native_cfg" "md_block_id ex_block_data = 0"
  "fn_native ex_func = ex_native" "mb_vars_size ex_mba = 3" "vr_lvar_index (ex_var i) = i"
  "vr_name (ex_var i) = ml_name (ex_mlvar i)" "vr_size (ex_var i) = ml_width (ex_mlvar i)"
  by (simp_all add: ex_an_def ex_block_data_def ex_func_def ex_mba_def ex_var_def VariableRecord_new_def)

lemma ex_shape: "lvar_shape_rejection (ex_mlvar i) (ml_width (ex_mlvar i)) = None"
  by (simp add: lvar_shape_rejection_def ex_mlvar_def safe_bool_call_def SUPPORTED_WIDTHS_def Let_def)

lemma ex_sites:
  "definition_at [(0, ex_block_data)] (ex_site 0) = Some (ex_def 0x10 0 1, 0x10)"
  "definition_at [(0, ex_block_data)] (ex_site 1) = Some (ex_def 0x12 1 1, 0x12)"
  "definition_at [(0, ex_block_data)] (ex_site 2) = Some (ex_def 0x14 2 4, 0x14)"
  by (simp_all add: definition_at_def ex_site_def ex_block_data_def ex_insns_def)

lemma ex_registers:
  "register_spec_from_lvar (st_registers ex_static) (ex_mlvar 0) 1 = Some (mk_spec ''al'' ''rax'' 1 0)"
  "register_spec_from_lvar (st_registers ex_static) (ex_mlvar 1) 1 = Some (mk_spec ''ah'' ''rax'' 1 8)"
  "register_spec_from_lvar (st_registers ex_static) (ex_mlvar 2) w = None"
  by (simp_all add: register_spec_from_lvar_def ex_static_def ex_mlvar_def safe_bool_call_def register_names_def ex_specs
      mk_spec_def)

lemma ex_no_constant: "direct_constant_definition (ex_def ea i w) j v = None"
  by (simp add: direct_constant_definition_def ex_def_def)

lemma ex_location: "current_rsp_location_for_lvar ex_static (ex_mlvar 2) ex_mba cf ex_func ea = Inr (16, 8)"
  by (simp add: current_rsp_location_for_lvar_def ex_func_def ex_static_def ex_mlvar_def ex_mba_def rsp_offset_of_def)

lemma ex_stored:
  "fst (storage_evidence ex_static ex_an () (ex_var 0) (ex_mlvar 0) site (ex_def 0x10 0 1) 0x10 nd) =
     Inr (ex_register_evidence 0 (mk_spec ''al'' ''rax'' 1 0))"
  "fst (storage_evidence ex_static ex_an () (ex_var 1) (ex_mlvar 1) site (ex_def 0x12 1 1) 0x12 nd) =
     Inr (ex_register_evidence 1 (mk_spec ''ah'' ''rax'' 1 8))"
  "fst (storage_evidence ex_static ex_an () (ex_var 2) (ex_mlvar 2) (ex_site 2) (ex_def 0x14 2 4) 0x14 nd) =
     Inr ex_stack_evidence"
proof -
  show "fst (storage_evidence ex_static ex_an () (ex_var 0) (ex_mlvar 0) site (ex_def 0x10 0 1) 0x10 nd) =
     Inr (ex_register_evidence 0 (mk_spec ''al'' ''rax'' 1 0))"
   "fst (storage_evidence ex_static ex_an () (ex_var 1) (ex_mlvar 1) site (ex_def 0x12 1 1) 0x12 nd) =
     Inr (ex_register_evidence 1 (mk_spec ''ah'' ''rax'' 1 8))"
    by (simp_all add: storage_evidence_def ex_registers ex_no_constant register_evidence_def ex_storage ex_register_evidence_def
        del: append.simps)
  have flags: "safe_bool_call (ml_flag (ex_mlvar 2) ''is_stk_var'')" "\<not> safe_bool_call (ml_flag (ex_mlvar 2) ''is_reg_var'')"
    "\<not> safe_bool_call_with_arg (ml_is_aliasable (ex_mlvar 2))" "ds_block_id (ex_site 2) = 0"
    by (simp_all add: ex_mlvar_def safe_bool_call_def safe_bool_call_with_arg_def ex_site_def)
  show "fst (storage_evidence ex_static ex_an () (ex_var 2) (ex_mlvar 2) (ex_site 2) (ex_def 0x14 2 4) 0x14 nd) =
     Inr ex_stack_evidence"
    by (simp add: storage_evidence_def ex_registers ex_no_constant flags stack_evidence_def ex_location ex_stack
        ex_stack_evidence_def del: append.simps)
qed

lemma ex_candidates:
  "candidate_evidence ex_static ex_an () (ex_var 0) = ex_register_evidence 0 (mk_spec ''al'' ''rax'' 1 0)"
  "candidate_evidence ex_static ex_an () (ex_var 1) = ex_register_evidence 1 (mk_spec ''ah'' ''rax'' 1 8)"
  "candidate_evidence ex_static ex_an () (ex_var 2) = ex_stack_evidence"
proof -
  have named: "ml_name (ex_mlvar i) \<noteq> ''<unnamed>''" for i by (simp add: ex_mlvar_def)
  have one: "fst (analyze_one_lvar ex_static ex_an () (ex_var i) (ex_mlvar i)) =
      fst (storage_evidence ex_static ex_an () (ex_var i) (ex_mlvar i) site defn de nd)"
    if "i \<in> {0, 1, 2}" "reaching_definition_rejection_reason (find_reaching_definitions (ex_facts i) 0 3 None) = None"
      "rd_definitions (find_reaching_definitions (ex_facts i) 0 3 None) = [site]"
      "definition_at [(0, ex_block_data)] site = Some (defn, de)" "decode_instruction ex_native de = Some nd"
      "future_use_rejection_reason (find_future_uses (ex_facts i) 0 3 None) = None" for i site defn de nd
    by (rule analyze_one_accepts [OF _ refl refl]) (use that ex_shape ex_cfg in simp_all)
  show "candidate_evidence ex_static ex_an () (ex_var 0) = ex_register_evidence 0 (mk_spec ''al'' ''rax'' 1 0)"
    by (rule candidate_accepts [OF _ _ ex_fields(1) [folded ex_an_fields(1)]]) (simp_all add: named one [OF _ ex_reaching(1,4) ex_sites(1) ex_decode(1) ex_reaching(7)] ex_stored)
  show "candidate_evidence ex_static ex_an () (ex_var 1) = ex_register_evidence 1 (mk_spec ''ah'' ''rax'' 1 8)"
    by (rule candidate_accepts [OF _ _ ex_fields(1) [folded ex_an_fields(1)]]) (simp_all add: named one [OF _ ex_reaching(2,5) ex_sites(2) ex_decode(2) ex_reaching(8)] ex_stored)
  show "candidate_evidence ex_static ex_an () (ex_var 2) = ex_stack_evidence"
    by (rule candidate_accepts [OF _ _ ex_fields(1) [folded ex_an_fields(1)]]) (simp_all add: named one [OF _ ex_reaching(3,6) ex_sites(3) ex_decode(3) ex_reaching(9)] ex_stored)
qed

definition ex_analysis :: RecoveryAnalysis where
  "ex_analysis = projr (analyze_v_variable_candidates ex_static 0x10 0x18 (map ex_var [0, 1, 2]) None)"

lemma ex_apis: "st_modules ex_static" "list_all (st_has_name ex_static) required_hexrays_names"
  by (simp_all add: ex_static_def list_all_iff)

lemma ex_analysis_ok: "ra_ok ex_analysis"
  by (simp add: ex_analysis_def analyze_v_variable_candidates_def ex_apis ex_setup)

lemma ex_analyzed:
  "analyze_v_variable_candidates ex_static 0x10 0x18 (map ex_var [0, 1, 2]) None = Inr ex_analysis"
  "ra_evidence_by_index ex_analysis =
     [(0, ex_register_evidence 0 (mk_spec ''al'' ''rax'' 1 0)), (1, ex_register_evidence 1 (mk_spec ''ah'' ''rax'' 1 8)),
      (2, ex_stack_evidence)]"
proof -
  have "claims_conflict (ex_register_evidence 0 (mk_spec ''al'' ''rax'' 1 0)) (ex_register_evidence 1 (mk_spec ''ah'' ''rax'' 1 8)) = None"
    "claims_conflict (ex_register_evidence i spec) ex_stack_evidence = None" for i spec
    by (simp_all add: claims_conflict_def ex_register_evidence_def ex_stack_evidence_def mk_spec_def Let_def)
  then have reject: "reject_duplicate_storage_claims
     [(0, ex_register_evidence 0 (mk_spec ''al'' ''rax'' 1 0)), (1, ex_register_evidence 1 (mk_spec ''ah'' ''rax'' 1 8)),
      (2, ex_stack_evidence)] =
     [(0, ex_register_evidence 0 (mk_spec ''al'' ''rax'' 1 0)), (1, ex_register_evidence 1 (mk_spec ''ah'' ''rax'' 1 8)),
      (2, ex_stack_evidence)]" by (simp add: reject_duplicate_storage_claims_def)
  show "analyze_v_variable_candidates ex_static 0x10 0x18 (map ex_var [0, 1, 2]) None = Inr ex_analysis"
    by (simp add: ex_analysis_def analyze_v_variable_candidates_def ex_apis ex_setup)
  show "ra_evidence_by_index ex_analysis =
     [(0, ex_register_evidence 0 (mk_spec ''al'' ''rax'' 1 0)), (1, ex_register_evidence 1 (mk_spec ''ah'' ''rax'' 1 8)),
      (2, ex_stack_evidence)]"
    by (simp add: ex_analysis_def analyze_v_variable_candidates_def ex_apis ex_setup ex_candidates reject)
qed

end
