(* ===== verification/V_Static_Claims.thy ===== *)
theory V_Static_Claims
  imports V_Static_Example
begin

text \<open>
  What the static analysis promises to the runtime side: exact evidence is backed by the code, claimed
  registers and stack slots hold the value when the debugger stops, and no storage is claimed twice.
\<close>

section \<open>The native snapshot\<close>

text \<open>
  C10. A snapshot of the native flow chart is well formed: block ids are unique and name their
  entries, recorded edges go both ways between blocks of the snapshot, and the instructions of each
  block cover its address range in strictly increasing order without gap or overlap, so that every
  byte of the block belongs to exactly one instruction fact.
\<close>

theorem native_snapshot_well_formed:
  assumes snapshot: "build_native_cfg_facts na = (Some blocks, err)" and block: "dget blocks k = Some b"
  shows "dwf blocks \<and> nb_block_id b = k \<and> sorted_wrt (<) (map ni_ea (nb_instructions b)) \<and>
    (\<forall>ea. nb_start_ea b \<le> ea \<and> ea < nb_end_ea b \<longleftrightarrow>
      (\<exists>i \<in> set (nb_instructions b). ni_ea i \<le> ea \<and> ea < ni_ea i + ni_size i)) \<and>
    (\<forall>s \<in> set (nb_successors b). \<exists>sb. dget blocks s = Some sb \<and> k \<in> set (nb_predecessors sb)) \<and>
    (\<forall>p \<in> set (nb_predecessors b). \<exists>pb. dget blocks p = Some pb \<and> k \<in> set (nb_successors pb))"
proof -
  have ok: "build_native_blocks na = Inr blocks"
    using snapshot by (auto simp: build_native_cfg_facts_def split: sum.splits)
  note wf = build_native_blocks_ok [OF ok]
  from wf(2) map_of_SomeD [OF block] have b: "nb_block_id b = k" "tiles (nb_start_ea b) (nb_end_ea b) (nb_instructions b)"
    by auto
  have cover: "s \<le> ea \<Longrightarrow> ea < e \<Longrightarrow> \<exists>i \<in> set is. ni_ea i \<le> ea \<and> ea < ni_ea i + ni_size i"
    if "tiles s e is" for s e ea "is" using that
  proof (induction "is" arbitrary: s)
    case (Cons i "is")
    show ?case
    proof (cases "ea < s + ni_size i")
      case False
      with Cons.prems have "\<exists>i \<in> set is. ni_ea i \<le> ea \<and> ea < ni_ea i + ni_size i" by (intro Cons.IH [of "s + ni_size i"]) auto
      then show ?thesis by simp
    qed (use Cons.prems in auto)
  qed simp
  have "nb_start_ea b \<le> ea \<and> ea < nb_end_ea b \<longleftrightarrow>
      (\<exists>i \<in> set (nb_instructions b). ni_ea i \<le> ea \<and> ea < ni_ea i + ni_size i)" for ea
    using cover [OF b(2)] tiles_bounds [OF b(2)] by force
  with b wf(1) tiles_sorted [OF b(2)] validate_cfg_reciprocity_ok [OF wf(3) block] show ?thesis by blast
qed

lemma native_snapshot_well_formed_witness:
  "\<exists>i \<in> set (nb_instructions (snd (hd ex_native_cfg))). ni_ea i \<le> 0x15 \<and> 0x15 < ni_ea i + ni_size i"
proof -
  have "dget ex_native_cfg 0 = Some (snd (hd ex_native_cfg))" by (simp add: ex_native_cfg_def)
  from native_snapshot_well_formed [OF ex_snapshot this] have
    "nb_start_ea (snd (hd ex_native_cfg)) \<le> 0x15 \<and> 0x15 < nb_end_ea (snd (hd ex_native_cfg)) \<longleftrightarrow>
      (\<exists>i \<in> set (nb_instructions (snd (hd ex_native_cfg))). ni_ea i \<le> 0x15 \<and> 0x15 < ni_ea i + ni_size i)" by blast
  moreover have "nb_start_ea (snd (hd ex_native_cfg)) = 0x10" "nb_end_ea (snd (hd ex_native_cfg)) = 0x1a"
    by (simp_all add: ex_native_cfg_def)
  ultimately show ?thesis by simp
qed

section \<open>Soundness of exact evidence\<close>

text \<open>
  C6. Exact evidence is backed by the program: if the analysis claims the value of an lvar, then every
  run from a block without predecessors to the current point executes an instruction at the source address
  that writes the whole lvar, nothing after it on the run writes any part of the lvar, and some run
  from the current point reads the lvar before it is written again. For a claimed constant that
  instruction moves this constant into the lvar.
\<close>

theorem exact_evidence_sound:
  assumes analysis: "analyze_v_variable_candidates st fea ce vars cf0 = Inr a" "dget (ra_evidence_by_index a) i = Some e"
      "re_confidence e \<in> set exact_confidences"
    and point: "analysis_setup st fea ce cf0 = Inr (Some (cf, an))" "mb_vars_at (an_mba an) i = Inr l"
      "cfg = candidate_cfg_facts (an_mba an) l i (re_width e) (an_blocks an)"
    and entry: "dget (an_blocks an) b0 = Some eb" "md_predecessors eb = []"
    and run: "flow_run (micro_len cfg) (micro_succs cfg) (b0, 0) xs (md_block_id (an_current_block an), nat (an_boundary an))"
  shows "(\<exists>ys b k zs d. xs = ys @ (b, k) # zs \<and> dget (an_blocks an) b = Some d \<and> k < length (md_instructions d) \<and>
      md_eas d ! k = re_source_ea e \<and> is_whole_lvar_definition (md_instructions d ! k) i (re_width e) \<and>
      (\<forall>z \<in> set zs. \<not> micro_defines cfg z) \<and>
      (re_confidence e = CONFIDENCE_EXACT_CONSTANT \<longrightarrow> re_constant_value e \<noteq> None \<and>
        direct_constant_definition (md_instructions d ! k) i (re_width e) = re_constant_value e)) \<and>
    (\<exists>b k d us. dget (an_blocks an) b = Some d \<and> k < length (md_instructions d) \<and> i \<in> set (ia_uses (md_accesses d ! k)) \<and>
      flow_run (micro_len cfg) (micro_succs cfg) (md_block_id (an_current_block an), nat (an_boundary an)) us (b, k) \<and>
      (\<forall>u \<in> set us. \<not> micro_defines cfg u))"
proof -
  note parts = analysis_setup_parts [OF point(1)]
  from exact_from_candidate [OF analysis] point obtain v where v: "vr_lvar_index v = i"
    "fst (analyze_one_lvar st an cf v l) = Inr e" by auto
  from exact_definition [OF parts(1) v(2)] v(1) obtain site k d where
    w: "re_width e = vr_size v"
    and site: "rd_definitions (find_reaching_definitions cfg (md_block_id (an_current_block an)) (an_boundary an) None) = [site]"
      "ds_instruction_index site = int k"
    and d: "dget (an_blocks an) (ds_block_id site) = Some d" "k < length (md_instructions d)" "md_eas d ! k = re_source_ea e"
      "re_confidence e = CONFIDENCE_EXACT_CONSTANT \<longrightarrow> re_constant_value e \<noteq> None \<and>
        direct_constant_definition (md_instructions d ! k) i (re_width e) = re_constant_value e"
    unfolding point(3) by auto
  have cfg: "cfg = candidate_cfg_facts (an_mba an) l (vr_lvar_index v) (vr_size v) (an_blocks an)"
    using point(3) v(1) w by simp
  note one = analyze_one_exact [OF v(2), folded cfg]
  have recip: "validate_cfg_reciprocity cb_predecessors cb_successors cfg ''microcode'' = Inr ()"
    unfolding point(3) using parts(1) by (rule candidate_cfg_recip)
  have e0: "\<exists>eb'. dget cfg b0 = Some eb' \<and> cb_predecessors eb' = []"
    using entry by (simp add: point(3) candidate_cfg_get)
  from reaching_run [OF recip _ _ one(2) run] e0 site obtain ys zs f where
    xs: "xs = ys @ (ds_block_id site, k) # zs" and f: "micro_fact cfg (ds_block_id site, k) = Some f" "ci_whole_definition f"
    and free: "\<forall>z \<in> set zs. \<not> micro_defines cfg z" by auto
  from candidate_fact [OF parts(1) f(1) [unfolded point(3)]] f(2) d(1)
  have "is_whole_lvar_definition (md_instructions d ! k) i (re_width e)" by auto
  with xs d free have first: "\<exists>ys b k zs d. xs = ys @ (b, k) # zs \<and> dget (an_blocks an) b = Some d \<and> k < length (md_instructions d) \<and>
      md_eas d ! k = re_source_ea e \<and> is_whole_lvar_definition (md_instructions d ! k) i (re_width e) \<and>
      (\<forall>z \<in> set zs. \<not> micro_defines cfg z) \<and>
      (re_confidence e = CONFIDENCE_EXACT_CONSTANT \<longrightarrow> re_constant_value e \<noteq> None \<and>
        direct_constant_definition (md_instructions d ! k) i (re_width e) = re_constant_value e)" by metis
  from exact_use [OF parts(1) v(2)] v(1) w first show ?thesis unfolding point(3) by auto
qed

lemma ex_micro_run:
  "flow_run (micro_len (ex_facts i)) (micro_succs (ex_facts i)) (0, 0) [(0, 0), (0, 1), (0, 2)] (0, 3)"
proof -
  have "flow_run (micro_len (ex_facts i)) (micro_succs (ex_facts i)) (0, 0) (map (Pair 0) [0..<3]) (0, 3)"
    by (rule flow_run_block [of _ _ 4]) (simp_all add: ex_facts_def micro_len_def)
  then show ?thesis by (simp add: upt_rec numeral_2_eq_2)
qed

lemma exact_evidence_sound_witness:
  "\<exists>ys b k zs d. [(0, 0), (0, 1), (0, 2)] = ys @ (b, k) # zs \<and> dget [(0, ex_block_data)] b = Some d \<and> md_eas d ! k = Some 0x10 \<and>
     is_whole_lvar_definition (md_instructions d ! k) 0 1 \<and> (\<forall>z \<in> set zs. \<not> micro_defines (ex_facts 0) z)"
proof -
  let ?e = "ex_register_evidence 0 (mk_spec ''al'' ''rax'' 1 0)"
  have e: "dget (ra_evidence_by_index ex_analysis) 0 = Some ?e" by (simp add: ex_analyzed(2))
  have c: "re_confidence ?e \<in> set exact_confidences" "re_width ?e = 1" "re_source_ea ?e = Some 0x10"
    by (simp_all add: ex_register_evidence_def exact_confidences_def)
  have l: "mb_vars_at (an_mba ex_an) 0 = Inr (ex_mlvar 0)" by simp
  have g: "ex_facts 0 = candidate_cfg_facts (an_mba ex_an) (ex_mlvar 0) 0 (re_width ?e) (an_blocks ex_an)"
    using ex_cfg [of 0] c(2) by simp
  have b: "dget (an_blocks ex_an) 0 = Some ex_block_data" "md_predecessors ex_block_data = []"
    by (simp_all add: ex_block_data_def)
  have r: "flow_run (micro_len (ex_facts 0)) (micro_succs (ex_facts 0)) (0, 0) [(0, 0), (0, 1), (0, 2)]
      (md_block_id (an_current_block ex_an), nat (an_boundary ex_an))" using ex_micro_run by simp
  from exact_evidence_sound [OF ex_analyzed(1) e c(1) ex_setup l g b r] show ?thesis
    unfolding c(2,3) ex_an_fields(3) by blast
qed

text \<open>
  C7. A register claim is true when the debugger stops at the current instruction: take any native run
  from an entry to it, and the register contents along the run, where instructions change only the
  register bits they report. The run executes an instruction at the source address that writes the
  whole claimed slice, and at the current instruction the slice still holds what that
  instruction left in it.
\<close>

theorem register_evidence_sound:
  assumes analysis: "analyze_v_variable_candidates st fea ce vars cf0 = Inr a" "dget (ra_evidence_by_index a) i = Some e"
      "re_confidence e = CONFIDENCE_EXACT_REGISTER_LOCATION"
    and code: "st_get_func st ce = Inr (Some func)" "build_native_cfg_facts (fn_native func) = (Some blocks, err)"
    and entry: "dget blocks b0 = Some eb" "nb_predecessors eb = []"
    and run: "flow_run (native_len blocks) (native_succs blocks) (b0, 0) xs (cb, pos)"
    and here: "native_fact blocks (cb, pos) = Some c" "ni_ea c = ce"
    and contents: "length vs = Suc (length xs)" "\<forall>j < length xs. keeps_unwritten blocks (xs ! j) (vs ! j) (vs ! Suc j)"
  shows "\<exists>reg ys b k zs d. re_register e = Some reg \<and> re_width e \<in> set SUPPORTED_WIDTHS \<and> re_width e \<le> rs_width reg \<and>
    xs = ys @ (b, k) # zs \<and> native_fact blocks (b, k) = Some d \<and> re_source_ea e = Some (ni_ea d) \<and>
    writes_slice covers d reg (re_width e) \<and>
    register_slice reg (re_width e) (last vs) = register_slice reg (re_width e) (vs ! Suc (length ys))"
  using assms by (rule register_evidence_run)

lemma ex_native_run:
  "flow_run (native_len ex_native_cfg) (native_succs ex_native_cfg) (0, 0) [(0, 0), (0, 1), (0, 2)] (0, 3)"
proof -
  have "flow_run (native_len ex_native_cfg) (native_succs ex_native_cfg) (0, 0) (map (Pair 0) [0..<3]) (0, 3)"
    by (rule flow_run_block [of _ _ 4]) (simp_all add: ex_native_cfg_def native_len_def)
  then show ?thesis by (simp add: upt_rec numeral_2_eq_2)
qed

text \<open>
  On the example: \<^verbatim>\<open>rax\<close> is 0 at the entry, the first instruction writes 7 to \<^verbatim>\<open>al\<close> and the second 5 to
  \<^verbatim>\<open>ah\<close>; at the current instruction \<^verbatim>\<open>al\<close> is still 7.
\<close>

definition ex_rax :: "(string \<Rightarrow> int) list" where
  "ex_rax = map (\<lambda>v r. if r = ''rax'' then v else 0) [0, 0x7, 0x507, 0x507]"

lemma same_bits:
  "take_bit m (a :: int) = take_bit m b \<Longrightarrow> n < m \<Longrightarrow> bit a n \<longleftrightarrow> bit b n"
  "drop_bit m (a :: int) = drop_bit m b \<Longrightarrow> m \<le> n \<Longrightarrow> bit a n \<longleftrightarrow> bit b n"
  by (metis bit_take_bit_iff) (metis bit_drop_bit_eq le_add_diff_inverse comp_apply)

lemma ex_rax_kept:
  "\<forall>j < 3. keeps_unwritten ex_native_cfg ([(0, 0), (0, 1), (0, 2)] ! j) (ex_rax ! j) (ex_rax ! Suc j)"
proof -
  have bits: "n < 8 \<Longrightarrow> bit (0x507 :: int) n \<longleftrightarrow> bit (7 :: int) n" "16 \<le> n \<Longrightarrow> bit (0x507 :: int) n \<longleftrightarrow> bit (7 :: int) n"
    "8 \<le> n \<Longrightarrow> \<not> bit (7 :: int) n" for n
    using same_bits(1) [of 8 "0x507" 7 n] same_bits(2) [of 16 "0x507" 7 n] same_bits(2) [of 8 7 0 n]
    by (auto simp: take_bit_eq_mod drop_bit_eq_div)
  have "keeps_unwritten ex_native_cfg (0, 0) (ex_rax ! 0) (ex_rax ! 1)"
    "keeps_unwritten ex_native_cfg (0, 1) (ex_rax ! 1) (ex_rax ! 2)"
    "keeps_unwritten ex_native_cfg (0, 2) (ex_rax ! 2) (ex_rax ! 3)"
    using bits by (auto simp: keeps_unwritten_def ex_rax_def native_fact_def ex_native_cfg_def ex_native_fact_def)
  then show ?thesis by (auto simp: less_Suc_eq numeral_3_eq_3 numeral_2_eq_2)
qed

lemma ex_native_entry:
  "dget ex_native_cfg 0 = Some (snd (hd ex_native_cfg))" "nb_predecessors (snd (hd ex_native_cfg)) = []"
  by (simp_all add: ex_native_cfg_def)

lemma ex_native_here:
  "native_fact ex_native_cfg (0, 3) = Some (ex_native_fact 0x18 2 [])" "ni_ea (ex_native_fact 0x18 2 []) = 0x18"
  by (simp_all add: ex_native_cfg_def native_fact_def ex_native_fact_def)

lemma ex_rax_contents:
  "length ex_rax = Suc (length [(0 :: int, 0 :: nat), (0, 1), (0, 2)])"
  "\<forall>j < length [(0 :: int, 0 :: nat), (0, 1), (0, 2)].
     keeps_unwritten ex_native_cfg ([(0, 0), (0, 1), (0, 2)] ! j) (ex_rax ! j) (ex_rax ! Suc j)"
  using ex_rax_kept by (simp_all add: ex_rax_def numeral_3_eq_3)

lemma register_evidence_sound_witness:
  "\<exists>ys b k zs d. [(0, 0), (0, 1), (0, 2)] = ys @ (b, k) # zs \<and> native_fact ex_native_cfg (b, k) = Some d \<and> ni_ea d = 0x10 \<and>
     register_slice (mk_spec ''al'' ''rax'' 1 0) 1 (last ex_rax) =
       register_slice (mk_spec ''al'' ''rax'' 1 0) 1 (ex_rax ! Suc (length ys))"
proof -
  let ?e = "ex_register_evidence 0 (mk_spec ''al'' ''rax'' 1 0)"
  have e: "dget (ra_evidence_by_index ex_analysis) 0 = Some ?e" by (simp add: ex_analyzed(2))
  have c: "re_confidence ?e = CONFIDENCE_EXACT_REGISTER_LOCATION" "re_width ?e = 1" "re_source_ea ?e = Some 0x10"
    "re_register ?e = Some (mk_spec ''al'' ''rax'' 1 0)"
    by (simp_all add: ex_register_evidence_def)
  have f: "st_get_func ex_static 0x18 = Inr (Some ex_func)" "build_native_cfg_facts (fn_native ex_func) = (Some ex_native_cfg, [])"
    using ex_snapshot by (simp_all add: ex_static_def)
  from register_evidence_sound [OF ex_analyzed(1) e c(1) f ex_native_entry ex_native_run ex_native_here ex_rax_contents]
  show ?thesis unfolding c(2,3,4) by (metis option.inject)
qed



section \<open>Storage claimed twice\<close>

text \<open>
  C9. The analysis never lets two lvars share storage: of any two lvars with evidence, claimed slices of
  the same full register are disjoint bit ranges and claimed stack slots are disjoint byte ranges.
\<close>

theorem storage_claims_disjoint:
  assumes analysis: "analyze_v_variable_candidates st fea ce vars cf0 = Inr a"
    and two: "dget (ra_evidence_by_index a) i = Some e" "dget (ra_evidence_by_index a) j = Some f" "i \<noteq> j"
  shows "(\<forall>r r'. re_storage_kind e = ''register'' \<and> re_storage_kind f = ''register'' \<and> re_register e = Some r \<and>
      re_register f = Some r' \<and> rs_full_register r = rs_full_register r' \<longrightarrow>
      {rs_bit_offset r..<rs_bit_offset r + re_width e * 8} \<inter> {rs_bit_offset r'..<rs_bit_offset r' + re_width f * 8} = {}) \<and>
    (\<forall>s s'. re_storage_kind e = ''stack'' \<and> re_storage_kind f = ''stack'' \<and> re_stack_pointer_offset e = Some s \<and>
      re_stack_pointer_offset f = Some s' \<longrightarrow> {s..<s + re_width e} \<inter> {s'..<s' + re_width f} = {})"
proof -
  have plain: "claims_conflict e f = None"
    if "ra_evidence_by_index a = fold (\<lambda>i. dset i ((RecoveryEvidence_new i)\<lparr>re_reason := r\<rparr>)) is []" for r "is"
  proof -
    have "re_storage_kind e = ''unknown''"
      using fold_dset_SomeD [of id "\<lambda>i. (RecoveryEvidence_new i)\<lparr>re_reason := r\<rparr>" "is" "[]" i e] two(1) that
      by (auto simp: RecoveryEvidence_new_def)
    then show ?thesis using claims_conflict_iff [of e f] by simp
  qed
  have "claims_conflict e f = None"
    using analysis_evidence_cases [OF analysis]
  proof (elim disjE exE)
    fix cf an
    assume "ra_evidence_by_index a = reject_duplicate_storage_claims
      (fold (\<lambda>v. dset (vr_lvar_index v) (candidate_evidence st an cf v)) vars [])"
    with two show ?thesis
      using reject_conflict_free [OF fold_dset_wf [of "[]" vr_lvar_index "candidate_evidence st an cf" vars]] by simp
  qed (rule plain)
  then have "\<not> claims_conflict e f \<noteq> None" by simp
  then show ?thesis unfolding claims_conflict_iff by fastforce
qed

lemma storage_claims_disjoint_witness: "{0..<0 + 1 * 8} \<inter> {8..<8 + 1 * 8} = ({} :: int set)"
proof -
  let ?e = "\<lambda>i a o'. ex_register_evidence i (mk_spec a ''rax'' 1 o')"
  have "dget (ra_evidence_by_index ex_analysis) 0 = Some (?e 0 ''al'' 0)"
    "dget (ra_evidence_by_index ex_analysis) 1 = Some (?e 1 ''ah'' 8)" by (simp_all add: ex_analyzed(2))
  from storage_claims_disjoint [OF ex_analyzed(1) this] show ?thesis
    by (simp add: ex_register_evidence_def mk_spec_def)
qed

end
