(* ===== verification/V_Recovery_Values.thy ===== *)
theory V_Recovery_Values
  imports V_Recovery_Proofs
begin

text \<open>
  The values the recovery shows: from the evidence of the static analysis through the runtime
  requests and their responses to the record, for register and for stack locations.
\<close>

section \<open>The loop over the lvars of a register response\<close>

lemma apply_reg_index_frame:
  assumes "j \<noteq> i"
  shows "dget (vs_records (ga_state (apply_reg_index env regs pending j acc))) i = dget (vs_records (ga_state acc)) i"
    and "dget (vs_pending (ga_state (apply_reg_index env regs pending j acc))) (v_mem_id (vp_pc_seq pending) i) =
      dget (vs_pending (ga_state acc)) (v_mem_id (vp_pc_seq pending) i)"
proof -
  have "v_mem_id q i \<noteq> v_mem_id q j" for q using assms str_int_inj by (auto simp: v_mem_id_def)
  with assms show
    "dget (vs_records (ga_state (apply_reg_index env regs pending j acc))) i = dget (vs_records (ga_state acc)) i"
    "dget (vs_pending (ga_state (apply_reg_index env regs pending j acc))) (v_mem_id (vp_pc_seq pending) i) =
      dget (vs_pending (ga_state acc)) (v_mem_id (vp_pc_seq pending) i)"
    by (auto simp: apply_reg_index_def apply_register_value_def apply_stack_pointer_def request_v_memory_def
        Let_def case_prod_beta put_record_def split: option.split bool.split sum.split)
qed

lemma apply_reg_index_grows:
  "vs_evidence (ga_state (apply_reg_index env regs pending j acc)) = vs_evidence (ga_state acc)"
  "set (ga_requests acc) \<subseteq> set (ga_requests (apply_reg_index env regs pending j acc))"
  by (auto simp: apply_reg_index_def apply_register_value_def apply_stack_pointer_def request_v_memory_def
      Let_def case_prod_beta put_record_def split: option.split bool.split sum.split)

lemma apply_reg_fold_frame:
  fixes env regs pending idx acc
  defines "acc' \<equiv> fold (apply_reg_index env regs pending) idx acc"
  shows "(i \<notin> set idx \<longrightarrow> dget (vs_records (ga_state acc')) i = dget (vs_records (ga_state acc)) i \<and>
      dget (vs_pending (ga_state acc')) (v_mem_id (vp_pc_seq pending) i) =
      dget (vs_pending (ga_state acc)) (v_mem_id (vp_pc_seq pending) i)) \<and>
    vs_evidence (ga_state acc') = vs_evidence (ga_state acc) \<and> set (ga_requests acc) \<subseteq> set (ga_requests acc')"
  unfolding acc'_def
proof (induction idx arbitrary: acc)
  case (Cons j idx)
  from Cons.IH [of "apply_reg_index env regs pending j acc"] apply_reg_index_grows [where env = env and regs = regs and pending = pending and j = j and acc = acc]
    apply_reg_index_frame [where j = j and i = i and env = env and regs = regs and pending = pending and acc = acc]
  show ?case by auto
qed simp

text \<open>The loop treats each lvar from the record it had before, whatever comes before and after.\<close>

lemma apply_reg_fold_at:
  assumes "distinct idx" "i \<in> set idx"
  obtains acc0 where "dget (vs_records (ga_state acc0)) i = dget (vs_records (ga_state acc)) i"
    "vs_evidence (ga_state acc0) = vs_evidence (ga_state acc)"
    "dget (vs_records (ga_state (fold (apply_reg_index env regs pending) idx acc))) i =
       dget (vs_records (ga_state (apply_reg_index env regs pending i acc0))) i"
    "dget (vs_pending (ga_state (fold (apply_reg_index env regs pending) idx acc))) (v_mem_id (vp_pc_seq pending) i) =
       dget (vs_pending (ga_state (apply_reg_index env regs pending i acc0))) (v_mem_id (vp_pc_seq pending) i)"
    "set (ga_requests (apply_reg_index env regs pending i acc0)) \<subseteq>
       set (ga_requests (fold (apply_reg_index env regs pending) idx acc))"
proof -
  from assms(2) obtain a b where ab: "idx = a @ i # b" by (auto dest: split_list)
  with assms(1) have "i \<notin> set a" "i \<notin> set b" by auto
  let ?acc0 = "fold (apply_reg_index env regs pending) a acc"
  note fr = apply_reg_fold_frame [where i = i and env = env and regs = regs and pending = pending]
  note fr = fr [where idx = a and acc = acc] fr [where idx = b and acc = "apply_reg_index env regs pending i ?acc0"]
  show thesis by (rule that [of ?acc0]) (use \<open>i \<notin> set a\<close> \<open>i \<notin> set b\<close> fr in \<open>auto simp: ab\<close>)
qed

section \<open>Responses to a plan\<close>

text \<open>A well-formed answer to the register request of a plan.\<close>

definition answers :: "payload \<Rightarrow> int \<Rightarrow> string \<Rightarrow> string \<Rightarrow> bool" where
  "answers p q rpc request_id \<longleftrightarrow>
     jget p ''pc_seq'' = JInt q \<and> jget p ''runtime_pc'' = JStr rpc \<and> jget p ''request_id'' = JStr request_id \<and>
     jget p ''ok'' = JBool True"

lemma answered_taken:
  assumes "answers p q rpc k" "vs_pc_seq s = Some q" "vs_runtime_pc s = rpc" "dget (vs_pending s) k = Some pr"
    "vp_kind pr = kind"
  shows "v_take_pending p kind s = ((Some pr, ''accepted''), s\<lparr>vs_pending := ddel k (vs_pending s)\<rparr>)"
  using assms by (simp add: v_take_pending_def answers_def)

text \<open>A plan that reads something for the variable \<open>v\<close>, whose evidence is \<open>e\<close>.\<close>

definition plans_read ::
    "'cf AnalysisProvider \<Rightarrow> VariableRecord list \<Rightarrow> int \<Rightarrow> int \<Rightarrow> 'cf option \<Rightarrow> int list \<Rightarrow> VariableRecord \<Rightarrow>
     RecoveryEvidence \<Rightarrow> bool" where
  "plans_read provider vs f ea cf sel v e \<longleftrightarrow>
     (let ls = filter (\<lambda>v. \<not> vr_is_arg v) vs
      in distinct (map vr_lvar_index ls) \<and> v \<in> set ls \<and> vr_lvar_index v \<in> set sel \<and>
         (case provider f ea (filter (\<lambda>v. vr_lvar_index v \<in> set sel) ls) cf of
            Inl _ \<Rightarrow> False
          | Inr a \<Rightarrow> ra_ok a \<and> dget (ra_evidence_by_index a) (vr_lvar_index v) = Some e) \<and>
         decision_registers (decide True v e) \<noteq> [])"

lemma plan_state_parts:
  assumes pl: "plans_read provider vs f ea cf sel v e" and ok: "v_ok s"
    and b: "begin_pc provider env vs f ea rpc q cf (Some sel) s x = (plan, s1, x1)"
  obtains pr s0 where "v_ok s1" "vs_pc_seq s1 = Some q" "vs_runtime_pc s1 = rpc"
    "dget (vs_pending s1) (v_reg_id q) = Some pr" "vp_kind pr = ''reg''" "vp_pc_seq pr = q" "vp_runtime_pc pr = rpc"
    "distinct (vp_lvar_indexes pr)" "vr_lvar_index v \<in> set (vp_lvar_indexes pr)"
    "set (decision_registers (decide True v e)) \<subseteq> set (vp_registers pr)"
    "dget (vs_evidence s1) (vr_lvar_index v) = Some e"
    "dget (vs_records s1) (vr_lvar_index v) =
       Some (fst (decide_record (decide True v e) (re_confidence e) (new_record v e q rpc ea s0) s0))"
    "\<exists>m. vl_register_request plan = Some (fst (env ''reg_request''
           [(''pc_seq'', JInt q), (''request_id'', JStr (v_reg_id q)), (''runtime_pc'', JStr rpc),
            (''registers'', JList (map JStr (vp_registers pr))), (''reason'', JStr ''v_variable_recovery'')] m))"
proof -
  let ?ls = "filter (\<lambda>v. \<not> vr_is_arg v) vs"
  from pl obtain a where a: "provider f ea (filter (\<lambda>v. vr_lvar_index v \<in> set sel) ?ls) cf = Inr a" "ra_ok a"
    "dget (ra_evidence_by_index a) (vr_lvar_index v) = Some e" and v: "distinct (map vr_lvar_index ?ls)" "v \<in> set ?ls"
    "vr_lvar_index v \<in> set sel" "decision_registers (decide True v e) \<noteq> []"
    by (auto simp: plans_read_def Let_def split: sum.splits)
  have run: "run_analysis provider f ea (filter (\<lambda>v. vr_lvar_index v \<in> set sel) ?ls) cf = a"
    using a(1) by (simp add: run_analysis_def)
  have sel: "selected_indexes ?ls (Some sel) = sel" by (simp add: selected_indexes_def)
  have ev: "variable_evidence (ra_ok a) sel (ra_evidence_by_index a) v = e"
    using a v(3) by (simp add: variable_evidence_def)
  then have dec: "plan_decision a sel v = decide True v e" using a(2) by simp
  let ?regs = "sort_registers (concat (map (\<lambda>v. decision_registers (plan_decision a sel v)) ?ls))"
  have sub: "set (decision_registers (decide True v e)) \<subseteq> set ?regs" using v(2) dec by force
  then have ne: "?regs \<noteq> []" using v(4) by (metis list.set(1) set_empty subset_empty)
  note parts = begin_pc_parts [OF b, unfolded sel run]
  note ctx = begin_loop_ok [OF ok, of provider vs f ea rpc q cf "Some sel"]
  have "\<exists>s0. dget (vs_records s1) (vr_lvar_index v) =
      Some (fst (decide_record (decide True v e) (re_confidence e) (new_record v e q rpc ea s0) s0))"
    using begin_fold_record [OF v(1,2), of "ra_ok a" sel ea rpc q "\<lparr>ba_state =
        (v_start_context f ea rpc q s)\<lparr>vs_source_variables := ?ls, vs_evidence := ra_evidence_by_index a\<rparr>,
        ba_registers = [], ba_indexes = [], ba_debug = analysis_lines a f\<rparr>"] ev a(2)
    unfolding parts(4) begin_loop_def Let_def sel run by simp
  then obtain s0 where "dget (vs_records s1) (vr_lvar_index v) =
      Some (fst (decide_record (decide True v e) (re_confidence e) (new_record v e q rpc ea s0) s0))" ..
  moreover have "v_ok s1" using v_ok_begin [OF ok, of provider env vs f ea rpc q cf "Some sel" x] b by simp
  moreover have "distinct (map vr_lvar_index (filter P ?ls))" for P using v(1) by (rule distinct_map_filter)
  moreover have "vr_lvar_index v \<in> set (map vr_lvar_index (filter (\<lambda>v. decision_registers (plan_decision a sel v) \<noteq> []) ?ls))"
    using v(2,4) dec by auto
  ultimately show thesis
    using parts(1-3) parts(6,7) [OF ne] ctx sub a(3)
    by (intro that [of "\<lparr>vp_kind = ''reg'', vp_pc_seq = q, vp_request_id = v_reg_id q, vp_runtime_pc = rpc,
          vp_lvar_indexes = map vr_lvar_index (filter (\<lambda>v. decision_registers (plan_decision a sel v) \<noteq> []) ?ls),
          vp_registers = ?regs, vp_address = [], vp_size = 0\<rparr>" s0]) (simp_all del: set_map)
qed

text \<open>The record of a variable after the answer to its plan.\<close>

lemma plan_answered:
  assumes pl: "plans_read provider vs f ea cf sel v e" and ok: "v_ok s"
    and b: "begin_pc provider env vs f ea rpc q cf (Some sel) s x = (plan, s1, x1)"
    and an: "answers p q rpc (v_reg_id q)" "jget p ''registers'' = JObj regs"
  obtains pr s0 acc0 msgs lines s2 x2 where
    "v_apply_reg_response env p s1 x1 = ((True, ''accepted'', msgs, lines), s2, x2)"
    "v_ok s2" "vs_pc_seq s2 = Some q" "vs_runtime_pc s2 = rpc" "vp_pc_seq pr = q" "vp_runtime_pc pr = rpc"
    "dget (vs_evidence (ga_state acc0)) (vr_lvar_index v) = Some e"
    "dget (vs_records (ga_state acc0)) (vr_lvar_index v) =
       Some (fst (decide_record (decide True v e) (re_confidence e) (new_record v e q rpc ea s0) s0))"
    "dget (vs_records s2) (vr_lvar_index v) =
       dget (vs_records (ga_state (apply_reg_index env regs pr (vr_lvar_index v) acc0))) (vr_lvar_index v)"
    "dget (vs_pending s2) (v_mem_id q (vr_lvar_index v)) =
       dget (vs_pending (ga_state (apply_reg_index env regs pr (vr_lvar_index v) acc0))) (v_mem_id q (vr_lvar_index v))"
    "set (ga_requests (apply_reg_index env regs pr (vr_lvar_index v) acc0)) \<subseteq> set msgs"
proof -
  from plan_state_parts [OF pl ok b] obtain pr s0 where s1: "v_ok s1" "vs_pc_seq s1 = Some q" "vs_runtime_pc s1 = rpc"
    "dget (vs_pending s1) (v_reg_id q) = Some pr" "vp_kind pr = ''reg''" "vp_pc_seq pr = q" "vp_runtime_pc pr = rpc"
    "distinct (vp_lvar_indexes pr)" "vr_lvar_index v \<in> set (vp_lvar_indexes pr)"
    "dget (vs_evidence s1) (vr_lvar_index v) = Some e"
    "dget (vs_records s1) (vr_lvar_index v) =
       Some (fst (decide_record (decide True v e) (re_confidence e) (new_record v e q rpc ea s0) s0))" by metis
  let ?s = "s1\<lparr>vs_pending := ddel (v_reg_id q) (vs_pending s1)\<rparr>"
  let ?acc = "\<lparr>ga_state = ?s, ga_env = x1, ga_requests = [], ga_summaries = [], ga_debug = []\<rparr>"
  let ?acc' = "fold (apply_reg_index env regs pr) (vp_lvar_indexes pr) ?acc"
  have res: "\<exists>lines. v_apply_reg_response env p s1 x1 = ((True, ''accepted'', ga_requests ?acc', lines), ga_state ?acc', ga_env ?acc')"
    using answered_taken [OF an(1) s1(2-5)] an by (simp add: v_apply_reg_response_def Let_def answers_def)
  have fold: "v_ok (ga_state ?acc') \<and> kept not_mem ?s (ga_state ?acc')"
    using apply_reg_fold_ok [of ?acc pr env regs "vp_lvar_indexes pr"] s1 v_ok_del_pending [OF s1(1), of "v_reg_id q"]
    by simp
  from apply_reg_fold_at [OF s1(8,9), of ?acc env regs pr] obtain acc0 where acc0:
    "dget (vs_records (ga_state acc0)) (vr_lvar_index v) = dget (vs_records s1) (vr_lvar_index v)"
    "vs_evidence (ga_state acc0) = vs_evidence s1"
    "dget (vs_records (ga_state ?acc')) (vr_lvar_index v) =
       dget (vs_records (ga_state (apply_reg_index env regs pr (vr_lvar_index v) acc0))) (vr_lvar_index v)"
    "dget (vs_pending (ga_state ?acc')) (v_mem_id (vp_pc_seq pr) (vr_lvar_index v)) =
       dget (vs_pending (ga_state (apply_reg_index env regs pr (vr_lvar_index v) acc0))) (v_mem_id (vp_pc_seq pr) (vr_lvar_index v))"
    "set (ga_requests (apply_reg_index env regs pr (vr_lvar_index v) acc0)) \<subseteq> set (ga_requests ?acc')"
    by auto
  from res obtain lines where
    "v_apply_reg_response env p s1 x1 = ((True, ''accepted'', ga_requests ?acc', lines), ga_state ?acc', ga_env ?acc')" ..
  then show thesis
    using acc0 s1 fold by (intro that [of "ga_requests ?acc'" lines "ga_state ?acc'" "ga_env ?acc'" pr acc0 s0])
      (simp_all add: kept_def)
qed

section \<open>Example\<close>

definition ex_local :: VariableRecord where
  "ex_local = VariableRecord_new 3 ''v3'' ''temporary'' ''int'' 4 False None ''eax'' ''0x1000'' 0x1000"

definition ex_evidence :: RecoveryEvidence where
  "ex_evidence = (RecoveryEvidence_new 3)\<lparr>re_storage_kind := ''register'', re_storage := ''eax'',
     re_source_ea := Some 0x1004, re_confidence := CONFIDENCE_EXACT_REGISTER_LOCATION,
     re_register := Some (mk_spec ''eax'' ''rax'' 4 0), re_width := 4\<rparr>"

definition ex_provider :: "unit AnalysisProvider" where
  "ex_provider f ea vs cf =
     Inr \<lparr>ra_ok = True, ra_evidence_by_index = [(3, ex_evidence)], ra_error = [], ra_debug_lines = []\<rparr>"

definition ex_env :: "int EnvelopeFactory" where
  "ex_env t p i = ([(''id'', JInt i), (''type'', JStr t), (''payload'', JObj p)], i + 1)"

definition ex_begun :: "VRecoveryPlan \<times> VVariableRecovery \<times> int" where
  "ex_begun = begin_pc ex_provider ex_env [ex_local] 0x1000 0x1008 ''0x7ff8'' 5 None (Some [3])
     (VVariableRecovery_init 256) 1"

lemma ex_plans_read: "plans_read ex_provider [ex_local] 0x1000 0x1008 None [3] ex_local ex_evidence"
  by (simp add: plans_read_def ex_local_def ex_provider_def ex_evidence_def VariableRecord_new_def decide_def
      SUPPORTED_WIDTHS_def mk_spec_def RecoveryEvidence_new_def)

lemma ex_begun_eq: "begin_pc ex_provider ex_env [ex_local] 0x1000 0x1008 ''0x7ff8'' 5 None (Some [3])
     (VVariableRecovery_init 256) 1 = (fst ex_begun, fst (snd ex_begun), snd (snd ex_begun))"
  by (simp add: ex_begun_def)

lemmas ex_plan_parts = plan_state_parts [OF ex_plans_read v_ok_init ex_begun_eq]

lemma ex_begun_reachable: "(v_step ex_provider ex_env)\<^sup>*\<^sup>* (VVariableRecovery_init 256, 1) (snd ex_begun)"
  unfolding ex_begun_def by (rule r_into_rtranclp) (rule v_begin)

section \<open>Register values\<close>

lemma decided_width:
  "vv_width (fst (decide_record d c (new_record v e q rpc ea s0) s0)) = vr_size v"
  "vv_current_pc_seq (fst (decide_record d c (new_record v e q rpc ea s0) s0)) = q"
  "vv_candidate_storage_kind (fst (decide_record d c (new_record v e q rpc ea s0) s0)) = re_storage_kind e"
  by (cases d; simp add: decide_record_def mark_fresh_record set_waiting_def set_unavailable_def
      set_stale_or_unavailable_def fresh_record_def new_record_identity)+

lemma register_recovered:
  assumes "(v_step provider env)\<^sup>*\<^sup>* (VVariableRecovery_init n, x0) (s, x)"
    and "plans_read provider vs f ea cf sel v e" "re_storage_kind e = ''register''" "re_register e = Some spec"
    and "begin_pc provider env vs f ea rpc q cf (Some sel) s x = (plan, s1, x1)"
    and "answers p q rpc (v_reg_id q)" "jget p ''registers'' = JObj regs"
    and "jget regs (rs_full_register spec) = JStr (hex0x w)" "0 \<le> w"
  shows "\<exists>msgs lines s2 x2 r.
    v_apply_reg_response env p s1 x1 = ((True, ''accepted'', msgs, lines), s2, x2) \<and>
    dget (vs_records s2) (vr_lvar_index v) = Some r \<and> vv_recovery_status r = STATUS_FRESH \<and>
    vv_confidence r = CONFIDENCE_EXACT_REGISTER_LOCATION \<and> vv_last_successful_pc_seq r = Some q \<and>
    vv_value r = hex0x (w div 2 ^ nat (rs_bit_offset spec) mod 2 ^ nat (8 * vr_size v))"
proof -
  have ok: "v_ok s" using v_reachable [OF assms(1)] by simp
  have width: "vr_size v \<in> set SUPPORTED_WIDTHS" "vr_size v \<le> rs_width spec"
    using assms(2-4) by (auto simp: plans_read_def Let_def decide_def split: if_splits)
  from plan_answered [OF assms(2) ok assms(5-7)] obtain pr s0 acc0 msgs lines s2 x2 where st:
    "v_apply_reg_response env p s1 x1 = ((True, ''accepted'', msgs, lines), s2, x2)"
    "dget (vs_evidence (ga_state acc0)) (vr_lvar_index v) = Some e"
    "dget (vs_records (ga_state acc0)) (vr_lvar_index v) =
       Some (fst (decide_record (decide True v e) (re_confidence e) (new_record v e q rpc ea s0) s0))"
    "dget (vs_records s2) (vr_lvar_index v) =
       dget (vs_records (ga_state (apply_reg_index env regs pr (vr_lvar_index v) acc0))) (vr_lvar_index v)"
    by metis
  let ?r = "fst (decide_record (decide True v e) (re_confidence e) (new_record v e q rpc ea s0) s0)"
  let ?val = "hex0x (w div 2 ^ nat (rs_bit_offset spec) mod 2 ^ nat (8 * vr_size v))"
  have "extract_register_value (jget regs (rs_full_register spec)) spec (vv_width ?r) = Inr ?val"
    unfolding assms(8) decided_width using width assms(9) by (rule extract_hex0x)
  then have "dget (vs_records s2) (vr_lvar_index v) = Some (fresh_record ?val CONFIDENCE_EXACT_REGISTER_LOCATION ?r)"
    using st(2-4) assms(3,4)
    by (simp add: apply_reg_index_def apply_register_value_def case_prod_beta put_record_def mark_fresh_record)
  then show ?thesis using st(1) by (auto simp: fresh_record_def decided_width)
qed

text \<open>
  C18. From analysis to value, for registers: when the analysis proves that a local variable lives in
  a slice of a register, the answer to the planned request, with the register holding \<open>w\<close>, makes
  its record fresh at this program counter with exactly the bytes of \<open>w\<close> that the slice covers.
\<close>

theorem register_value_recovered:
  assumes "(v_step provider env)\<^sup>*\<^sup>* (VVariableRecovery_init n, x0) (s, x)"
    and "plans_read provider vs f ea cf sel v e" "re_storage_kind e = ''register''" "re_register e = Some spec"
    and "begin_pc provider env vs f ea rpc q cf (Some sel) s x = (plan, s1, x1)"
    and "answers p q rpc (v_reg_id q)" "jget p ''registers'' = JObj regs"
    and "jget regs (rs_full_register spec) = JStr (hex0x w)" "0 \<le> w"
  shows "\<exists>msgs lines s2 x2 r.
    v_apply_reg_response env p s1 x1 = ((True, ''accepted'', msgs, lines), s2, x2) \<and>
    dget (vs_records s2) (vr_lvar_index v) = Some r \<and> vv_recovery_status r = STATUS_FRESH \<and>
    vv_confidence r = CONFIDENCE_EXACT_REGISTER_LOCATION \<and> vv_last_successful_pc_seq r = Some q \<and>
    vv_value r = hex0x (w div 2 ^ nat (rs_bit_offset spec) mod 2 ^ nat (8 * vr_size v))"
  using assms by (rule register_recovered)

definition ex_reg_values :: payload where
  "ex_reg_values = [(''pc_seq'', JInt 5), (''runtime_pc'', JStr ''0x7ff8''), (''request_id'', JStr (v_reg_id 5)),
     (''ok'', JBool True), (''registers'', JObj [(''rax'', JStr (hex0x 0x1122334455667788))])]"

lemma register_value_recovered_witness:
  "\<exists>msgs lines s2 x2 r.
    v_apply_reg_response ex_env ex_reg_values (fst (snd ex_begun)) (snd (snd ex_begun)) =
      ((True, ''accepted'', msgs, lines), s2, x2) \<and>
    dget (vs_records s2) (vr_lvar_index ex_local) = Some r \<and> vv_value r = hex0x 0x55667788"
proof -
  have an: "answers ex_reg_values 5 ''0x7ff8'' (v_reg_id 5)"
    "jget ex_reg_values ''registers'' = JObj [(''rax'', JStr (hex0x 0x1122334455667788))]"
    by (simp_all add: answers_def ex_reg_values_def jget_def)
  have e: "re_storage_kind ex_evidence = ''register''" "re_register ex_evidence = Some (mk_spec ''eax'' ''rax'' 4 0)"
    by (simp_all add: ex_evidence_def)
  have v: "jget [(''rax'', JStr (hex0x 0x1122334455667788))] (rs_full_register (mk_spec ''eax'' ''rax'' 4 0)) =
      JStr (hex0x 0x1122334455667788)" by (simp add: jget_def mk_spec_def)
  have "(0x1122334455667788::int) div 2 ^ nat (rs_bit_offset (mk_spec ''eax'' ''rax'' 4 0)) mod
      2 ^ nat (8 * vr_size ex_local) = 0x55667788" by (simp add: mk_spec_def ex_local_def VariableRecord_new_def)
  with register_value_recovered [OF rtranclp.rtrancl_refl ex_plans_read e ex_begun_eq an v] show ?thesis by force
qed

section \<open>Stack values\<close>

text \<open>The stack slot of a variable becomes a memory request once \<open>rsp\<close> is known.\<close>

lemma stack_requested:
  assumes pl: "plans_read provider vs f ea cf sel v e" and ok: "v_ok s"
    and e: "re_storage_kind e = ''stack''" "re_stack_pointer_offset e = Some off"
    and b: "begin_pc provider env vs f ea rpc q cf (Some sel) s x = (plan, s1, x1)"
    and an: "answers p q rpc (v_reg_id q)" "jget p ''registers'' = JObj regs" "jget regs ''rsp'' = JStr (hex0x sp)"
    and sp: "0 \<le> sp" "0 \<le> sp + off" "sp + off < 2 ^ 64"
  obtains msgs lines s2 x2 y r where
    "v_apply_reg_response env p s1 x1 = ((True, ''accepted'', msgs, lines), s2, x2)"
    "fst (env ''mem_request''
      [(''pc_seq'', JInt q), (''request_id'', JStr (v_mem_id q (vr_lvar_index v))), (''runtime_pc'', JStr rpc),
       (''address'', JStr (hex0x (sp + off))), (''size'', JInt (vr_size v)), (''reason'', JStr ''v_variable_stack''),
       (''variable'', JStr (vr_name v)), (''lvar_index'', JInt (vr_lvar_index v))] y) \<in> set msgs"
    "vs_pc_seq s2 = Some q" "vs_runtime_pc s2 = rpc" "dget (vs_records s2) (vr_lvar_index v) = Some r"
    "dget (vs_pending s2) (v_mem_id q (vr_lvar_index v)) =
       Some \<lparr>vp_kind = ''mem'', vp_pc_seq = q, vp_request_id = v_mem_id q (vr_lvar_index v), vp_runtime_pc = rpc,
         vp_lvar_indexes = [vr_lvar_index v], vp_registers = [], vp_address = hex0x (sp + off), vp_size = vr_size v\<rparr>"
proof -
  let ?i = "vr_lvar_index v"
  from plan_answered [OF pl ok b an(1,2)] obtain pr s0 acc0 msgs lines s2 x2 where st:
    "v_apply_reg_response env p s1 x1 = ((True, ''accepted'', msgs, lines), s2, x2)"
    "vs_pc_seq s2 = Some q" "vs_runtime_pc s2 = rpc" "vp_pc_seq pr = q" "vp_runtime_pc pr = rpc"
    "dget (vs_evidence (ga_state acc0)) ?i = Some e"
    "dget (vs_records (ga_state acc0)) ?i =
       Some (fst (decide_record (decide True v e) (re_confidence e) (new_record v e q rpc ea s0) s0))"
    "dget (vs_records s2) ?i = dget (vs_records (ga_state (apply_reg_index env regs pr ?i acc0))) ?i"
    "dget (vs_pending s2) (v_mem_id q ?i) =
       dget (vs_pending (ga_state (apply_reg_index env regs pr ?i acc0))) (v_mem_id q ?i)"
    "set (ga_requests (apply_reg_index env regs pr ?i acc0)) \<subseteq> set msgs" by metis
  let ?r = "fst (decide_record (decide True v e) (re_confidence e) (new_record v e q rpc ea s0) s0)"
  have name: "vv_name ?r = vr_name v"
    using decide_record_ok(1) [of "new_record v e q rpc ea s0" "decide True v e" "re_confidence e" s0]
    by (simp add: same_identity_def) (simp add: new_record_def Let_def)
  have addr: "concrete_stack_address (jget regs ''rsp'') off = Inr (hex0x (sp + off))"
    using an(3) sp by (simp add: concrete_stack_address_def parse_runtime_int_def int_base0_hex0x push_bit_eq_mult)
  have step: "apply_reg_index env regs pr ?i acc0 = request_v_memory env pr ?i ?r (hex0x (sp + off)) acc0"
    using st(6,7) e addr by (simp add: apply_reg_index_def apply_stack_pointer_def)
  have "\<exists>r. dget (vs_records s2) ?i = Some r" "dget (vs_pending s2) (v_mem_id q ?i) =
      Some \<lparr>vp_kind = ''mem'', vp_pc_seq = q, vp_request_id = v_mem_id q ?i, vp_runtime_pc = rpc,
        vp_lvar_indexes = [?i], vp_registers = [], vp_address = hex0x (sp + off), vp_size = vr_size v\<rparr>"
    using st(4,5,8,9) unfolding step
    by (simp_all add: request_v_memory_def Let_def case_prod_beta put_record_def decided_width)
  moreover have "\<exists>y. fst (env ''mem_request''
      [(''pc_seq'', JInt q), (''request_id'', JStr (v_mem_id q ?i)), (''runtime_pc'', JStr rpc),
       (''address'', JStr (hex0x (sp + off))), (''size'', JInt (vr_size v)), (''reason'', JStr ''v_variable_stack''),
       (''variable'', JStr (vr_name v)), (''lvar_index'', JInt ?i)] y) \<in> set msgs"
    using st(4,5,10) unfolding step
    by (auto simp: request_v_memory_def Let_def case_prod_beta decided_width name)
  ultimately show thesis using st(1-3) that by blast
qed

text \<open>The answer to a memory request.\<close>

lemma mem_answered:
  assumes "dget (vs_records s) i = Some r" "dget (vs_pending s) k = Some pr" "vp_kind pr = ''mem''"
    "vp_lvar_indexes pr = [i]" "vs_pc_seq s = Some q" "vs_runtime_pc s = rpc" "answers p q rpc k"
    "jget p ''address'' = JStr (vp_address pr)" "jget p ''size'' = JInt (vp_size pr)"
    "jget p ''bytes_hex'' = JStr b" "decode_little_endian b (vp_size pr) = Inr value"
  shows "\<exists>lines s' r'. v_apply_mem_response p s = ((True, ''accepted'', lines), s') \<and>
    dget (vs_records s') i = Some r' \<and> vv_recovery_status r' = STATUS_FRESH \<and>
    vv_confidence r' = CONFIDENCE_EXACT_STACK_LOCATION \<and> vv_value r' = value"
proof -
  have "jget_or p ''bytes_hex'' (JStr []) = JStr b"
    using assms(10) by (auto simp: jget_def jget_or_def split: option.splits)
  with assms answered_taken [OF assms(7,5,6,2,3)] show ?thesis
    by (simp add: v_apply_mem_response_def Let_def address_matches_def size_matches_def answers_def apply_mem_index_def
        apply_mem_record_def case_prod_beta put_record_def mark_fresh_record fresh_record_def)
qed

text \<open>
  C19. From analysis to value, for stack slots: when the analysis proves that a local variable lives
  at an offset from \<^verbatim>\<open>rsp\<close>, the answer to the planned request produces a memory request for it, at \<open>rsp + offset\<close> and of the size of the variable, and the answer to that request
  makes the record fresh with the little-endian value of the bytes read.
\<close>

theorem stack_value_recovered:
  assumes "(v_step provider env)\<^sup>*\<^sup>* (VVariableRecovery_init n, x0) (s, x)"
    and "plans_read provider vs f ea cf sel v e" "re_storage_kind e = ''stack''"
    and "re_stack_pointer_offset e = Some off" "vr_size v = int k"
    and "begin_pc provider env vs f ea rpc q cf (Some sel) s x = (plan, s1, x1)"
    and "answers p q rpc (v_reg_id q)" "jget p ''registers'' = JObj regs" "jget regs ''rsp'' = JStr (hex0x sp)"
    and "0 \<le> sp" "0 \<le> sp + off" "sp + off < 2 ^ 64"
    and "answers p' q rpc (v_mem_id q (vr_lvar_index v))" "jget p' ''address'' = JStr (hex0x (sp + off))"
    and "jget p' ''size'' = JInt (vr_size v)" "val < 256 ^ k"
    and "jget p' ''bytes_hex'' = JStr (hex_of_bytes (to_bytes_little k val))"
  shows "\<exists>msgs lines lines' s2 x2 s3 r y.
    v_apply_reg_response env p s1 x1 = ((True, ''accepted'', msgs, lines), s2, x2) \<and>
    fst (env ''mem_request''
      [(''pc_seq'', JInt q), (''request_id'', JStr (v_mem_id q (vr_lvar_index v))), (''runtime_pc'', JStr rpc),
       (''address'', JStr (hex0x (sp + off))), (''size'', JInt (vr_size v)), (''reason'', JStr ''v_variable_stack''),
       (''variable'', JStr (vr_name v)), (''lvar_index'', JInt (vr_lvar_index v))] y) \<in> set msgs \<and>
    v_apply_mem_response p' s2 = ((True, ''accepted'', lines'), s3) \<and>
    dget (vs_records s3) (vr_lvar_index v) = Some r \<and> vv_recovery_status r = STATUS_FRESH \<and>
    vv_confidence r = CONFIDENCE_EXACT_STACK_LOCATION \<and> vv_value r = hex0x (int val)"
proof -
  have ok: "v_ok s" using v_reachable [OF assms(1)] by simp
  have "int k \<in> set SUPPORTED_WIDTHS"
    using assms(2-5) by (auto simp: plans_read_def Let_def decide_def split: if_splits)
  then have dec: "decode_little_endian (hex_of_bytes (to_bytes_little k val)) (vr_size v) = Inr (hex0x (int val))"
    using decode_value_bytes assms(5,16) by simp
  from stack_requested [OF assms(2) ok assms(3,4,6-12)] obtain msgs lines s2 x2 y r where st:
    "v_apply_reg_response env p s1 x1 = ((True, ''accepted'', msgs, lines), s2, x2)"
    "fst (env ''mem_request''
      [(''pc_seq'', JInt q), (''request_id'', JStr (v_mem_id q (vr_lvar_index v))), (''runtime_pc'', JStr rpc),
       (''address'', JStr (hex0x (sp + off))), (''size'', JInt (vr_size v)), (''reason'', JStr ''v_variable_stack''),
       (''variable'', JStr (vr_name v)), (''lvar_index'', JInt (vr_lvar_index v))] y) \<in> set msgs"
    "vs_pc_seq s2 = Some q" "vs_runtime_pc s2 = rpc" "dget (vs_records s2) (vr_lvar_index v) = Some r"
    "dget (vs_pending s2) (v_mem_id q (vr_lvar_index v)) =
       Some \<lparr>vp_kind = ''mem'', vp_pc_seq = q, vp_request_id = v_mem_id q (vr_lvar_index v), vp_runtime_pc = rpc,
         vp_lvar_indexes = [vr_lvar_index v], vp_registers = [], vp_address = hex0x (sp + off), vp_size = vr_size v\<rparr>"
    by metis
  from mem_answered [OF st(5,6) _ _ st(3,4) assms(13) _ _ assms(17)] assms(14,15) dec st(1,2) show ?thesis
    by fastforce
qed

definition ex_slot :: RecoveryEvidence where
  "ex_slot = (RecoveryEvidence_new 3)\<lparr>re_storage_kind := ''stack'', re_storage := ''stack:rsp+0x20'',
     re_confidence := CONFIDENCE_EXACT_STACK_LOCATION, re_stack_pointer_offset := Some 0x20, re_width := 4\<rparr>"

definition ex_slot_provider :: "unit AnalysisProvider" where
  "ex_slot_provider f ea vs cf =
     Inr \<lparr>ra_ok = True, ra_evidence_by_index = [(3, ex_slot)], ra_error = [], ra_debug_lines = []\<rparr>"

definition ex_slot_begun :: "VRecoveryPlan \<times> VVariableRecovery \<times> int" where
  "ex_slot_begun = begin_pc ex_slot_provider ex_env [ex_local] 0x1000 0x1008 ''0x7ff8'' 5 None (Some [3])
     (VVariableRecovery_init 256) 1"

definition ex_rsp_response :: payload where
  "ex_rsp_response = [(''pc_seq'', JInt 5), (''runtime_pc'', JStr ''0x7ff8''), (''request_id'', JStr (v_reg_id 5)),
     (''ok'', JBool True), (''registers'', JObj [(''rsp'', JStr (hex0x 0x8000))])]"

definition ex_slot_response :: payload where
  "ex_slot_response = [(''pc_seq'', JInt 5), (''runtime_pc'', JStr ''0x7ff8''), (''request_id'', JStr (v_mem_id 5 3)),
     (''ok'', JBool True), (''address'', JStr (hex0x 0x8020)), (''size'', JInt 4),
     (''bytes_hex'', JStr (hex_of_bytes (to_bytes_little 4 0xcafe)))]"

lemma stack_value_recovered_witness:
  "\<exists>msgs lines lines' s2 x2 s3 r.
    v_apply_reg_response ex_env ex_rsp_response (fst (snd ex_slot_begun)) (snd (snd ex_slot_begun)) =
      ((True, ''accepted'', msgs, lines), s2, x2) \<and>
    v_apply_mem_response ex_slot_response s2 = ((True, ''accepted'', lines'), s3) \<and>
    dget (vs_records s3) 3 = Some r \<and> vv_value r = hex0x 0xcafe"
proof -
  have pl: "plans_read ex_slot_provider [ex_local] 0x1000 0x1008 None [3] ex_local ex_slot"
    by (simp add: plans_read_def ex_local_def ex_slot_provider_def ex_slot_def VariableRecord_new_def decide_def
        SUPPORTED_WIDTHS_def RecoveryEvidence_new_def)
  have b: "begin_pc ex_slot_provider ex_env [ex_local] 0x1000 0x1008 ''0x7ff8'' 5 None (Some [3])
     (VVariableRecovery_init 256) 1 = (fst ex_slot_begun, fst (snd ex_slot_begun), snd (snd ex_slot_begun))"
    by (simp add: ex_slot_begun_def)
  have e: "re_storage_kind ex_slot = ''stack''" "re_stack_pointer_offset ex_slot = Some 0x20"
    "vr_size ex_local = int 4" "vr_lvar_index ex_local = 3"
    by (simp_all add: ex_slot_def ex_local_def VariableRecord_new_def)
  have an: "answers ex_rsp_response 5 ''0x7ff8'' (v_reg_id 5)"
    "jget ex_rsp_response ''registers'' = JObj [(''rsp'', JStr (hex0x 0x8000))]"
    "jget [(''rsp'', JStr (hex0x 0x8000))] ''rsp'' = JStr (hex0x 0x8000)"
    by (simp_all add: answers_def ex_rsp_response_def jget_def)
  have an': "answers ex_slot_response 5 ''0x7ff8'' (v_mem_id 5 (vr_lvar_index ex_local))"
    "jget ex_slot_response ''address'' = JStr (hex0x (0x8000 + 0x20))"
    "jget ex_slot_response ''size'' = JInt (vr_size ex_local)"
    "jget ex_slot_response ''bytes_hex'' = JStr (hex_of_bytes (to_bytes_little 4 0xcafe))"
    by (simp_all add: answers_def ex_slot_response_def jget_def e)
  from stack_value_recovered [OF rtranclp.rtrancl_refl pl e(1-3) b an _ _ _ an'(1-3) _ an'(4)] show ?thesis
    unfolding e(4) by force
qed

section \<open>Consistency\<close>

text \<open>
  C20. However contexts and responses are interleaved, the recovery state is consistent: every
  outstanding request carries the current sequence number and runtime address and is filed under
  its id; every record belongs to the current program counter; a fresh value was obtained at this
  program counter, a stale one is the last successful value, and unavailable or failed records
  show no value.
\<close>

theorem v_state_consistent:
  assumes "(v_step provider env)\<^sup>*\<^sup>* (VVariableRecovery_init n, x0) (s, x)"
  shows "(\<forall>k pr. dget (vs_pending s) k = Some pr \<longrightarrow>
      vp_request_id pr = k \<and> vs_pc_seq s = Some (vp_pc_seq pr) \<and> vp_runtime_pc pr = vs_runtime_pc s) \<and>
    (\<forall>i r. dget (vs_records s) i = Some r \<longrightarrow>
      vv_lvar_index r = i \<and> vs_pc_seq s = Some (vv_current_pc_seq r) \<and> vv_current_runtime_pc r = vs_runtime_pc s \<and>
      (vv_recovery_status r = STATUS_FRESH \<longrightarrow>
         vv_last_successful_pc_seq r = vs_pc_seq s \<and> vv_last_successful_value r = vv_value r) \<and>
      (vv_recovery_status r = STATUS_STALE \<longrightarrow>
         vv_value r = vv_last_successful_value r \<and> vv_confidence r = CONFIDENCE_STALE_RUNTIME_VALUE) \<and>
      (vv_recovery_status r \<noteq> STATUS_FRESH \<and> vv_recovery_status r \<noteq> STATUS_STALE \<longrightarrow>
         vv_recovery_status r \<in> {STATUS_UNAVAILABLE, STATUS_ERROR} \<and> vv_value r = []))"
proof -
  have ok: "v_ok s" using v_reachable [OF assms] by simp
  have "vv_lvar_index r = i \<and> vs_pc_seq s = Some (vv_current_pc_seq r) \<and> vv_current_runtime_pc r = vs_runtime_pc s \<and>
      (vv_recovery_status r = STATUS_FRESH \<longrightarrow>
         vv_last_successful_pc_seq r = vs_pc_seq s \<and> vv_last_successful_value r = vv_value r) \<and>
      (vv_recovery_status r = STATUS_STALE \<longrightarrow>
         vv_value r = vv_last_successful_value r \<and> vv_confidence r = CONFIDENCE_STALE_RUNTIME_VALUE) \<and>
      (vv_recovery_status r \<noteq> STATUS_FRESH \<and> vv_recovery_status r \<noteq> STATUS_STALE \<longrightarrow>
         vv_recovery_status r \<in> {STATUS_UNAVAILABLE, STATUS_ERROR} \<and> vv_value r = [])"
    if "dget (vs_records s) i = Some r" for i r
    using v_okD(3) [OF ok that] unfolding record_ok_def honest_def status_defs by auto
  moreover have "vp_request_id pr = k \<and> vs_pc_seq s = Some (vp_pc_seq pr) \<and> vp_runtime_pc pr = vs_runtime_pc s"
    if "dget (vs_pending s) k = Some pr" for k pr
    using v_okD(2) [OF ok that] by (simp add: v_request_ok_def)
  ultimately show ?thesis by blast
qed

lemma v_state_consistent_witness:
  "\<exists>r. dget (vs_records (fst (snd ex_begun))) 3 = Some r \<and> vv_current_runtime_pc r = vs_runtime_pc (fst (snd ex_begun))"
proof -
  obtain r where r: "dget (vs_records (fst (snd ex_begun))) 3 = Some r"
    using ex_plan_parts [of "\<exists>r. dget (vs_records (fst (snd ex_begun))) 3 = Some r"]
    by (auto simp: ex_local_def VariableRecord_new_def)
  from ex_begun_reachable have "(v_step ex_provider ex_env)\<^sup>*\<^sup>* (VVariableRecovery_init 256, 1)
      (fst (snd ex_begun), snd (snd ex_begun))" by simp
  from v_state_consistent [OF this] r show ?thesis by blast
qed

text \<open>
  The history of last successful values never outgrows its limit, which is at least one, and
  holds at most one entry per function and lvar.
\<close>

lemma v_history_bounded:
  assumes "(v_step provider env)\<^sup>*\<^sup>* (VVariableRecovery_init n, x0) (s, x)"
  shows "int (length (vs_history s)) \<le> max 1 n \<and> distinct (map fst (vs_history s))"
  using v_reachable [OF assms] by (auto simp: v_ok_def history_ok_def)

section \<open>Late and repeated responses\<close>

text \<open>
  C21. Once the recovery moved to a program counter, by planning reads for it or by declaring it
  unavailable, a response of any other program counter is rejected and changes nothing.
\<close>

theorem late_v_response_ignored:
  assumes "(v_step provider env)\<^sup>*\<^sup>* (VVariableRecovery_init n, x0) (s, x)"
    and "(s', x') = snd (begin_pc provider env vs f ea rpc q cf sel s x) \<or> s' = invalidate_pc q rpc s"
    and "\<not> json_eq_int (jget p ''pc_seq'') q"
  shows "(\<exists>why. v_apply_reg_response env p s' x' = ((False, why, [], []), s', x')) \<and>
    (\<exists>why. v_apply_mem_response p s' = ((False, why, []), s'))"
proof -
  have "vs_pc_seq s' = Some q"
    using assms(2) v_reachable [OF assms(1)] begin_pc_context [of provider env vs f ea rpc q cf sel s x]
    by (cases "begin_pc provider env vs f ea rpc q cf sel s x") (auto simp: invalidate_pc_def v_start_context_def)
  then have "\<exists>why. v_take_pending p k s' = ((None, why), s')" for k
    using assms(3) by (rule v_requests.stale_rejected)
  from this [of "''reg''"] this [of "''mem''"] show ?thesis
    by (auto simp: v_apply_reg_response_def v_apply_mem_response_def)
qed

lemma late_v_response_ignored_witness:
  "\<exists>why. v_apply_mem_response [(''pc_seq'', JInt 4)] (fst (snd ex_begun)) = ((False, why, []), fst (snd ex_begun))"
proof -
  have e: "(fst (snd ex_begun), snd (snd ex_begun)) = snd (begin_pc ex_provider ex_env [ex_local] 0x1000 0x1008 ''0x7ff8'' 5
      None (Some [3]) (VVariableRecovery_init 256) 1)" by (simp add: ex_begun_def)
  have "\<not> json_eq_int (jget [(''pc_seq'', JInt 4)] ''pc_seq'') 5" by (simp add: jget_def)
  from late_v_response_ignored [OF rtranclp.rtrancl_refl disjI1 [OF e] this] show ?thesis by blast
qed

text \<open>
  C22. A response is applied at most once: when it was accepted, sending it again is rejected
  without any effect.
\<close>

theorem v_response_accepted_once:
  assumes "(v_step provider env)\<^sup>*\<^sup>* (VVariableRecovery_init n, x0) (s, x)"
  shows "(\<forall>res s' x'. v_apply_reg_response env p s x = (res, s', x') \<and> fst res \<longrightarrow>
      (\<exists>why. v_apply_reg_response env p s' x' = ((False, why, [], []), s', x'))) \<and>
    (\<forall>res s'. v_apply_mem_response p s = (res, s') \<and> fst res \<longrightarrow>
      (\<exists>why. v_apply_mem_response p s' = ((False, why, []), s')))"
proof -
  have ok: "v_ok s" using v_reachable [OF assms] by simp
  have "\<exists>why. v_apply_reg_response env p s' x' = ((False, why, [], []), s', x')"
    if "v_apply_reg_response env p s x = (res, s', x')" "fst res" for res s' x'
  proof -
    from v_apply_reg_cases [OF ok, of env p x] that obtain k where "jget p ''request_id'' = JStr k"
      "kept not_mem (s\<lparr>vs_pending := ddel k (vs_pending s)\<rparr>) s'" "take 6 k \<noteq> ''v-mem-''" by auto
    then have "\<exists>why. v_take_pending p ''reg'' s' = ((None, why), s')"
      by (intro v_requests.absent_rejected) (auto simp: kept_def)
    then show ?thesis by (auto simp: v_apply_reg_response_def)
  qed
  moreover have "\<exists>why. v_apply_mem_response p s' = ((False, why, []), s')"
    if "v_apply_mem_response p s = (res, s')" "fst res" for res s'
  proof -
    from v_apply_mem_cases [OF ok, of p] that obtain k where "jget p ''request_id'' = JStr k"
      "kept UNIV (s\<lparr>vs_pending := ddel k (vs_pending s)\<rparr>) s'" by auto
    then have "\<exists>why. v_take_pending p ''mem'' s' = ((None, why), s')"
      by (intro v_requests.absent_rejected) (auto simp: kept_def)
    then show ?thesis by (auto simp: v_apply_mem_response_def)
  qed
  ultimately show ?thesis by blast
qed

definition ex_v_response :: payload where
  "ex_v_response = [(''pc_seq'', JInt 5), (''request_id'', JStr (v_reg_id 5)), (''ok'', JBool False)]"

definition ex_answered :: "(bool \<times> string \<times> payload list \<times> string list) \<times> VVariableRecovery \<times> int" where
  "ex_answered = v_apply_reg_response ex_env ex_v_response (fst (snd ex_begun)) (snd (snd ex_begun))"

lemma v_response_accepted_once_witness:
  "\<exists>why. v_apply_reg_response ex_env ex_v_response (fst (snd ex_answered)) (snd (snd ex_answered)) =
     ((False, why, [], []), snd ex_answered)"
proof -
  from ex_begun_reachable have r: "(v_step ex_provider ex_env)\<^sup>*\<^sup>* (VVariableRecovery_init 256, 1)
      (fst (snd ex_begun), snd (snd ex_begun))" by simp
  have "fst (fst ex_answered)"
  proof (rule ex_plan_parts)
    fix pr
    assume pr: "vs_pc_seq (fst (snd ex_begun)) = Some 5" "vs_runtime_pc (fst (snd ex_begun)) = ''0x7ff8''"
      "dget (vs_pending (fst (snd ex_begun))) (v_reg_id 5) = Some pr" "vp_kind pr = ''reg''"
    then show ?thesis
      by (simp add: ex_answered_def v_apply_reg_response_def v_take_pending_def ex_v_response_def jget_def case_prod_beta)
  qed
  moreover have "v_apply_reg_response ex_env ex_v_response (fst (snd ex_begun)) (snd (snd ex_begun)) =
      (fst ex_answered, fst (snd ex_answered), snd (snd ex_answered))" by (simp add: ex_answered_def)
  ultimately show ?thesis
    using v_response_accepted_once [OF r, of ex_v_response] by (metis prod.collapse)
qed

end
