(* ===== verification/V_Recovery_Liveness.thy ===== *)
theory V_Recovery_Liveness
  imports V_Recovery_Values
begin

text \<open>
  Progress of the recovery: the requests of a program counter can only be answered finitely often, an
  outstanding request can always be answered, and once nothing is outstanding every local for
  which a read was requested has a fresh value or an error.
\<close>

section \<open>Outstanding answers\<close>

text \<open>A register request may bring one memory request for each of its lvars.\<close>

definition cost :: "PendingVRequest \<Rightarrow> nat" where
  "cost pr = (if vp_kind pr = ''reg'' then Suc (length (vp_lvar_indexes pr)) else 1)"

definition outstanding :: "(string, PendingVRequest) dict \<Rightarrow> nat" where
  "outstanding d = (\<Sum>k \<in> set (dkeys d). cost (the (dget d k)))"

lemma outstanding_dom: "outstanding d = (\<Sum>k \<in> dom (dget d). cost (the (dget d k)))"
  by (simp add: outstanding_def dom_map_of_conv_image_fst)

lemma outstanding_cong: "dget d = dget d' \<Longrightarrow> outstanding d = outstanding d'"
  by (simp add: outstanding_dom)

lemma outstanding_del:
  assumes "dget d k = Some pr"
  shows "outstanding d = cost pr + outstanding (ddel k d)"
proof -
  have del: "dget (ddel k d) = (dget d)(k := None)" by (auto simp: fun_eq_iff)
  have fin: "finite (dom (dget d))" by (simp add: finite_dom_map_of)
  have "outstanding d = cost (the (dget d k)) + (\<Sum>j \<in> dom (dget d) - {k}. cost (the (dget d j)))"
    unfolding outstanding_dom using assms by (subst sum.remove [OF fin]) auto
  also have "(\<Sum>j \<in> dom (dget d) - {k}. cost (the (dget d j))) = outstanding (ddel k d)"
    unfolding outstanding_dom del by (rule sum.cong) auto
  finally show ?thesis using assms by simp
qed

lemma outstanding_put: "outstanding (dset k pr d) \<le> outstanding d + cost pr"
proof -
  have put: "dget (ddel k (dset k pr d)) = dget (ddel k d)" by (auto simp: fun_eq_iff)
  have "outstanding (dset k pr d) = cost pr + outstanding (ddel k d)"
    using outstanding_del [of "dset k pr d" k pr] outstanding_cong [OF put] by simp
  also have "outstanding (ddel k d) \<le> outstanding d"
  proof (cases "dget d k")
    case None
    then have "dget (ddel k d) = dget d" by (auto simp: fun_eq_iff)
    from outstanding_cong [OF this] show ?thesis by simp
  next
    case (Some pr')
    then show ?thesis by (simp add: outstanding_del [OF Some])
  qed
  finally show ?thesis by simp
qed

section \<open>The progress invariant\<close>

definition readable :: "RecoveryEvidence \<Rightarrow> bool" where
  "readable e \<longleftrightarrow> re_storage_kind e = ''register'' \<and> re_register e \<noteq> None \<or>
     re_storage_kind e = ''stack'' \<and> re_stack_pointer_offset e \<noteq> None"

definition settled :: "VVariableRecoveryRecord \<Rightarrow> bool" where
  "settled r \<longleftrightarrow> vv_recovery_status r \<in> {STATUS_FRESH, STATUS_ERROR}"

definition request_shape :: "int \<Rightarrow> string \<Rightarrow> PendingVRequest \<Rightarrow> bool" where
  "request_shape q k pr \<longleftrightarrow> vp_pc_seq pr = q \<and> vp_request_id pr = k \<and>
     (vp_kind pr = ''reg'' \<and> k = v_reg_id q \<or>
      vp_kind pr = ''mem'' \<and> (\<exists>i. k = v_mem_id q i \<and> vp_lvar_indexes pr = [i]))"

definition shapes :: "int \<Rightarrow> VVariableRecovery \<Rightarrow> bool" where
  "shapes q s \<longleftrightarrow> (\<forall>k pr. dget (vs_pending s) k = Some pr \<longrightarrow> request_shape q k pr)"

definition covered :: "VVariableRecovery \<Rightarrow> int \<Rightarrow> bool" where
  "covered s i \<longleftrightarrow> (\<exists>k pr. dget (vs_pending s) k = Some pr \<and> i \<in> set (vp_lvar_indexes pr))"

text \<open>
  An lvar is accounted for if its record is settled, if an outstanding request names it, or if it is
  among the lvars \<open>A\<close> that the response being handled still has to treat.
\<close>

definition accounted :: "int set \<Rightarrow> VVariableRecovery \<Rightarrow> int \<Rightarrow> bool" where
  "accounted A s i \<longleftrightarrow> (\<exists>r e. dget (vs_records s) i = Some r \<and> dget (vs_evidence s) i = Some e \<and> readable e \<and>
     (settled r \<or> i \<in> A \<or> covered s i))"

definition progress :: "int set \<Rightarrow> int set \<Rightarrow> int \<Rightarrow> VVariableRecovery \<Rightarrow> bool" where
  "progress R A q s \<longleftrightarrow> vs_pc_seq s = Some q \<and> shapes q s \<and> (\<forall>i \<in> R. accounted A s i)"

lemma ids_differ: "v_mem_id q i \<noteq> v_reg_id q'" "v_reg_id q' \<noteq> v_mem_id q i" "v_mem_id q i = v_mem_id q j \<longleftrightarrow> i = j"
  by (auto simp: v_mem_id_def v_reg_id_def str_int_inj)

text \<open>The invariant looks at the context, the requests, the records and the evidence only.\<close>

definition same_view :: "VVariableRecovery \<Rightarrow> VVariableRecovery \<Rightarrow> bool" where
  "same_view s s' \<longleftrightarrow> vs_pc_seq s' = vs_pc_seq s \<and> dget (vs_pending s') = dget (vs_pending s) \<and>
     dget (vs_records s') = dget (vs_records s) \<and> dget (vs_evidence s') = dget (vs_evidence s)"

lemma same_view_covered: "same_view s s' \<Longrightarrow> covered s' = covered s"
  by (simp add: same_view_def covered_def fun_eq_iff)

lemma progress_same: "same_view s s' \<Longrightarrow> progress R A q s' \<longleftrightarrow> progress R A q s"
  using same_view_covered [of s s'] by (simp add: same_view_def progress_def shapes_def accounted_def)

lemma accounted_put:
  "covered (put_record i r s) = covered s"
  "j \<noteq> i \<Longrightarrow> accounted A (put_record i r s) j \<longleftrightarrow> accounted A s j"
  "accounted A (put_record i r s) i \<longleftrightarrow> (\<exists>e. dget (vs_evidence s) i = Some e \<and> readable e \<and> (settled r \<or> i \<in> A \<or> covered s i))"
  by (auto simp: accounted_def put_record_def covered_def fun_eq_iff)

lemma accounted_shrink: "accounted (insert i A) s j \<Longrightarrow> j \<noteq> i \<Longrightarrow> accounted A s j"
  by (auto simp: accounted_def)

lemma progress_settle:
  assumes "progress R (insert i A) q s" "settled r" "same_view s s'"
  shows "progress R A q (put_record i r s')"
proof -
  have p: "progress R (insert i A) q s'" using assms(1) progress_same [OF assms(3)] by simp
  have "accounted A (put_record i r s') j" if "j \<in> R" for j
  proof -
    have a: "accounted (insert i A) s' j" using p that by (simp add: progress_def)
    show ?thesis
    proof (cases "j = i")
      case True
      with a assms(2) show ?thesis by (simp add: accounted_put) (auto simp: accounted_def)
    qed (use a in \<open>simp add: accounted_put accounted_shrink\<close>)
  qed
  with p show ?thesis by (simp add: progress_def shapes_def put_record_def)
qed

lemma progress_untreated:
  assumes "progress R (insert i A) q s" "dget (vs_records s) i = None \<or> (\<forall>e. dget (vs_evidence s) i = Some e \<longrightarrow> \<not> readable e)"
  shows "progress R A q s"
proof -
  have "\<not> accounted B s i" for B using assms(2) by (auto simp: accounted_def)
  with assms(1) accounted_shrink show ?thesis unfolding progress_def by metis
qed

lemma progress_request:
  assumes p: "progress R (insert i A) q s" and req: "request_shape q (v_mem_id q i) req" "vp_lvar_indexes req = [i]"
  shows "progress R A q (put_record i r (s\<lparr>vs_pending := dset (v_mem_id q i) req (vs_pending s)\<rparr>))"
proof -
  let ?s' = "s\<lparr>vs_pending := dset (v_mem_id q i) req (vs_pending s)\<rparr>"
  have new: "covered ?s' i" unfolding covered_def using req(2) by (intro exI [of _ "v_mem_id q i"] exI [of _ req]) simp
  have cov: "covered ?s' j" if c: "covered s j" and j: "j \<noteq> i" for j
  proof -
    from c obtain k pr where k: "dget (vs_pending s) k = Some pr" "j \<in> set (vp_lvar_indexes pr)"
      by (auto simp: covered_def)
    have "request_shape q k pr" using p k(1) by (simp add: progress_def shapes_def)
    with k(2) j have "k \<noteq> v_mem_id q i" by (auto simp: request_shape_def ids_differ)
    with k show ?thesis unfolding covered_def by (intro exI [of _ k] exI [of _ pr]) simp
  qed
  have "accounted A (put_record i r ?s') j" if "j \<in> R" for j
  proof -
    have a: "accounted (insert i A) s j" using p that by (simp add: progress_def)
    show ?thesis
    proof (cases "j = i")
      case True
      with a new show ?thesis by (simp add: accounted_put) (auto simp: accounted_def)
    next
      case False
      with a cov show ?thesis by (simp add: accounted_put) (auto simp: accounted_def)
    qed
  qed
  with p req(1) show ?thesis by (simp add: progress_def shapes_def put_record_def)
qed

section \<open>Responses\<close>

lemma settled_set [simp]: "settled (v_set_error reason r)" "settled (fst (mark_fresh r v c s))"
  by (simp_all add: settled_def v_set_error_def mark_fresh_record fresh_record_def)

lemma same_view_refl [simp]: "same_view s s" "same_view s (snd (mark_fresh r v c s))"
  by (simp_all add: same_view_def)

lemma put_pending [simp]: "vs_pending (put_record i r s) = vs_pending s"
  by (simp add: put_record_def)

text \<open>One lvar of a register response, and all of them.\<close>

lemma register_value_progress:
  assumes "progress R (insert i A) q (ga_state acc)"
  shows "progress R A q (ga_state (apply_register_value regs spec i r acc)) \<and>
    outstanding (vs_pending (ga_state (apply_register_value regs spec i r acc))) = outstanding (vs_pending (ga_state acc))"
  using progress_settle [OF assms]
  by (auto simp: apply_register_value_def case_prod_beta split: sum.split simp del: append.simps)

lemma stack_pointer_progress:
  assumes "progress R (insert i A) q (ga_state acc)" "vp_pc_seq pending = q"
  shows "progress R A q (ga_state (apply_stack_pointer env regs pending off i r acc)) \<and>
    outstanding (vs_pending (ga_state (apply_stack_pointer env regs pending off i r acc))) \<le>
      Suc (outstanding (vs_pending (ga_state acc)))"
proof (cases "concrete_stack_address (jget regs ''rsp'') off")
  case (Inl exc)
  with progress_settle [OF assms(1)] show ?thesis
    by (simp add: apply_stack_pointer_def Let_def del: append.simps)
next
  case (Inr address)
  let ?req = "\<lparr>vp_kind = ''mem'', vp_pc_seq = vp_pc_seq pending, vp_request_id = v_mem_id q i,
    vp_runtime_pc = vp_runtime_pc pending, vp_lvar_indexes = [i], vp_registers = [], vp_address = address,
    vp_size = vv_width r\<rparr>"
  have "request_shape q (v_mem_id q i) ?req" using assms(2) by (simp add: request_shape_def)
  from progress_request [OF assms(1) this] outstanding_put [of "v_mem_id q i" ?req "vs_pending (ga_state acc)"]
  show ?thesis using Inr assms(2)
    by (simp add: apply_stack_pointer_def request_v_memory_def Let_def case_prod_beta cost_def del: append.simps)
qed

lemma reg_index_progress:
  assumes "progress R (insert i A) q (ga_state acc)" "vp_pc_seq pending = q"
  shows "progress R A q (ga_state (apply_reg_index env regs pending i acc)) \<and>
    outstanding (vs_pending (ga_state (apply_reg_index env regs pending i acc))) \<le>
      Suc (outstanding (vs_pending (ga_state acc)))"
proof -
  let ?s = "ga_state acc"
  note un = progress_untreated [OF assms(1)] and reg = register_value_progress [OF assms(1)]
    and slot = stack_pointer_progress [OF assms, of env regs]
  show ?thesis
  proof (cases "dget (vs_records ?s) i"; cases "dget (vs_evidence ?s) i")
    fix r e assume re: "dget (vs_records ?s) i = Some r" "dget (vs_evidence ?s) i = Some e"
    show ?thesis
    proof (cases "readable e")
      case True
      then consider spec where "re_storage_kind e = ''register''" "re_register e = Some spec"
        | off where "re_storage_kind e = ''stack''" "re_stack_pointer_offset e = Some off" by (auto simp: readable_def)
      then show ?thesis by cases (use re reg slot in \<open>simp_all add: apply_reg_index_def\<close>)
    next
      case False
      then have "apply_reg_index env regs pending i acc = acc"
        by (auto simp: apply_reg_index_def re readable_def split: option.split bool.split)
      with un re(2) False show ?thesis by simp
    qed
  qed (use un in \<open>simp_all add: apply_reg_index_def\<close>)
qed

lemma reg_fold_progress:
  assumes "progress R (set idx) q (ga_state acc)" "vp_pc_seq pending = q"
  shows "progress R {} q (ga_state (fold (apply_reg_index env regs pending) idx acc)) \<and>
    outstanding (vs_pending (ga_state (fold (apply_reg_index env regs pending) idx acc))) \<le>
      length idx + outstanding (vs_pending (ga_state acc))"
  using assms(1)
proof (induction idx arbitrary: acc)
  case (Cons i idx)
  from reg_index_progress [of R i "set idx" q acc pending env regs] Cons.prems assms(2)
  have "progress R (set idx) q (ga_state (apply_reg_index env regs pending i acc))"
    "outstanding (vs_pending (ga_state (apply_reg_index env regs pending i acc))) \<le> Suc (outstanding (vs_pending (ga_state acc)))"
    by simp_all
  with Cons.IH [of "apply_reg_index env regs pending i acc"] show ?case by simp
qed simp

text \<open>A loop that settles the record of each lvar it meets.\<close>

lemma settle_fold_progress:
  assumes step: "\<And>i st. dget (vs_records (fst st)) i = None \<Longrightarrow> fst (f i st) = fst st"
      "\<And>i st r. dget (vs_records (fst st)) i = Some r \<Longrightarrow>
        \<exists>r' s'. fst (f i st) = put_record i r' s' \<and> settled r' \<and> same_view (fst st) s'"
    and "progress R (set idx) q (fst st)"
  shows "progress R {} q (fst (fold f idx st)) \<and>
    outstanding (vs_pending (fst (fold f idx st))) = outstanding (vs_pending (fst st))"
  using assms(3)
proof (induction idx arbitrary: st)
  case (Cons i idx)
  have p: "progress R (insert i (set idx)) q (fst st)" using Cons.prems by simp
  have "progress R (set idx) q (fst (f i st)) \<and>
      outstanding (vs_pending (fst (f i st))) = outstanding (vs_pending (fst st))"
  proof (cases "dget (vs_records (fst st)) i")
    case None
    with step(1) progress_untreated [OF p] show ?thesis by simp
  next
    case (Some r)
    from step(2) [OF this] obtain r' s' where "fst (f i st) = put_record i r' s'" "settled r'" "same_view (fst st) s'" by blast
    with progress_settle [OF p] show ?thesis by (simp add: same_view_def outstanding_dom)
  qed
  with Cons.IH [of "f i st"] show ?case by simp
qed simp

lemma read_error_progress:
  assumes "progress R (set idx) q s"
  shows "progress R {} q (fst (mark_read_error idx reason s)) \<and>
    outstanding (vs_pending (fst (mark_read_error idx reason s))) = outstanding (vs_pending s)"
  using settle_fold_progress [of "mark_index_error reason" R idx q "(s, [])"] assms same_view_refl(1)
  by (fastforce simp: mark_read_error_def mark_index_error_def)

lemma mem_fold_progress:
  assumes "progress R (set idx) q s"
  shows "progress R {} q (fst (fold (apply_mem_index p pending) idx (s, []))) \<and>
    outstanding (vs_pending (fst (fold (apply_mem_index p pending) idx (s, [])))) = outstanding (vs_pending s)"
proof -
  have "settled (fst (apply_mem_record p pending r s)) \<and> same_view s (snd (apply_mem_record p pending r s))" for r s
    by (auto simp: apply_mem_record_def Let_def case_prod_beta settled_def mark_fresh_record fresh_record_def
        v_set_error_def split: sum.split)
  with settle_fold_progress [of "apply_mem_index p pending" R idx q "(s, [])"] assms show ?thesis
    by (fastforce simp: apply_mem_index_def case_prod_beta)
qed

text \<open>Taking a request leaves its lvars to be treated; every request costs at least the answer it takes.\<close>

lemma progress_take:
  assumes p: "progress R {} q s" and k: "dget (vs_pending s) k = Some pr"
  shows "progress R (set (vp_lvar_indexes pr)) q (s\<lparr>vs_pending := ddel k (vs_pending s)\<rparr>)"
proof -
  have "accounted (set (vp_lvar_indexes pr)) (s\<lparr>vs_pending := ddel k (vs_pending s)\<rparr>) i" if "accounted {} s i" for i
  proof (cases "i \<in> set (vp_lvar_indexes pr)")
    case False
    have "covered (s\<lparr>vs_pending := ddel k (vs_pending s)\<rparr>) i" if c: "covered s i"
    proof -
      from c obtain k' pr' where k': "dget (vs_pending s) k' = Some pr'" "i \<in> set (vp_lvar_indexes pr')"
        by (auto simp: covered_def)
      with k False have "k' \<noteq> k" by auto
      with k' show ?thesis unfolding covered_def by (intro exI [of _ k'] exI [of _ pr']) simp
    qed
    with that show ?thesis by (auto simp: accounted_def)
  qed (use that in \<open>auto simp: accounted_def\<close>)
  with p show ?thesis by (auto simp: progress_def shapes_def split: if_splits)
qed

lemma reg_response_progress:
  assumes "progress R {} q s"
  shows "progress R {} q (fst (snd (v_apply_reg_response env p s x))) \<and>
    outstanding (vs_pending (fst (snd (v_apply_reg_response env p s x)))) +
      (if fst (fst (v_apply_reg_response env p s x)) then 1 else 0) \<le> outstanding (vs_pending s)"
proof -
  obtain po why s1 where t: "v_take_pending p ''reg'' s = ((po, why), s1)" by (metis surj_pair)
  show ?thesis
  proof (cases po)
    case None
    with t v_take_pending_cases [OF t] assms show ?thesis by (simp add: v_apply_reg_response_def)
  next
    case (Some pr)
    from v_take_pending_cases [OF t] Some obtain k where k: "dget (vs_pending s) k = Some pr" "vp_kind pr = ''reg''"
      "s1 = s\<lparr>vs_pending := ddel k (vs_pending s)\<rparr>" by auto
    have q: "vp_pc_seq pr = q" using assms k(1) by (simp add: progress_def shapes_def request_shape_def)
    have p1: "progress R (set (vp_lvar_indexes pr)) q s1" unfolding k(3) using assms k(1) by (rule progress_take)
    have out: "outstanding (vs_pending s) = Suc (length (vp_lvar_indexes pr)) + outstanding (vs_pending s1)"
      using outstanding_del [OF k(1)] k(2,3) by (simp add: cost_def)
    show ?thesis
      using t Some read_error_progress [OF p1] out q p1
        reg_fold_progress [of R "vp_lvar_indexes pr" q "\<lparr>ga_state = s1, ga_env = x, ga_requests = [], ga_summaries = [], ga_debug = []\<rparr>"
          pr env]
      by (simp add: v_apply_reg_response_def Let_def case_prod_beta split: option.split)
  qed
qed

lemma mem_response_progress:
  assumes "progress R {} q s"
  shows "progress R {} q (snd (v_apply_mem_response p s)) \<and>
    outstanding (vs_pending (snd (v_apply_mem_response p s))) +
      (if fst (fst (v_apply_mem_response p s)) then 1 else 0) \<le> outstanding (vs_pending s)"
proof -
  obtain po why s1 where t: "v_take_pending p ''mem'' s = ((po, why), s1)" by (metis surj_pair)
  show ?thesis
  proof (cases po)
    case None
    with t v_take_pending_cases [OF t] assms show ?thesis by (simp add: v_apply_mem_response_def)
  next
    case (Some pr)
    from v_take_pending_cases [OF t] Some obtain k where k: "dget (vs_pending s) k = Some pr" "vp_kind pr = ''mem''"
      "s1 = s\<lparr>vs_pending := ddel k (vs_pending s)\<rparr>" by auto
    have id: "vp_request_id pr = k" using assms k(1) by (simp add: progress_def shapes_def request_shape_def)
    have p1: "progress R (set (vp_lvar_indexes pr)) q s1" unfolding k(3) using assms k(1) by (rule progress_take)
    have out: "outstanding (vs_pending s) = 1 + outstanding (vs_pending s1)"
      using outstanding_del [OF k(1)] k(2,3) by (simp add: cost_def)
    let ?restored = "s1\<lparr>vs_pending := dset k pr (vs_pending s1)\<rparr>"
    have sv: "same_view s ?restored" using k by (auto simp: same_view_def fun_eq_iff)
    have rest: "progress R {} q ?restored" using assms progress_same [OF sv] by blast
    have same: "outstanding (vs_pending ?restored) = outstanding (vs_pending s)"
      using sv by (intro outstanding_cong) (simp only: same_view_def)
    show ?thesis
      using t Some id rest same mem_fold_progress [OF p1, of p pr] out
      by (simp add: v_apply_mem_response_def Let_def case_prod_beta)
  qed
qed

section \<open>Runs of responses\<close>

text \<open>
  Any responses in any order, accepted or not, with the number of those that were accepted; the message
  factory may be used by others in between.
\<close>

inductive answered :: "'e EnvelopeFactory \<Rightarrow> nat \<Rightarrow> VVariableRecovery \<times> 'e \<Rightarrow> VVariableRecovery \<times> 'e \<Rightarrow> bool" for env where
  answered_none: "answered env 0 st st"
| answered_reg: "answered env n st (s, x) \<Longrightarrow>
    answered env (n + (if fst (fst (v_apply_reg_response env p s x)) then 1 else 0)) st (snd (v_apply_reg_response env p s x))"
| answered_mem: "answered env n st (s, x) \<Longrightarrow>
    answered env (n + (if fst (fst (v_apply_mem_response p s)) then 1 else 0)) st (snd (v_apply_mem_response p s), x)"
| answered_env: "answered env n st (s, x) \<Longrightarrow> answered env n st (s, x')"

lemma answered_progress:
  assumes "answered env n st st'" "progress R {} q (fst st)"
  shows "progress R {} q (fst st') \<and> n + outstanding (vs_pending (fst st')) \<le> outstanding (vs_pending (fst st))"
  using assms
proof (induction rule: answered.induct)
  case (answered_reg n st s x p)
  with reg_response_progress [of R q s env p x] show ?case by simp
next
  case (answered_mem n st s x p)
  with mem_response_progress [of R q s p] show ?case by simp
qed simp_all

text \<open>A refusal is always accepted.\<close>

lemma refusal_accepted:
  assumes p: "progress R {} q s" and ne: "vs_pending s \<noteq> []"
  shows "\<exists>p. fst (fst (v_apply_reg_response env p s x)) \<or> fst (fst (v_apply_mem_response p s))"
proof -
  from ne have "dget (vs_pending s) (fst (hd (vs_pending s))) \<noteq> None" by (cases "vs_pending s") auto
  then obtain k pr where k: "dget (vs_pending s) k = Some pr" by blast
  with p have pr: "vp_pc_seq pr = q" "vp_kind pr \<in> {''reg'', ''mem''}" "vs_pc_seq s = Some q"
    by (auto simp: progress_def shapes_def request_shape_def)
  let ?p = "[(''pc_seq'', JInt q), (''request_id'', JStr k)]"
  have "v_take_pending ?p (vp_kind pr) s = ((Some pr, ''accepted''), s\<lparr>vs_pending := ddel k (vs_pending s)\<rparr>)"
    using k pr by (simp add: v_take_pending_def jget_def)
  with pr(2) show ?thesis
    by (intro exI [of _ ?p]) (auto simp: v_apply_reg_response_def v_apply_mem_response_def address_matches_def
        size_matches_def jget_def case_prod_beta Let_def)
qed

lemma requested_readable:
  assumes "decision_registers (decide ok v (variable_evidence ok sel ev v)) \<noteq> []"
  shows "\<exists>e. dget ev (vr_lvar_index v) = Some e \<and> readable e"
proof -
  have "readable (variable_evidence ok sel ev v)"
    using assms by (auto simp: decide_def readable_def split: option.splits bool.splits sum.splits if_splits)
  then show ?thesis
    by (auto simp: variable_evidence_def Let_def readable_def RecoveryEvidence_new_def split: option.splits if_splits)
qed

lemma begin_fold_recorded:
  "i \<in> vr_lvar_index ` set vs \<or> dget (vs_records (ba_state acc)) i \<noteq> None \<Longrightarrow>
   dget (vs_records (ba_state (fold (begin_variable ok sel ea rpc q) vs acc))) i \<noteq> None"
proof (induction vs arbitrary: acc)
  case (Cons v vs)
  have "i \<in> vr_lvar_index ` set vs \<or> dget (vs_records (ba_state (begin_variable ok sel ea rpc q v acc))) i \<noteq> None"
    using Cons.prems begin_variable_parts(5,6) [where ok = ok and sel = sel and ea = ea and rpc = rpc and q = q and v = v and acc = acc]
    by (cases "i = vr_lvar_index v") auto
  from Cons.IH [OF this] show ?case by simp
qed simp

lemma begin_pending:
  assumes "begin_pc provider env vs f ea rpc q cf sel s x = (plan, s1, x1)"
  shows "vs_pending s1 = [] \<or> (\<exists>pr. vs_pending s1 = [(v_reg_id q, pr)])"
  using begin_pc_parts(5,6) [OF assms] by blast

text \<open>The lvars a state has outstanding requests for.\<close>

definition requested :: "VVariableRecovery \<Rightarrow> int set" where
  "requested s = {i. covered s i}"

lemma begin_progress:
  assumes b: "begin_pc provider env vs f ea rpc q cf sel s x = (plan, s1, x1)" and ok: "v_ok s"
  shows "progress (requested s1) {} q s1"
proof -
  define ls where "ls = filter (\<lambda>v. \<not> vr_is_arg v) vs"
  define idx where "idx = selected_indexes ls sel"
  define a where "a = run_analysis provider f ea (filter (\<lambda>v. vr_lvar_index v \<in> set idx) ls) cf"
  note parts = begin_pc_parts [OF b, folded ls_def, folded idx_def, folded a_def]
  have ctx: "vs_pc_seq s1 = Some q" using begin_pc_context [OF b ok] by simp
  define reads where "reads = filter (\<lambda>v. decision_registers (plan_decision a idx v) \<noteq> []) ls"
  have pending: "vs_pending s1 = [] \<or> (\<exists>pr. vs_pending s1 = [(v_reg_id q, pr)] \<and> request_shape q (v_reg_id q) pr \<and>
      vp_lvar_indexes pr = map vr_lvar_index reads)"
  proof (cases "sort_registers (concat (map (\<lambda>v. decision_registers (plan_decision a idx v)) ls)) = []")
    case False
    from parts(6) [OF this] show ?thesis unfolding reads_def [symmetric] by (simp add: request_shape_def)
  qed (use parts(5) in blast)
  have known: "\<exists>r e. dget (vs_records s1) (vr_lvar_index v) = Some r \<and> dget (vs_evidence s1) (vr_lvar_index v) = Some e \<and> readable e"
    if "v \<in> set reads" for v
  proof -
    have "dget (vs_records s1) (vr_lvar_index v) \<noteq> None"
      unfolding parts(4) begin_loop_def Let_def using that
      by (intro begin_fold_recorded) (simp add: reads_def ls_def)
    moreover have "\<exists>e. dget (vs_evidence s1) (vr_lvar_index v) = Some e \<and> readable e"
      unfolding parts(3) using that by (intro requested_readable [of "ra_ok a" v idx]) (simp add: reads_def)
    ultimately show ?thesis by auto
  qed
  have "accounted {} s1 i" if c: "covered s1 i" for i
  proof -
    from c pending obtain v where "v \<in> set reads" "i = vr_lvar_index v" by (auto simp: covered_def split: if_splits)
    with known [of v] c show ?thesis by (auto simp: accounted_def)
  qed
  with ctx pending show ?thesis by (auto simp: progress_def shapes_def requested_def split: if_splits)
qed

text \<open>
  C12. The recovery settles: after a program counter update, at most as many responses are accepted as
  were outstanding, counting one memory read for each lvar of a register request; as long as a
  request is outstanding some response is accepted; and when none is, every local for which
  a read was requested has a fresh value or an error.
\<close>

theorem recovery_settles:
  assumes "(v_step provider env)\<^sup>*\<^sup>* (VVariableRecovery_init m, x0) (s, x)"
    and "begin_pc provider env vs f ea rpc q cf sel s x = (plan, s1, x1)"
    and "answered env n (s1, x1) (s2, x2)"
  shows "n + outstanding (vs_pending s2) \<le> outstanding (vs_pending s1) \<and>
    (vs_pending s2 \<noteq> [] \<longrightarrow>
      (\<exists>p. fst (fst (v_apply_reg_response env p s2 x2)) \<or> fst (fst (v_apply_mem_response p s2)))) \<and>
    (vs_pending s2 = [] \<longrightarrow>
      (\<forall>k pr. dget (vs_pending s1) k = Some pr \<longrightarrow> (\<forall>i \<in> set (vp_lvar_indexes pr).
        \<exists>r. dget (vs_records s2) i = Some r \<and> vv_recovery_status r \<in> {STATUS_FRESH, STATUS_ERROR})))"
proof -
  have "v_ok s" using v_reachable [OF assms(1)] by simp
  from begin_progress [OF assms(2) this] have "progress (requested s1) {} q (fst (s1, x1))" by simp
  from answered_progress [OF assms(3) this]
  have p2: "progress (requested s1) {} q s2" and le: "n + outstanding (vs_pending s2) \<le> outstanding (vs_pending s1)" by simp_all
  have "\<exists>r. dget (vs_records s2) i = Some r \<and> vv_recovery_status r \<in> {STATUS_FRESH, STATUS_ERROR}"
    if none: "vs_pending s2 = []" and k: "dget (vs_pending s1) k = Some pr" "i \<in> set (vp_lvar_indexes pr)" for k pr i
  proof -
    have "i \<in> requested s1" using k by (auto simp: requested_def covered_def)
    with p2 have "accounted {} s2 i" by (simp add: progress_def)
    with none show ?thesis by (auto simp: accounted_def covered_def settled_def)
  qed
  moreover have "\<exists>p. fst (fst (v_apply_reg_response env p s2 x2)) \<or> fst (fst (v_apply_mem_response p s2))"
    if "vs_pending s2 \<noteq> []" using refusal_accepted [OF p2 that] .
  ultimately show ?thesis using le by metis
qed

text \<open>The debugger refuses the register read of the example.\<close>

definition ex_refusal :: payload where
  "ex_refusal = [(''pc_seq'', JInt 5), (''request_id'', JStr (v_reg_id 5)), (''ok'', JBool False)]"

definition ex_refused :: "VVariableRecovery \<times> int" where
  "ex_refused = snd (v_apply_reg_response ex_env ex_refusal (fst (snd ex_begun)) (snd (snd ex_begun)))"

lemma mark_read_error_pending [simp]: "vs_pending (fst (mark_read_error idx reason s)) = vs_pending s"
proof -
  have "vs_pending (fst (fold (mark_index_error reason) idx st)) = vs_pending (fst st)" for st
    by (induction idx arbitrary: st) (auto simp: mark_index_error_def split: option.split)
  then show ?thesis by (simp add: mark_read_error_def)
qed

lemma recovery_settles_witness:
  "\<exists>r. dget (vs_records (fst ex_refused)) 3 = Some r \<and> vv_recovery_status r \<in> {STATUS_FRESH, STATUS_ERROR}"
proof -
  let ?s1 = "fst (snd ex_begun)"
  obtain pr where pr: "dget (vs_pending ?s1) (v_reg_id 5) = Some pr" "vr_lvar_index ex_local \<in> set (vp_lvar_indexes pr)"
    "vp_kind pr = ''reg''" "vs_pc_seq ?s1 = Some 5" by (rule ex_plan_parts)
  have "vs_pending ?s1 = [(v_reg_id 5, pr)]" using begin_pending [OF ex_begun_eq] pr(1) by auto
  then have none: "vs_pending (fst ex_refused) = []"
    using pr by (simp add: ex_refused_def v_apply_reg_response_def v_take_pending_def ex_refusal_def jget_def case_prod_beta)
  have run: "answered ex_env (0 + (if fst (fst (v_apply_reg_response ex_env ex_refusal ?s1 (snd (snd ex_begun))))
      then 1 else 0)) (?s1, snd (snd ex_begun)) (fst ex_refused, snd ex_refused)"
    unfolding ex_refused_def prod.collapse(1) [of "snd (v_apply_reg_response _ _ _ _)"]
    by (rule answered_reg) (rule answered_none)
  have "vr_lvar_index ex_local = 3" by (simp add: ex_local_def VariableRecord_new_def)
  with pr(1,2) show ?thesis
    using recovery_settles [OF rtranclp.rtrancl_refl ex_begun_eq run] none by auto
qed

end
