(* ===== verification/End_To_End.thy ===== *)
theory End_To_End
  imports V_Static_Claims V_Recovery_Liveness
begin

text \<open>
  The composition of the static analysis with the runtime side: the analysis of \<^verbatim>\<open>V_Static\<close> is the
  provider that the recovery of \<^verbatim>\<open>V_Recovery\<close> is built with. The value shown for a local
  is what its defining instruction left in the register.
\<close>

lemma slice_value:
  assumes "0 \<le> width"
  shows "v (rs_full_register spec) div 2 ^ nat (rs_bit_offset spec) mod 2 ^ nat (8 * width) = register_slice spec width v"
  using assms by (simp add: register_slice_def mask_take_bit drop_bit_eq_div mult.commute)

text \<open>The width of exact evidence is that of the variable it was made for.\<close>

lemma planned_evidence:
  assumes "plans_read (analyze_v_variable_candidates st) vs fea ce cf sel v e" "re_confidence e \<in> set exact_confidences"
  obtains a vars where "analyze_v_variable_candidates st fea ce vars cf = Inr a"
    "dget (ra_evidence_by_index a) (vr_lvar_index v) = Some e" "re_width e = vr_size v"
proof -
  let ?ls = "filter (\<lambda>v. \<not> vr_is_arg v) vs"
  let ?vars = "filter (\<lambda>v. vr_lvar_index v \<in> set sel) ?ls"
  from assms(1) obtain a where a: "analyze_v_variable_candidates st fea ce ?vars cf = Inr a"
    "dget (ra_evidence_by_index a) (vr_lvar_index v) = Some e" and v: "distinct (map vr_lvar_index ?ls)" "v \<in> set ?ls"
    by (auto simp: plans_read_def Let_def split: sum.splits)
  from exact_from_candidate [OF a assms(2)] obtain cf' an v' l where v': "v' \<in> set ?vars"
    "vr_lvar_index v' = vr_lvar_index v" "fst (analyze_one_lvar st an cf' v' l) = Inr e" by blast
  have "v' = v" using v v'(1,2) by (auto simp: distinct_map inj_on_def)
  moreover from analyze_one_exact(4) [OF v'(3)] obtain site defn de nd where
    "fst (storage_evidence st an cf' v' l site defn de nd) = Inr e" by blast
  from storage_evidence_cases(2) [OF this] have "re_width e = vr_size v'" .
  ultimately show thesis using a that by blast
qed

text \<open>
  C5. From code to screen: suppose the plugin, stopped at the current instruction, plans to read a local
  that the analysis places in a register, and the debugger answers with the contents the register has
  there. Then the record of the local becomes fresh, and its value is what an instruction
  at the source address of the evidence, executed on the way to the current instruction, left in
  the register slice.
\<close>

theorem shown_register_value:
  fixes st :: "'cf static_apis"
  assumes reach: "(v_step (analyze_v_variable_candidates st) env)\<^sup>*\<^sup>* (VVariableRecovery_init n, x0) (s, x)"
    and plan: "begin_pc (analyze_v_variable_candidates st) env vs fea ce rpc q cf (Some sel) s x = (plan, s1, x1)"
      "plans_read (analyze_v_variable_candidates st) vs fea ce cf sel v e"
    and evidence: "re_confidence e = CONFIDENCE_EXACT_REGISTER_LOCATION" "re_storage_kind e = ''register''"
      "re_register e = Some spec"
    and code: "st_get_func st ce = Inr (Some func)" "build_native_cfg_facts (fn_native func) = (Some blocks, err)"
    and entry: "dget blocks b0 = Some eb" "nb_predecessors eb = []"
    and run: "flow_run (native_len blocks) (native_succs blocks) (b0, 0) xs (cb, pos)"
    and here: "native_fact blocks (cb, pos) = Some c" "ni_ea c = ce"
    and contents: "length vals = Suc (length xs)" "\<forall>j < length xs. keeps_unwritten blocks (xs ! j) (vals ! j) (vals ! Suc j)"
    and debugger: "answers p q rpc (v_reg_id q)" "jget p ''registers'' = JObj regs"
      "jget regs (rs_full_register spec) = JStr (hex0x (last vals (rs_full_register spec)))"
      "0 \<le> last vals (rs_full_register spec)"
  shows "\<exists>msgs lines s2 x2 r ys b k zs d.
    v_apply_reg_response env p s1 x1 = ((True, ''accepted'', msgs, lines), s2, x2) \<and>
    dget (vs_records s2) (vr_lvar_index v) = Some r \<and> vv_recovery_status r = STATUS_FRESH \<and>
    xs = ys @ (b, k) # zs \<and> native_fact blocks (b, k) = Some d \<and> re_source_ea e = Some (ni_ea d) \<and>
    vv_value r = hex0x (register_slice spec (vr_size v) (vals ! Suc (length ys)))"
proof -
  have "re_confidence e \<in> set exact_confidences" using evidence(1) by (simp add: exact_confidences_def)
  from planned_evidence [OF plan(2) this] obtain a vars where a: "analyze_v_variable_candidates st fea ce vars cf = Inr a"
    "dget (ra_evidence_by_index a) (vr_lvar_index v) = Some e" and w: "re_width e = vr_size v" .
  from register_evidence_run [OF a evidence(1) code entry run here contents] evidence(3) w
  obtain ys b k zs d where on_run: "xs = ys @ (b, k) # zs" "native_fact blocks (b, k) = Some d" "re_source_ea e = Some (ni_ea d)"
    and slice: "register_slice spec (vr_size v) (last vals) = register_slice spec (vr_size v) (vals ! Suc (length ys))"
    and width: "vr_size v \<in> set SUPPORTED_WIDTHS" by auto
  from register_recovered [OF reach plan(2) evidence(2,3) plan(1) debugger]
  obtain msgs lines s2 x2 r where "v_apply_reg_response env p s1 x1 = ((True, ''accepted'', msgs, lines), s2, x2)"
    "dget (vs_records s2) (vr_lvar_index v) = Some r" "vv_recovery_status r = STATUS_FRESH"
    "vv_value r = hex0x (last vals (rs_full_register spec) div 2 ^ nat (rs_bit_offset spec) mod 2 ^ nat (8 * vr_size v))"
    by blast
  with on_run slice slice_value [of "vr_size v" "last vals" spec] supported_pos [OF width] show ?thesis by fastforce
qed

section \<open>Example\<close>

text \<open>
  The function of \<^verbatim>\<open>V_Static_Example\<close> stopped at its last instruction: the plan reads \<^verbatim>\<open>rax\<close>, the debugger
  answers \<^verbatim>\<open>0x507\<close>, and the variable in \<^verbatim>\<open>al\<close> shows what the first instruction wrote.
\<close>

definition ex_planned_locals :: "VRecoveryPlan \<times> VVariableRecovery \<times> int" where
  "ex_planned_locals = begin_pc (analyze_v_variable_candidates ex_static) ex_env (map ex_var [0, 1, 2]) 0x10 0x18 ''0x7ff8'' 5
     None (Some [0, 1, 2]) (VVariableRecovery_init 256) 1"

definition ex_rax_response :: payload where
  "ex_rax_response = [(''pc_seq'', JInt 5), (''runtime_pc'', JStr ''0x7ff8''), (''request_id'', JStr (v_reg_id 5)),
     (''ok'', JBool True), (''registers'', JObj [(''rax'', JStr (hex0x (last ex_rax ''rax'')))])]"

lemma shown_register_value_witness:
  "\<exists>msgs lines s2 x2 r ys b k zs d.
    v_apply_reg_response ex_env ex_rax_response (fst (snd ex_planned_locals)) (snd (snd ex_planned_locals)) =
      ((True, ''accepted'', msgs, lines), s2, x2) \<and>
    dget (vs_records s2) 0 = Some r \<and> [(0, 0), (0, 1), (0, 2)] = ys @ (b, k) # zs \<and>
    native_fact ex_native_cfg (b, k) = Some d \<and> ni_ea d = 0x10 \<and>
    vv_value r = hex0x (register_slice (mk_spec ''al'' ''rax'' 1 0) 1 (ex_rax ! Suc (length ys)))"
proof -
  let ?spec = "mk_spec ''al'' ''rax'' 1 0"
  let ?e = "ex_register_evidence 0 ?spec"
  have e: "re_confidence ?e = CONFIDENCE_EXACT_REGISTER_LOCATION" "re_storage_kind ?e = ''register''"
    "re_register ?e = Some ?spec" "re_source_ea ?e = Some 0x10"
    by (simp_all add: ex_register_evidence_def)
  have ls: "filter (\<lambda>v. \<not> vr_is_arg v) (map ex_var [0, 1, 2]) = map ex_var [0, 1, 2]"
    "filter (\<lambda>v. vr_lvar_index v \<in> set [0, 1, 2]) (map ex_var [0, 1, 2]) = map ex_var [0, 1, 2]"
    by (simp_all add: ex_var_def VariableRecord_new_def)
  have plans: "plans_read (analyze_v_variable_candidates ex_static) (map ex_var [0, 1, 2]) 0x10 0x18 None [0, 1, 2] (ex_var 0) ?e"
    unfolding plans_read_def Let_def ls ex_analyzed(1) using e ex_analysis_ok
    by (simp add: ex_analyzed(2) decide_def SUPPORTED_WIDTHS_def mk_spec_def)
  have b: "begin_pc (analyze_v_variable_candidates ex_static) ex_env (map ex_var [0, 1, 2]) 0x10 0x18 ''0x7ff8'' 5 None
      (Some [0, 1, 2]) (VVariableRecovery_init 256) 1 =
      (fst ex_planned_locals, fst (snd ex_planned_locals), snd (snd ex_planned_locals))"
    by (simp add: ex_planned_locals_def)
  have f: "st_get_func ex_static 0x18 = Inr (Some ex_func)" "build_native_cfg_facts (fn_native ex_func) = (Some ex_native_cfg, [])"
    using ex_snapshot by (simp_all add: ex_static_def)
  have d: "answers ex_rax_response 5 ''0x7ff8'' (v_reg_id 5)"
    "jget ex_rax_response ''registers'' = JObj [(''rax'', JStr (hex0x (last ex_rax ''rax'')))]"
    "jget [(''rax'', JStr (hex0x (last ex_rax ''rax'')))] (rs_full_register ?spec) = JStr (hex0x (last ex_rax (rs_full_register ?spec)))"
    "0 \<le> last ex_rax (rs_full_register ?spec)"
    by (simp_all add: answers_def ex_rax_response_def jget_def mk_spec_def) (simp add: ex_rax_def)
  from shown_register_value [OF rtranclp.rtrancl_refl b plans e(1-3) f ex_native_entry ex_native_run ex_native_here
      ex_rax_contents d] e(4)
  show ?thesis by (simp only: ex_an_fields ex_fields) force
qed

end
